(* ===== verification/Prelude.thy ===== *)
theory Prelude
  imports Main "HOL-Library.List_Lexorder" "HOL-Library.Char_ord"
begin

section \<open>Shared vocabulary: results, effects, strings\<close>

text \<open>
  What every component of libral uses. A C++ function returns normally, returns an error
  through \<open>libral::result\<close> (\<open>lib/inc/libral/result.hpp\<close>), or leaves by an exception; reads that
  the language leaves undefined (an empty vector's \<open>back()\<close>, a null pointer) are kept apart
  from real exceptions as \<open>Undefined\<close>. Stateful code takes the state and returns
  the new one, and the state survives an error, as it does in the program.
  Strings are byte strings (\<open>char list\<close>), ordered bytewise like \<open>std::string\<close>.
\<close>

named_theorems prog_simps "evaluation of effectful code"
named_theorems str_simps "evaluation of string scanners"

subsection \<open>Outcomes\<close>

datatype exn =
    Logic_error string
  | Invalid_argument string
  | Out_of_range string
  | Data_error string
  | Runtime_error string
  | Undefined string

datatype 'a outcome = Ok 'a | Err string | Exn exn

fun obind :: "'a outcome \<Rightarrow> ('a \<Rightarrow> 'b outcome) \<Rightarrow> 'b outcome" where
  "obind (Ok a) f = f a"
| "obind (Err e) f = Err e"
| "obind (Exn x) f = Exn x"

fun is_Ok :: "'a outcome \<Rightarrow> bool" where
  "is_Ok (Ok a) = True"
| "is_Ok (Err e) = False"
| "is_Ok (Exn x) = False"

fun is_Err :: "'a outcome \<Rightarrow> bool" where
  "is_Err (Ok a) = False"
| "is_Err (Err e) = True"
| "is_Err (Exn x) = False"

lemma obind_Ok_iff: "obind m f = Ok b \<longleftrightarrow> (\<exists>a. m = Ok a \<and> f a = Ok b)"
  by (cases m) auto

lemma obind_Err_iff: "obind m f = Err e \<longleftrightarrow> m = Err e \<or> (\<exists>a. m = Ok a \<and> f a = Err e)"
  by (cases m) auto

lemma obind_Exn_iff: "obind m f = Exn x \<longleftrightarrow> m = Exn x \<or> (\<exists>a. m = Ok a \<and> f a = Exn x)"
  by (cases m) auto

lemma is_Ok_iff: "is_Ok m \<longleftrightarrow> (\<exists>a. m = Ok a)"
  by (cases m) auto

lemma is_Err_iff: "is_Err m \<longleftrightarrow> (\<exists>e. m = Err e)"
  by (cases m) auto

subsection \<open>Effectful code: state passing with an outcome\<close>

type_synonym ('s, 'a) prog = "'s \<Rightarrow> 'a outcome \<times> 's"

definition ret :: "'a \<Rightarrow> ('s, 'a) prog" where
  "ret a s = (Ok a, s)"

definition fail :: "string \<Rightarrow> ('s, 'a) prog" where
  "fail e s = (Err e, s)"

definition throw :: "exn \<Rightarrow> ('s, 'a) prog" where
  "throw x s = (Exn x, s)"

definition lift :: "'a outcome \<Rightarrow> ('s, 'a) prog" where
  "lift r s = (r, s)"

definition bnd :: "('s, 'a) prog \<Rightarrow> ('a \<Rightarrow> ('s, 'b) prog) \<Rightarrow> ('s, 'b) prog" where
  "bnd m f s = (case m s of
      (Ok a, s') \<Rightarrow> f a s'
    | (Err e, s') \<Rightarrow> (Err e, s')
    | (Exn x, s') \<Rightarrow> (Exn x, s'))"

text \<open>Catching the exceptions of the JSON library.\<close>

definition catch_data :: "('s, 'a) prog \<Rightarrow> (string \<Rightarrow> ('s, 'a) prog) \<Rightarrow> ('s, 'a) prog" where
  "catch_data m h s = (case m s of
      (Exn (Data_error e), s') \<Rightarrow> h e s'
    | r \<Rightarrow> r)"

text \<open>The outcome of a run as a value, for the results that the code looks at itself.\<close>

definition attempt :: "('s, 'a) prog \<Rightarrow> ('s, 'a outcome) prog" where
  "attempt m s = (case m s of
      (Exn x, s') \<Rightarrow> (Exn x, s')
    | (r, s') \<Rightarrow> (Ok r, s'))"

definition modify :: "('s \<Rightarrow> 's) \<Rightarrow> ('s, unit) prog" where
  "modify g s = (Ok (), g s)"

text \<open>A range-based \<open>for\<close> loop whose body may return early with an error.\<close>

fun for_each :: "('x \<Rightarrow> ('s, unit) prog) \<Rightarrow> 'x list \<Rightarrow> ('s, unit) prog" where
  "for_each f [] = ret ()"
| "for_each f (x # xs) = bnd (f x) (\<lambda>_. for_each f xs)"

lemma bnd_ret [simp]: "bnd (ret a) f = f a"
  by (rule ext) (simp add: bnd_def ret_def)

lemma bnd_fail [simp]: "bnd (fail e) f = fail e"
  by (rule ext) (simp add: bnd_def fail_def)

lemma bnd_throw [simp]: "bnd (throw x) f = throw x"
  by (rule ext) (simp add: bnd_def throw_def)

lemma bnd_assoc: "bnd (bnd m f) g = bnd m (\<lambda>a. bnd (f a) g)"
  by (rule ext) (simp add: bnd_def split: prod.splits outcome.splits)

lemma bnd_modify: "bnd (modify g) f s = f () (g s)"
  by (simp add: bnd_def modify_def)

lemmas [prog_simps] = ret_def fail_def throw_def lift_def bnd_def modify_def

lemma bnd_Ok_iff:
  "bnd m f s = (Ok b, t) \<longleftrightarrow> (\<exists>a s'. m s = (Ok a, s') \<and> f a s' = (Ok b, t))"
  by (auto simp: bnd_def split: prod.splits outcome.splits)

lemma bnd_never_left: "\<not> is_Ok (fst (m s)) \<Longrightarrow> \<not> is_Ok (fst (bnd m f s))"
  by (auto simp: bnd_def split: prod.split outcome.split)

lemma bnd_never_right: "(\<And>a t. \<not> is_Ok (fst (f a t))) \<Longrightarrow> \<not> is_Ok (fst (bnd m f s))"
  by (simp add: bnd_def split: prod.split outcome.split)

lemma bnd_preserves:
  assumes "bnd m f s = (r, t)" and "P s"
    and "\<And>r s'. m s = (r, s') \<Longrightarrow> P s'"
    and "\<And>a s' r t. P s' \<Longrightarrow> f a s' = (r, t) \<Longrightarrow> P t"
  shows "P t"
  using assms by (auto simp: bnd_def split: prod.splits outcome.splits)

lemma for_each_append:
  "for_each f (xs @ ys) = bnd (for_each f xs) (\<lambda>_. for_each f ys)"
  by (induction xs) (simp_all add: bnd_assoc)

lemma for_each_preserves:
  assumes "for_each f xs s = (r, t)" and "P s"
    and "\<And>x s r t. x \<in> set xs \<Longrightarrow> P s \<Longrightarrow> f x s = (r, t) \<Longrightarrow> P t"
  shows "P t"
  using assms
proof (induction xs arbitrary: s r t)
  case Nil
  then show ?case by (simp add: ret_def)
next
  case (Cons x xs)
  have "bnd (f x) (\<lambda>_. for_each f xs) s = (r, t)" using Cons.prems(1) by simp
  then show ?case
    using \<open>P s\<close>
  proof (rule bnd_preserves)
    fix r' s' assume "f x s = (r', s')"
    then show "P s'" using Cons.prems(2) by (auto intro: Cons.prems(3))
  next
    fix a s' r' t' assume P: "P s'" and run: "for_each f xs s' = (r', t')"
    show "P t'"
      by (rule Cons.IH [OF run P]) (auto intro: Cons.prems(3))
  qed
qed

subsection \<open>Character classes of the C locale\<close>

definition is_space :: "char \<Rightarrow> bool" where
  "is_space c \<longleftrightarrow> c \<in> {CHR '' '', CHR 0x09, CHR 0x0A, CHR 0x0B, CHR 0x0C, CHR 0x0D}"

definition is_lower :: "char \<Rightarrow> bool" where
  "is_lower c \<longleftrightarrow> CHR ''a'' \<le> c \<and> c \<le> CHR ''z''"

definition is_digit :: "char \<Rightarrow> bool" where
  "is_digit c \<longleftrightarrow> CHR ''0'' \<le> c \<and> c \<le> CHR ''9''"

definition to_upper :: "char \<Rightarrow> char" where
  "to_upper c = (if is_lower c then char_of (of_char c - 32 :: nat) else c)"

lemmas [str_simps] = is_space_def is_lower_def is_digit_def

lemma lower_not_space: "is_lower c \<Longrightarrow> \<not> is_space c"
  by (auto simp: is_lower_def is_space_def)

lemma digit_not_space: "is_digit c \<Longrightarrow> \<not> is_space c"
  by (auto simp: is_digit_def is_space_def)

subsection \<open>Strings\<close>

text \<open>\<open>boost::split\<close> on one separator character; it always produces at least one token.\<close>

fun split_on :: "char \<Rightarrow> string \<Rightarrow> string list" where
  "split_on c [] = [[]]"
| "split_on c (x # xs) =
     (if x = c then [] # split_on c xs
      else (case split_on c xs of [] \<Rightarrow> [[x]] | t # ts \<Rightarrow> (x # t) # ts))"

fun join :: "string \<Rightarrow> string list \<Rightarrow> string" where
  "join sep [] = []"
| "join sep [t] = t"
| "join sep (t # u # ts) = t @ sep @ join sep (u # ts)"

text \<open>\<open>boost::trim\<close>, \<open>boost::starts_with\<close>, \<open>boost::iequals\<close>, \<open>boost::istarts_with\<close>.\<close>

definition trim_left :: "string \<Rightarrow> string" where
  "trim_left s = dropWhile is_space s"

definition trim :: "string \<Rightarrow> string" where
  "trim s = rev (dropWhile is_space (rev (trim_left s)))"

fun starts_with :: "string \<Rightarrow> string \<Rightarrow> bool" where
  "starts_with s [] = True"
| "starts_with [] (p # ps) = False"
| "starts_with (c # s) (p # ps) = (c = p \<and> starts_with s ps)"

definition iequals :: "string \<Rightarrow> string \<Rightarrow> bool" where
  "iequals s t = (map to_upper s = map to_upper t)"

definition istarts_with :: "string \<Rightarrow> string \<Rightarrow> bool" where
  "istarts_with s p = starts_with (map to_upper s) (map to_upper p)"

text \<open>\<open>std::string::find\<close> of one character and \<open>std::string::substr\<close> to the end, which
  throws \<open>std::out_of_range\<close> past the end.\<close>

fun find_char :: "char \<Rightarrow> string \<Rightarrow> nat option" where
  "find_char c [] = None"
| "find_char c (x # xs) = (if x = c then Some 0 else map_option Suc (find_char c xs))"

definition substr_from :: "nat \<Rightarrow> string \<Rightarrow> string outcome" where
  "substr_from pos s =
     (if length s < pos then Exn (Out_of_range ''basic_string::substr'') else Ok (drop pos s))"

text \<open>A text between single quotes, as the messages show it.\<close>

definition quoted :: "string \<Rightarrow> string" where
  "quoted s = [CHR 0x27] @ s @ [CHR 0x27]"

definition newline :: string where
  "newline = [CHR 10]"

text \<open>C strings end at the first zero byte, so only what is before it survives a conversion.\<close>

definition nul :: char where
  "nul = CHR 0x00"

definition c_str :: "string \<Rightarrow> string" where
  "c_str s = takeWhile (\<lambda>c. c \<noteq> nul) s"

lemma c_str_simps [simp]: "c_str [] = []" "c_str (c # s) = (if c = CHR 0x00 then [] else c # c_str s)"
  by (simp_all add: c_str_def nul_def)

lemma c_str_id: "nul \<notin> set s \<Longrightarrow> c_str s = s"
  by (auto simp: c_str_def takeWhile_eq_all_conv)

lemma c_str_no_nul: "nul \<notin> set (c_str s)"
  unfolding c_str_def by (auto dest: set_takeWhileD)

text \<open>\<open>std::to_string\<close> of an integer.\<close>

fun show_nat :: "nat \<Rightarrow> string" where
  "show_nat n = (if n < 10 then [char_of (48 + n)]
     else show_nat (n div 10) @ [char_of (48 + n mod 10)])"

declare show_nat.simps [simp del]

definition show_int :: "int \<Rightarrow> string" where
  "show_int i = (if i < 0 then ''-'' @ show_nat (nat (- i)) else show_nat (nat i))"

lemma split_on_nonempty [simp]: "split_on c s \<noteq> []"
  by (cases s) (auto split: list.splits)

lemma split_on_no_sep: "t \<in> set (split_on c s) \<Longrightarrow> c \<notin> set t"
  by (induction s arbitrary: t) (auto split: if_splits list.splits)

lemma split_on_self: "c \<notin> set s \<Longrightarrow> split_on c s = [s]"
  by (induction s) auto

lemma split_on_append: "c \<notin> set t \<Longrightarrow> split_on c (t @ c # s) = t # split_on c s"
  by (induction t) auto

lemma split_on_join:
  "ts \<noteq> [] \<Longrightarrow> (\<And>t. t \<in> set ts \<Longrightarrow> c \<notin> set t) \<Longrightarrow> split_on c (join [c] ts) = ts"
  by (induction "[c]" ts rule: join.induct) (auto simp: split_on_self split_on_append)

lemma join_Cons: "ts \<noteq> [] \<Longrightarrow> join sep (t # ts) = t @ sep @ join sep ts"
  by (cases ts) auto

lemma join_split_on: "join [c] (split_on c s) = s"
proof (induction s)
  case (Cons x xs)
  show ?case
  proof (cases "split_on c xs")
    case (Cons t ts)
    with Cons.IH show ?thesis by (cases ts) (auto simp: join_Cons)
  qed simp
qed simp

lemma filter_join:
  "filter P (join sep ts) = join (filter P sep) (map (filter P) ts)"
  by (induction sep ts rule: join.induct) auto

lemma dropWhile_id: "(\<And>x. x \<in> set xs \<Longrightarrow> \<not> P x) \<Longrightarrow> dropWhile P xs = xs"
  by (cases xs) auto

lemma trim_id: "(\<And>x. x \<in> set s \<Longrightarrow> \<not> is_space x) \<Longrightarrow> trim s = s"
  unfolding trim_def trim_left_def by (subst dropWhile_id, simp)+ simp

lemma set_trim: "set (trim s) \<subseteq> set s"
  by (auto simp: trim_def trim_left_def dest!: set_dropWhileD)

lemma trim_idem [simp]: "trim (trim s) = trim s"
proof -
  define u where "u = dropWhile is_space s"
  define w where "w = rev (dropWhile is_space (rev u))"
  have w: "trim s = w" by (simp add: w_def u_def trim_def trim_left_def)
  have u: "u = w @ rev (takeWhile is_space (rev u))"
    by (metis w_def rev_append rev_rev_ident takeWhile_dropWhile_id)
  have "dropWhile is_space w = w"
  proof (cases w)
    case (Cons c v)
    from Cons u have "hd u = c" "u \<noteq> []" by (metis append_Cons list.sel(1), metis append_is_Nil_conv list.distinct(1))
    then have "\<not> is_space c" by (metis hd_dropWhile u_def)
    with Cons show ?thesis by simp
  qed simp
  moreover have "dropWhile is_space (rev w) = rev w" by (simp add: w_def dropWhile_idem)
  ultimately show ?thesis unfolding w by (simp add: trim_def trim_left_def)
qed

lemma trim_space [simp]: "trim (CHR '' '' # s) = trim s"
  by (simp add: trim_def trim_left_def is_space_def)

lemma starts_with_iff: "starts_with s p \<longleftrightarrow> (\<exists>t. s = p @ t)"
  by (induction s p rule: starts_with.induct) auto

lemma starts_with_length: "starts_with s p \<Longrightarrow> length p \<le> length s"
  by (auto simp: starts_with_iff)

lemma starts_with_same_length: "length s = length p \<Longrightarrow> starts_with s p \<longleftrightarrow> s = p"
  by (auto simp: starts_with_iff)

lemma find_Some_member: "find P xs = Some x \<Longrightarrow> x \<in> set xs \<and> P x"
  by (induction xs) (auto split: if_splits)

lemma find_char_None_iff: "find_char c s = None \<longleftrightarrow> c \<notin> set s"
  by (induction s) auto

lemma find_char_SomeD:
  "find_char c s = Some i \<Longrightarrow> i < length s \<and> s ! i = c \<and> c \<notin> set (take i s)"
  by (induction s arbitrary: i) (auto split: if_splits)

lemma find_char_append: "c \<notin> set p \<Longrightarrow> find_char c (p @ c # s) = Some (length p)"
  by (induction p) auto

lemma find_char_split:
  "find_char c s = Some i \<Longrightarrow> s = take i s @ c # drop (Suc i) s"
  by (metis find_char_SomeD id_take_nth_drop)

end
