(* ===== verification/Result.thy ===== *)
theory Result
  imports Prelude
begin

section \<open>libral::result\<close>

text \<open>
  \<open>lib/inc/libral/result.hpp\<close>. A \<open>result<R>\<close> is an \<open>outcome\<close> that is \<open>Ok\<close> or \<open>Err\<close>; the accessors
  throw \<open>std::logic_error\<close> on the wrong variant. The class keeps its value in a union next to a tag;
  the second half of the theory models that storage, where touching the member that
  is not alive is undefined behaviour, and shows that the assignments never do.
\<close>

subsection \<open>Accessors\<close>

fun res_ok :: "'a outcome \<Rightarrow> 'a outcome" where
  "res_ok (Ok a) = Ok a"
| "res_ok (Err e) = Exn (Logic_error (''attempt to get ok value from err: '' @ e))"
| "res_ok (Exn x) = Exn x"

fun res_err :: "'a outcome \<Rightarrow> string outcome" where
  "res_err (Ok a) = Exn (Logic_error ''tried to get error from ok result'')"
| "res_err (Err e) = Ok e"
| "res_err (Exn x) = Exn x"

text \<open>\<open>operator bool\<close> of the generic class, and of the \<open>void\<close> specialisation.\<close>

definition result_bool :: "'a outcome \<Rightarrow> bool" where
  "result_bool r = is_Ok r"

definition void_result_bool :: "unit outcome \<Rightarrow> bool" where
  "void_result_bool r = is_Err r"

lemma res_ok_iff: "res_ok r = Ok a \<longleftrightarrow> r = Ok a"
  by (cases r) auto

lemma res_ok_throws: "is_Err r \<Longrightarrow> \<exists>m. res_ok r = Exn (Logic_error m)"
  by (cases r) auto

subsection \<open>The tagged union\<close>

datatype rtag = Tag_err | Tag_ok

datatype 'r live = Nothing_live | Live_err string | Live_ok 'r

record 'r result_obj =
  ro_tag :: rtag
  ro_live :: "'r live"

definition obj_ok :: "'r result_obj \<Rightarrow> bool" where
  "obj_ok r = (case ro_live r of
      Nothing_live \<Rightarrow> False
    | Live_err e \<Rightarrow> ro_tag r = Tag_err
    | Live_ok a \<Rightarrow> ro_tag r = Tag_ok)"

fun destroy_ok :: "'r live \<Rightarrow> 'r live outcome" where
  "destroy_ok (Live_ok a) = Ok Nothing_live"
| "destroy_ok m = Exn (Undefined ''destroying _ok while it is not alive'')"

fun destroy_err :: "'r live \<Rightarrow> 'r live outcome" where
  "destroy_err (Live_err e) = Ok Nothing_live"
| "destroy_err m = Exn (Undefined ''destroying _err while it is not alive'')"

fun write_ok :: "'r \<Rightarrow> 'r live \<Rightarrow> 'r live outcome" where
  "write_ok a (Live_ok b) = Ok (Live_ok a)"
| "write_ok a m = Exn (Undefined ''assigning to _ok while it is not alive'')"

fun write_err :: "string \<Rightarrow> 'r live \<Rightarrow> 'r live outcome" where
  "write_err e (Live_err d) = Ok (Live_err e)"
| "write_err e m = Exn (Undefined ''assigning to _err while it is not alive'')"

text \<open>\<open>assign(const error&)\<close>, \<open>assign(const R&)\<close>, \<open>assign(const result&)\<close>, and the destructor.\<close>

definition assign_err :: "string \<Rightarrow> 'r result_obj \<Rightarrow> 'r result_obj outcome" where
  "assign_err e r =
     obind (if ro_tag r = Tag_ok
            then obind (destroy_ok (ro_live r)) (\<lambda>_. Ok (Live_err e))
            else write_err e (ro_live r))
       (\<lambda>m. Ok (r\<lparr>ro_live := m, ro_tag := Tag_err\<rparr>))"

definition assign_ok :: "'r \<Rightarrow> 'r result_obj \<Rightarrow> 'r result_obj outcome" where
  "assign_ok a r =
     obind (if ro_tag r = Tag_ok
            then write_ok a (ro_live r)
            else obind (destroy_err (ro_live r)) (\<lambda>_. Ok (Live_ok a)))
       (\<lambda>m. Ok (r\<lparr>ro_live := m, ro_tag := Tag_ok\<rparr>))"

definition assign_result :: "'r result_obj \<Rightarrow> 'r result_obj \<Rightarrow> 'r result_obj outcome" where
  "assign_result other r =
     (if ro_tag other = Tag_ok
      then (case ro_live other of
              Live_ok a \<Rightarrow> assign_ok a r
            | _ \<Rightarrow> Exn (Undefined ''reading _ok while it is not alive''))
      else (case ro_live other of
              Live_err e \<Rightarrow> assign_err e r
            | _ \<Rightarrow> Exn (Undefined ''reading _err while it is not alive'')))"

definition init_result :: "'r result_obj \<Rightarrow> 'r result_obj outcome" where
  "init_result other =
     (if ro_tag other = Tag_ok
      then (case ro_live other of
              Live_ok a \<Rightarrow> Ok \<lparr>ro_tag = Tag_ok, ro_live = Live_ok a\<rparr>
            | _ \<Rightarrow> Exn (Undefined ''reading _ok while it is not alive''))
      else (case ro_live other of
              Live_err e \<Rightarrow> Ok \<lparr>ro_tag = Tag_err, ro_live = Live_err e\<rparr>
            | _ \<Rightarrow> Exn (Undefined ''reading _err while it is not alive'')))"

definition delete_result :: "'r result_obj \<Rightarrow> 'r live outcome" where
  "delete_result r = (if ro_tag r = Tag_ok then destroy_ok (ro_live r) else destroy_err (ro_live r))"

text \<open>What the object denotes.\<close>

definition obj_outcome :: "'r result_obj \<Rightarrow> 'r outcome" where
  "obj_outcome r = (case ro_live r of
      Live_ok a \<Rightarrow> Ok a
    | Live_err e \<Rightarrow> Err e
    | Nothing_live \<Rightarrow> Exn (Undefined ''no live member''))"

datatype 'r assignment = Set_ok 'r | Set_err string | Set_result "'r result_obj"

fun apply_assignment :: "'r assignment \<Rightarrow> 'r result_obj \<Rightarrow> 'r result_obj outcome" where
  "apply_assignment (Set_ok a) r = assign_ok a r"
| "apply_assignment (Set_err e) r = assign_err e r"
| "apply_assignment (Set_result other) r = assign_result other r"

fun assignment_value :: "'r assignment \<Rightarrow> 'r outcome" where
  "assignment_value (Set_ok a) = Ok a"
| "assignment_value (Set_err e) = Err e"
| "assignment_value (Set_result other) = obj_outcome other"

fun assignment_ok :: "'r assignment \<Rightarrow> bool" where
  "assignment_ok (Set_result other) = obj_ok other"
| "assignment_ok _ = True"

fun run_assignments :: "'r assignment list \<Rightarrow> 'r result_obj \<Rightarrow> 'r result_obj outcome" where
  "run_assignments [] r = Ok r"
| "run_assignments (x # xs) r = obind (apply_assignment x r) (run_assignments xs)"

lemma assignment_step:
  assumes "obj_ok r" and "assignment_ok x"
  shows "\<exists>r'. apply_assignment x r = Ok r' \<and> obj_ok r' \<and> obj_outcome r' = assignment_value x"
proof (cases x)
  case (Set_result other)
  with assms show ?thesis
    by (cases "ro_live r"; cases "ro_live other")
      (simp_all add: obj_ok_def assign_ok_def assign_err_def assign_result_def obj_outcome_def)
qed (use assms in \<open>cases "ro_live r";
    simp add: obj_ok_def assign_ok_def assign_err_def obj_outcome_def\<close>)+

lemma run_assignments_ok:
  assumes "obj_ok r" and "list_all assignment_ok xs"
  shows "\<exists>r'. run_assignments xs r = Ok r' \<and> obj_ok r' \<and>
    obj_outcome r' = (if xs = [] then obj_outcome r else assignment_value (last xs))"
  using assms
proof (induction xs arbitrary: r)
  case (Cons x xs)
  then obtain r1 where r1: "apply_assignment x r = Ok r1" "obj_ok r1"
      "obj_outcome r1 = assignment_value x"
    using assignment_step by (metis list.pred_inject(2))
  from Cons.IH [OF r1(2)] Cons.prems(2) r1 show ?case by auto
qed simp

text \<open>C13: a result object in a consistent state survives any sequence of assignments without
  ever touching a dead union member, ends in a consistent state that holds the last value
  assigned, and can then be copied and destroyed safely.\<close>

theorem result_assignments_safe:
  assumes "obj_ok r" and "list_all assignment_ok xs"
  shows "\<exists>r'. run_assignments xs r = Ok r' \<and> obj_ok r' \<and>
      obj_outcome r' = (if xs = [] then obj_outcome r else assignment_value (last xs)) \<and>
      init_result r' = Ok r' \<and> delete_result r' = Ok Nothing_live"
proof -
  obtain r' where r': "run_assignments xs r = Ok r'" "obj_ok r'"
      "obj_outcome r' = (if xs = [] then obj_outcome r else assignment_value (last xs))"
    using run_assignments_ok [OF assms] by blast
  from r'(2) have "init_result r' = Ok r'" "delete_result r' = Ok Nothing_live"
    by (auto simp: obj_ok_def init_result_def delete_result_def split: live.splits)
  with r' show ?thesis by blast
qed

theorem result_assignments_safe_witness:
  "\<exists>r'. run_assignments [Set_err ''no'', Set_ok (3::nat)] \<lparr>ro_tag = Tag_ok, ro_live = Live_ok 1\<rparr> = Ok r' \<and>
     obj_outcome r' = Ok 3"
  using result_assignments_safe [of "\<lparr>ro_tag = Tag_ok, ro_live = Live_ok (1::nat)\<rparr>"
      "[Set_err ''no'', Set_ok 3]"]
  by (auto simp: obj_ok_def)

subsection \<open>Moves\<close>

text \<open>
  Moving a value leaves something in the source that may still be assigned to and destroyed, but whose value is not
  known: \<open>v\<close> stands for what is left of a value and \<open>m\<close> for what is left of a message. The member that is alive in the source
  stays alive.
\<close>

definition assign_err_move :: "(string \<Rightarrow> string) \<Rightarrow> string \<Rightarrow> 'r result_obj \<Rightarrow> ('r result_obj \<times> string) outcome" where
  "assign_err_move m e r =
     obind (if ro_tag r = Tag_ok
            then obind (destroy_ok (ro_live r)) (\<lambda>_. Ok (Live_err e))
            else write_err e (ro_live r))
       (\<lambda>l. Ok (r\<lparr>ro_live := l, ro_tag := Tag_err\<rparr>, m e))"

definition assign_ok_move :: "('r \<Rightarrow> 'r) \<Rightarrow> 'r \<Rightarrow> 'r result_obj \<Rightarrow> ('r result_obj \<times> 'r) outcome" where
  "assign_ok_move v a r =
     obind (if ro_tag r = Tag_ok
            then write_ok a (ro_live r)
            else obind (destroy_err (ro_live r)) (\<lambda>_. Ok (Live_ok a)))
       (\<lambda>l. Ok (r\<lparr>ro_live := l, ro_tag := Tag_ok\<rparr>, v a))"

definition assign_result_move :: "('r \<Rightarrow> 'r) \<Rightarrow> (string \<Rightarrow> string) \<Rightarrow> 'r result_obj \<Rightarrow> 'r result_obj \<Rightarrow>
    ('r result_obj \<times> 'r result_obj) outcome" where
  "assign_result_move v m other r =
     (if ro_tag other = Tag_ok
      then (case ro_live other of
              Live_ok a \<Rightarrow> obind (assign_ok_move v a r) (\<lambda>(r', b). Ok (r', other\<lparr>ro_live := Live_ok b\<rparr>))
            | _ \<Rightarrow> Exn (Undefined ''reading _ok while it is not alive''))
      else (case ro_live other of
              Live_err e \<Rightarrow> obind (assign_err_move m e r) (\<lambda>(r', d). Ok (r', other\<lparr>ro_live := Live_err d\<rparr>))
            | _ \<Rightarrow> Exn (Undefined ''reading _err while it is not alive'')))"

definition init_move :: "('r \<Rightarrow> 'r) \<Rightarrow> (string \<Rightarrow> string) \<Rightarrow> 'r result_obj \<Rightarrow> ('r result_obj \<times> 'r result_obj) outcome" where
  "init_move v m other =
     (if ro_tag other = Tag_ok
      then (case ro_live other of
              Live_ok a \<Rightarrow> Ok (\<lparr>ro_tag = Tag_ok, ro_live = Live_ok a\<rparr>, other\<lparr>ro_live := Live_ok (v a)\<rparr>)
            | _ \<Rightarrow> Exn (Undefined ''reading _ok while it is not alive''))
      else (case ro_live other of
              Live_err e \<Rightarrow> Ok (\<lparr>ro_tag = Tag_err, ro_live = Live_err e\<rparr>, other\<lparr>ro_live := Live_err (m e)\<rparr>)
            | _ \<Rightarrow> Exn (Undefined ''reading _err while it is not alive'')))"

text \<open>A move gives what a copy gives, and leaves a source that can be destroyed or assigned to.\<close>

lemma moves_like_copies:
  assumes "obj_ok other" and "obj_ok r"
  shows "\<exists>other'. init_move v m other = Ok (other, other') \<and> obj_ok other'"
    and "\<exists>r' other'. assign_result_move v m other r = Ok (r', other') \<and> assign_result other r = Ok r' \<and> obj_ok r' \<and> obj_ok other'"
  using assms
  by (cases "ro_live other"; cases "ro_live r"; simp add: obj_ok_def init_move_def assign_result_move_def assign_result_def
      assign_ok_move_def assign_err_move_def assign_ok_def assign_err_def)+

subsection \<open>The specialisation for void\<close>

text \<open>It keeps an optional error.\<close>

definition void_is_ok :: "string option \<Rightarrow> bool" where
  "void_is_ok r \<longleftrightarrow> r = None"

definition void_is_err :: "string option \<Rightarrow> bool" where
  "void_is_err r \<longleftrightarrow> r \<noteq> None"

definition void_err :: "string option \<Rightarrow> string outcome" where
  "void_err r = (if void_is_err r then Ok (the r) else Exn (Logic_error ''tried to get error from ok result''))"

text \<open>As the outcome it denotes, its accessors are those of the generic class.\<close>

definition void_outcome :: "string option \<Rightarrow> unit outcome" where
  "void_outcome r = (case r of None \<Rightarrow> Ok () | Some e \<Rightarrow> Err e)"

lemma void_like_result:
  "void_is_ok r = is_Ok (void_outcome r)" "void_is_err r = is_Err (void_outcome r)" "void_err r = res_err (void_outcome r)"
  by (cases r; simp add: void_is_ok_def void_is_err_def void_err_def void_outcome_def)+

text \<open>The boolean conversion of the \<open>void\<close> specialisation is the opposite of the generic
  one: it is true exactly for errors, so testing a \<open>result<void>\<close> like any other result
  takes failure for success.\<close>

theorem void_result_bool_inverted:
  "void_result_bool (Err e) \<and> \<not> void_result_bool (Ok ()) \<and>
   \<not> result_bool (Err e :: 'a outcome) \<and> result_bool (Ok (a :: 'a))"
  by (simp add: void_result_bool_def result_bool_def)

end
