(* ===== verification/Value.thy ===== *)
theory Value
  imports Result
begin

section \<open>Attribute values\<close>

text \<open>
  \<open>lib/inc/libral/value.hpp\<close>, \<open>lib/src/value.cc\<close>: the variant of none, boolean, string and
  string array (\<open>value_base\<close> in the code, to which \<open>value\<close> adds only functions), its accessors, its two textual forms (\<open>to_string\<close> and the stream
  operator, which quotes strings) and the visitor that compares two values.
\<close>

datatype value_base = VNone | VBool bool | VStr string | VArr "string list"

fun as_bool :: "value_base \<Rightarrow> bool option" where
  "as_bool (VBool b) = Some b"
| "as_bool _ = None"

fun as_string :: "value_base \<Rightarrow> string option" where
  "as_string (VStr s) = Some s"
| "as_string _ = None"

fun as_array :: "value_base \<Rightarrow> string list option" where
  "as_array (VArr a) = Some a"
| "as_array _ = None"

definition require :: "(value_base \<Rightarrow> 'a option) \<Rightarrow> value_base \<Rightarrow> 'a outcome" where
  "require as v = (case as v of
      None \<Rightarrow> Exn (Runtime_error ''invalid cast requested.'')
    | Some a \<Rightarrow> Ok a)"

fun is_present :: "value_base \<Rightarrow> bool" where
  "is_present VNone = False"
| "is_present _ = True"

text \<open>The element loop shared by both textual forms of an array.\<close>

fun quote_elements :: "bool \<Rightarrow> string list \<Rightarrow> string" where
  "quote_elements first [] = []"
| "quote_elements first (s # ss) =
     (if first then [] else '', '') @ [CHR 0x27] @ s @ [CHR 0x27] @ quote_elements False ss"

fun to_string :: "value_base \<Rightarrow> string" where
  "to_string VNone = ''(none)''"
| "to_string (VBool b) = (if b then ''true'' else ''false'')"
| "to_string (VStr s) = s"
| "to_string (VArr a) = ''['' @ quote_elements True a @ '']''"

fun to_quoted_string :: "value_base \<Rightarrow> string" where
  "to_quoted_string VNone = ''(none)''"
| "to_quoted_string (VBool b) = (if b then ''true'' else ''false'')"
| "to_quoted_string (VStr s) = [CHR 0x27] @ s @ [CHR 0x27]"
| "to_quoted_string (VArr a) = ''['' @ quote_elements True a @ '']''"

fun value_eq :: "value_base \<Rightarrow> value_base \<Rightarrow> bool" where
  "value_eq VNone VNone = True"
| "value_eq (VBool a) (VBool b) = (a = b)"
| "value_eq (VStr a) (VStr b) = (a = b)"
| "value_eq (VArr a) (VArr b) = (a = b)"
| "value_eq _ _ = False"

definition value_neq :: "value_base \<Rightarrow> value_base \<Rightarrow> bool" where
  "value_neq a b = (\<not> value_eq a b)"

lemma value_eq_iff [simp]: "value_eq a b \<longleftrightarrow> a = b"
  by (cases a; cases b) auto

lemma value_neq_iff [simp]: "value_neq a b \<longleftrightarrow> a \<noteq> b"
  by (simp add: value_neq_def)

lemma is_present_iff [simp]: "is_present v \<longleftrightarrow> v \<noteq> VNone"
  by (cases v) auto

lemma as_string_Some [simp]: "as_string v = Some s \<longleftrightarrow> v = VStr s"
  by (cases v) auto

lemma as_bool_Some [simp]: "as_bool v = Some b \<longleftrightarrow> v = VBool b"
  by (cases v) auto

lemma as_array_Some [simp]: "as_array v = Some a \<longleftrightarrow> v = VArr a"
  by (cases v) auto

lemma quote_elements_False:
  "ss \<noteq> [] \<Longrightarrow> quote_elements False ss = '', '' @ quote_elements True ss"
  by (cases ss) auto

lemma quote_elements_join:
  "quote_elements True ss = join '', '' (map (\<lambda>s. [CHR 0x27] @ s @ [CHR 0x27]) ss)"
proof (induction ss)
  case (Cons s ss)
  then show ?case by (cases ss) auto
qed simp

text \<open>Distinct arrays can print alike: the element separator is not escaped.\<close>

lemma to_string_array_collision:
  "to_string (VArr [''a'', ''b'']) = to_string (VArr [''a'' @ [CHR 0x27] @ '', '' @ [CHR 0x27] @ ''b''])"
  by simp

text \<open>Values are ordered by variant, then by content, so the library's sorting applies to them.\<close>

fun value_rank :: "value_base \<Rightarrow> nat \<times> string list" where
  "value_rank VNone = (0, [])"
| "value_rank (VBool b) = (1, if b then [[]] else [])"
| "value_rank (VStr s) = (2, [s])"
| "value_rank (VArr a) = (3, a)"

lemma value_rank_inj: "value_rank a = value_rank b \<Longrightarrow> a = b"
  by (cases a; cases b) (auto split: if_splits)

instantiation value_base :: linorder
begin

definition less_eq_value_base :: "value_base \<Rightarrow> value_base \<Rightarrow> bool" where
  "less_eq_value_base a b \<longleftrightarrow> fst (value_rank a) < fst (value_rank b) \<or>
     (fst (value_rank a) = fst (value_rank b) \<and> snd (value_rank a) \<le> snd (value_rank b))"

definition less_value_base :: "value_base \<Rightarrow> value_base \<Rightarrow> bool" where
  "less_value_base a b \<longleftrightarrow> a \<le> b \<and> \<not> b \<le> (a :: value_base)"

instance
proof
  fix a b c :: "value_base"
  show "a < b \<longleftrightarrow> a \<le> b \<and> \<not> b \<le> a" by (rule less_value_base_def)
  show "a \<le> a" by (simp add: less_eq_value_base_def)
  show "a \<le> b \<Longrightarrow> b \<le> c \<Longrightarrow> a \<le> c" by (auto simp: less_eq_value_base_def)
  show "a \<le> b \<Longrightarrow> b \<le> a \<Longrightarrow> a = b"
    by (auto simp: less_eq_value_base_def intro!: value_rank_inj prod_eqI)
  show "a \<le> b \<or> b \<le> a" by (auto simp: less_eq_value_base_def)
qed

end

end
