(* ===== verification/AttrSpec.thy ===== *)
theory AttrSpec
  imports Value
begin

section \<open>Attribute specifications\<close>

text \<open>
  \<open>lib/inc/libral/attr/spec.hpp\<close>, \<open>lib/src/attr/spec.cc\<close>: kinds, the four data types, reading a
  string as a value of a type, printing types and kinds, and \<open>spec::create\<close>, which parses the
  textual type and kind of the provider metadata. The four readers share a contract (what
  they accept is exactly the canonical text of the values of their type, up to normalisation),
  stated as the locale \<open>attr_reader\<close> and discharged for each of them.
\<close>

subsection \<open>Kinds and data types\<close>

datatype kind = Kind_r | Kind_w | Kind_rw

definition kind_create :: "string \<Rightarrow> kind outcome" where
  "kind_create tag_str =
     (if tag_str = ''r'' then Ok Kind_r
      else if tag_str = ''w'' then Ok Kind_w
      else if tag_str = ''rw'' then Ok Kind_rw
      else Err (''unknown kind '' @ tag_str))"

fun show_kind :: "kind \<Rightarrow> string" where
  "show_kind Kind_r = ''r''"
| "show_kind Kind_w = ''w''"
| "show_kind Kind_rw = ''rw''"

datatype data_type = String_type | Boolean_type | Array_type | Enum_type "string list"

fun show_data_type :: "data_type \<Rightarrow> string" where
  "show_data_type String_type = ''string''"
| "show_data_type Boolean_type = ''boolean''"
| "show_data_type Array_type = ''array[string]''"
| "show_data_type (Enum_type options) = ''enum['' @ join '', '' options @ '']''"

record attr_spec =
  as_name :: string
  as_desc :: string
  as_data_type :: data_type
  as_kind :: kind

subsection \<open>Reading values\<close>

definition read_string_type :: "string \<Rightarrow> value_base outcome" where
  "read_string_type s = Ok (VStr s)"

definition read_boolean_type :: "string \<Rightarrow> value_base outcome" where
  "read_boolean_type s =
     (let t = iequals s ''true''; f = iequals s ''false'' in
      if \<not> t \<and> \<not> f then Err (''invalid boolean: must be either '' @ quoted ''true'' @ '' or '' @ quoted ''false'')
      else Ok (VBool t))"

fun trim_elements :: "string \<Rightarrow> string list \<Rightarrow> string list outcome" where
  "trim_elements s [] = Ok []"
| "trim_elements s (elt # ary) =
     (if trim elt = [] then Err (''bad array: entries in '' @ quoted s @ '' can not be blank'')
      else obind (trim_elements s ary) (\<lambda>r. Ok (trim elt # r)))"

definition read_array_type :: "string \<Rightarrow> value_base outcome" where
  "read_array_type s =
     (if s \<noteq> [] then obind (trim_elements s (split_on (CHR '','') s)) (\<lambda>ary. Ok (VArr ary))
      else Ok (VArr []))"

definition read_enum_type :: "string list \<Rightarrow> string \<Rightarrow> value_base outcome" where
  "read_enum_type options s =
     (if s \<in> set options then Ok (VStr s)
      else Err (''value '' @ quoted s @ '' is not a legal value for this enum''))"

fun read_data_type :: "data_type \<Rightarrow> string \<Rightarrow> value_base outcome" where
  "read_data_type String_type s = read_string_type s"
| "read_data_type Boolean_type s = read_boolean_type s"
| "read_data_type Array_type s = read_array_type s"
| "read_data_type (Enum_type options) s = read_enum_type options s"

definition spec_read_string :: "attr_spec \<Rightarrow> string \<Rightarrow> value_base outcome" where
  "spec_read_string sp s = read_data_type (as_data_type sp) s"

subsection \<open>Creating a specification\<close>

definition legal_option_char :: "char \<Rightarrow> bool" where
  "legal_option_char c \<longleftrightarrow> \<not> (\<not> is_lower c \<and> \<not> is_digit c)"

fun check_options :: "string list \<Rightarrow> string list outcome" where
  "check_options [] = Ok []"
| "check_options (opt # opts) =
     (let o' = trim opt in
      if o' = [] then Err ''bad enum type: one option is the empty string''
      else if \<not> list_all legal_option_char o'
      then Err (''bad option '' @ quoted o' @ '' in enum type: options must be lower case characters or digits'')
      else obind (check_options opts) (\<lambda>r. Ok (o' # r)))"

text \<open>
  The brackets of an enum: the source looks for the opening bracket, then for the closing one
  after it. Without an opening bracket its iterators run past the end of the string; the
  libstdc++ search then reports the end, which is the error modelled here.
\<close>

definition enum_body :: "string \<Rightarrow> string option" where
  "enum_body ts = (case find_char (CHR ''['') ts of
      None \<Rightarrow> None
    | Some i \<Rightarrow> (let rest = drop (Suc i) ts in
        if rest = [] then None
        else case find_char (CHR '']'') rest of
               None \<Rightarrow> None
             | Some j \<Rightarrow> Some (take j rest)))"

definition spec_create :: "string \<Rightarrow> string \<Rightarrow> string \<Rightarrow> string \<Rightarrow> attr_spec outcome" where
  "spec_create name desc type_str kind_str =
     obind (kind_create kind_str) (\<lambda>kind.
       let ts = filter (\<lambda>x. \<not> is_space x) type_str;
           mk = (\<lambda>dt. Ok \<lparr>as_name = name, as_desc = desc, as_data_type = dt, as_kind = kind\<rparr>)
       in if ts = ''boolean'' then mk Boolean_type
          else if ts = ''string'' then mk String_type
          else if ts = ''array[string]'' then mk Array_type
          else if starts_with ts ''enum'' then
            (case enum_body ts of
               None \<Rightarrow> Err (''bad enum type: must be '' @ quoted ''enum[<option> (,<option>)*]'' @ '' but is '' @ type_str)
             | Some options_str \<Rightarrow>
                 (let options = split_on (CHR '','') options_str in
                  if options = [] then Err (''bad enum type: must be '' @ quoted ''enum[<option> (,<option>)*]'' @ '' but '' @ type_str @ '' lists no options'')
                  else obind (check_options options) (\<lambda>opts. mk (Enum_type opts))))
          else Err (''unknown type '' @ quoted type_str))"

subsection \<open>The values of a type and their canonical text\<close>

definition plain_element :: "string \<Rightarrow> bool" where
  "plain_element x \<longleftrightarrow> x \<noteq> [] \<and> CHR '','' \<notin> set x \<and> trim x = x"

fun has_type :: "data_type \<Rightarrow> value_base \<Rightarrow> bool" where
  "has_type String_type v = (\<exists>s. v = VStr s)"
| "has_type Boolean_type v = (\<exists>b. v = VBool b)"
| "has_type Array_type v = (\<exists>a. v = VArr a \<and> list_all plain_element a)"
| "has_type (Enum_type options) v = (\<exists>s \<in> set options. v = VStr s)"

fun canonical :: "value_base \<Rightarrow> string" where
  "canonical VNone = []"
| "canonical (VBool b) = (if b then ''true'' else ''false'')"
| "canonical (VStr s) = s"
| "canonical (VArr a) = join '','' a"

lemma trim_elements_Ok:
  "trim_elements s ary = Ok r \<longleftrightarrow> r = map trim ary \<and> (\<forall>x \<in> set ary. trim x \<noteq> [])"
  by (induction ary arbitrary: r) (auto simp: obind_Ok_iff)

lemma trim_elements_no_exn: "trim_elements s ary \<noteq> Exn x"
  by (induction ary) (auto simp: obind_Exn_iff)

lemma read_array_sound: "read_array_type s = Ok v \<Longrightarrow> has_type Array_type v"
  using set_trim
  by (fastforce simp: read_array_type_def obind_Ok_iff trim_elements_Ok list_all_iff
      plain_element_def dest: split_on_no_sep split: if_splits)

lemma read_array_canonical:
  assumes "list_all plain_element a" shows "read_array_type (join '','' a) = Ok (VArr a)"
proof (cases "a = []")
  case False
  then have "join '','' a \<noteq> []"
    using assms by (cases a) (auto simp: plain_element_def elim: join.elims)
  moreover have "split_on (CHR '','') (join '','' a) = a"
    using False assms by (intro split_on_join) (auto simp: list_all_iff plain_element_def)
  moreover have "trim_elements (join '','' a) a = Ok a"
    using assms by (auto simp: trim_elements_Ok list_all_iff plain_element_def map_idI)
  ultimately show ?thesis by (simp add: read_array_type_def)
qed (simp add: read_array_type_def)

subsection \<open>The contract of a reader\<close>

locale attr_reader =
  fixes read :: "string \<Rightarrow> value_base outcome"
    and member :: "value_base \<Rightarrow> bool"
  assumes read_member: "read s = Ok v \<Longrightarrow> member v"
    and read_canonical: "member v \<Longrightarrow> read (canonical v) = Ok v"
    and read_no_exn: "read s \<noteq> Exn x"
begin

lemma read_range: "(\<exists>s. read s = Ok v) \<longleftrightarrow> member v"
  using read_member read_canonical by blast

lemma read_normalises: "read s = Ok v \<Longrightarrow> read (canonical v) = Ok v"
  by (blast intro: read_member read_canonical)

lemma canonical_inj: "member v \<Longrightarrow> member w \<Longrightarrow> canonical v = canonical w \<Longrightarrow> v = w"
  by (metis outcome.inject(1) read_canonical)

lemma read_cases: "(\<exists>v. read s = Ok v \<and> member v) \<or> (\<exists>e. read s = Err e)"
  by (cases "read s") (auto simp: read_no_exn dest: read_member)

end

interpretation string_reader: attr_reader read_string_type "has_type String_type"
  by unfold_locales (auto simp: read_string_type_def)

interpretation boolean_reader: attr_reader read_boolean_type "has_type Boolean_type"
  by unfold_locales (auto simp: read_boolean_type_def iequals_def to_upper_def is_lower_def Let_def split: if_splits)

lemma read_array_no_exn: "read_array_type s \<noteq> Exn x"
  by (simp add: read_array_type_def obind_Exn_iff trim_elements_no_exn)

interpretation array_reader: attr_reader read_array_type "has_type Array_type"
  by unfold_locales (rule read_array_sound, assumption,
    use read_array_canonical read_array_no_exn in auto)

interpretation enum_reader: attr_reader "read_enum_type options" "has_type (Enum_type options)" for options
  by unfold_locales (auto simp: read_enum_type_def split: if_splits)

lemma read_data_type_fun:
  "read_data_type String_type = read_string_type"
  "read_data_type Boolean_type = read_boolean_type"
  "read_data_type Array_type = read_array_type"
  "read_data_type (Enum_type options) = read_enum_type options"
  by (simp_all add: fun_eq_iff)

lemma attr_reader_all: "attr_reader (read_data_type dt) (has_type dt)"
proof (cases dt)
  case String_type
  then show ?thesis using string_reader.attr_reader_axioms by (simp only: read_data_type_fun)
next
  case Boolean_type
  then show ?thesis using boolean_reader.attr_reader_axioms by (simp only: read_data_type_fun)
next
  case Array_type
  then show ?thesis using array_reader.attr_reader_axioms by (simp only: read_data_type_fun)
next
  case (Enum_type opts)
  then show ?thesis using enum_reader.attr_reader_axioms [of opts] by (simp only: read_data_type_fun)
qed

interpretation type_reader: attr_reader "spec_read_string sp" "has_type (as_data_type sp)" for sp
  using attr_reader_all [of "as_data_type sp"] by (simp add: spec_read_string_def [abs_def])



subsection \<open>Parsing and printing specifications\<close>

definition legal_option :: "string \<Rightarrow> bool" where
  "legal_option opt \<longleftrightarrow> opt \<noteq> [] \<and> list_all legal_option_char opt"

fun wf_data_type :: "data_type \<Rightarrow> bool" where
  "wf_data_type (Enum_type options) = (options \<noteq> [] \<and> list_all legal_option options)"
| "wf_data_type _ = True"

lemma legal_option_char_plain:
  "legal_option_char c \<Longrightarrow> \<not> is_space c \<and> c \<notin> {CHR '','', CHR ''['', CHR '']''}"
  by (auto simp: legal_option_char_def is_lower_def is_digit_def is_space_def)

lemma legal_option_trim: "legal_option opt \<Longrightarrow> trim opt = opt"
  by (rule trim_id) (auto simp: legal_option_def list_all_iff dest: legal_option_char_plain)

lemma check_options_Ok:
  "check_options os = Ok r \<longleftrightarrow> r = map trim os \<and> list_all legal_option (map trim os)"
  by (induction os arbitrary: r) (auto simp: Let_def legal_option_def obind_Ok_iff)

lemma check_options_no_exn: "check_options os \<noteq> Exn x"
  by (induction os) (auto simp: Let_def obind_Exn_iff)

lemma set_join: "set (join sep ts) \<subseteq> set sep \<union> (\<Union>t \<in> set ts. set t)"
  by (induction sep ts rule: join.induct) auto

lemma filter_legal_option: "legal_option opt \<Longrightarrow> filter (\<lambda>x. \<not> is_space x) opt = opt"
  by (rule filter_True) (auto simp: legal_option_def list_all_iff dest: legal_option_char_plain)

lemma strip_show_enum:
  assumes "list_all legal_option os"
  shows "filter (\<lambda>x. \<not> is_space x) (show_data_type (Enum_type os)) = ''enum['' @ join '','' os @ '']''"
proof -
  have "map (filter (\<lambda>x. \<not> is_space x)) os = os"
    using assms by (intro map_idI) (auto simp: list_all_iff filter_legal_option)
  then show ?thesis by (simp add: filter_join str_simps)
qed

lemma enum_body_show:
  assumes "list_all legal_option os"
  shows "enum_body (''enum['' @ join '','' os @ '']'') = Some (join '','' os)"
proof -
  have "CHR '']'' \<notin> set (join '','' os)"
    using set_join [of "'',''" os] assms
    by (auto simp: list_all_iff legal_option_def dest!: legal_option_char_plain subsetD)
  then have "find_char (CHR '']'') (join '','' os @ '']'') = Some (length (join '','' os))"
    by (rule find_char_append)
  then show ?thesis by (simp add: enum_body_def)
qed

lemma split_options:
  assumes "list_all legal_option os" and "os \<noteq> []"
  shows "split_on (CHR '','') (join '','' os) = os"
  using assms by (intro split_on_join)
    (auto simp: list_all_iff legal_option_def dest!: legal_option_char_plain)

lemma kind_create_show: "kind_create (show_kind k) = Ok k"
  by (cases k) (simp_all add: kind_create_def)

lemma spec_create_show:
  assumes "wf_data_type dt"
  shows "spec_create n d (show_data_type dt) (show_kind k) =
    Ok \<lparr>as_name = n, as_desc = d, as_data_type = dt, as_kind = k\<rparr>"
proof (cases dt)
  case (Enum_type os)
  with assms have os: "os \<noteq> []" "list_all legal_option os" by auto
  have "check_options os = Ok os"
    using os by (auto simp: check_options_Ok list_all_iff legal_option_trim map_idI)
  with os enum_body_show [OF os(2)] show ?thesis
    unfolding spec_create_def Enum_type strip_show_enum [OF os(2)] Let_def
    by (simp add: kind_create_show split_options del: show_data_type.simps)
qed (simp_all add: spec_create_def kind_create_show Let_def str_simps)

lemma spec_create_wf:
  "spec_create n d t k = Ok sp \<Longrightarrow>
    as_name sp = n \<and> as_desc sp = d \<and> wf_data_type (as_data_type sp) \<and> kind_create k = Ok (as_kind sp)"
  by (auto simp: spec_create_def Let_def obind_Ok_iff check_options_Ok
      split: if_splits option.splits)

lemma spec_create_no_exn: "spec_create n d t k \<noteq> Exn x"
  by (auto simp: spec_create_def Let_def obind_Exn_iff check_options_no_exn kind_create_def
      split: option.splits)

text \<open>C24: parsing the textual type and kind of an attribute and printing them again is
  a round trip: every specification that \<open>create\<close> accepts is well formed, keeps the name and
  the description, and is recreated unchanged from its printed type and kind; and every
  well-formed type and kind can be written down that way.\<close>

theorem spec_create_roundtrip:
  "(spec_create n d t k = Ok sp \<longrightarrow>
      as_name sp = n \<and> as_desc sp = d \<and> wf_data_type (as_data_type sp) \<and>
      spec_create n d (show_data_type (as_data_type sp)) (show_kind (as_kind sp)) = Ok sp) \<and>
   (wf_data_type dt \<longrightarrow> spec_create n d (show_data_type dt) (show_kind kd) =
      Ok \<lparr>as_name = n, as_desc = d, as_data_type = dt, as_kind = kd\<rparr>) \<and>
   spec_create n d t k \<noteq> Exn x"
  using spec_create_wf [of n d t k sp] spec_create_show [of "as_data_type sp" n d "as_kind sp"]
    spec_create_show [of dt n d kd] spec_create_no_exn [of n d t k x]
  by auto

theorem spec_create_roundtrip_witness:
  "spec_create ''ensure'' [] ''enum[present, absent]'' ''rw'' =
     Ok \<lparr>as_name = ''ensure'', as_desc = [], as_data_type = Enum_type [''present'', ''absent''], as_kind = Kind_rw\<rparr>"
proof -
  have "spec_create ''ensure'' [] ''enum [ present,absent ]'' ''rw'' =
     Ok \<lparr>as_name = ''ensure'', as_desc = [], as_data_type = Enum_type [''present'', ''absent''], as_kind = Kind_rw\<rparr>"
    by code_simp
  with spec_create_roundtrip [where n = "''ensure''" and d = "[]" and t = "''enum [ present,absent ]''"
      and k = "''rw''" and sp = "\<lparr>as_name = ''ensure'', as_desc = [],
        as_data_type = Enum_type [''present'', ''absent''], as_kind = Kind_rw\<rparr>"]
  show ?thesis by simp
qed

text \<open>An enum accepts only legal option lists: if \<open>create\<close> succeeds on an enum type, every
  option is non-empty and made of lower case letters and digits, and reading a string
  succeeds exactly for the listed options.\<close>

theorem enum_options_legal:
  assumes "spec_create n d t k = Ok sp" and "as_data_type sp = Enum_type options"
  shows "options \<noteq> [] \<and> (\<forall>o' \<in> set options. o' \<noteq> [] \<and> (\<forall>c \<in> set o'. is_lower c \<or> is_digit c)) \<and>
    (is_Ok (spec_read_string sp s) = (s \<in> set options))"
  using spec_create_wf [OF assms(1)] assms(2)
  by (auto simp: list_all_iff legal_option_def legal_option_char_def spec_read_string_def read_enum_type_def)

theorem enum_options_legal_witness:
  "is_Ok (spec_read_string \<lparr>as_name = ''ensure'', as_desc = [],
      as_data_type = Enum_type [''present'', ''absent''], as_kind = Kind_rw\<rparr> ''absent'')"
proof -
  have "spec_create ''ensure'' [] ''enum[present,absent]'' ''rw'' =
     Ok \<lparr>as_name = ''ensure'', as_desc = [], as_data_type = Enum_type [''present'', ''absent''], as_kind = Kind_rw\<rparr>"
    by code_simp
  from enum_options_legal [OF this, of _ "''absent''"] show ?thesis by simp
qed

end
