(* ===== verification/Omap.thy ===== *)
theory Omap
  imports Prelude
begin

section \<open>Ordered maps\<close>

text \<open>
  \<open>std::map\<close> as the code uses it: \<open>find\<close>, \<open>operator[]\<close> as an assignment, \<open>insert\<close> and
  \<open>emplace\<close> (which keep an existing entry), \<open>erase\<close>, and iteration in key order. The model is an
  association list in strictly increasing key order, so iteration is the list itself; \<open>map_of\<close>
  is the abstraction to partial maps.
\<close>

type_synonym ('k, 'v) omap = "('k \<times> 'v) list"

definition omap_ok :: "('k::linorder, 'v) omap \<Rightarrow> bool" where
  "omap_ok m \<longleftrightarrow> sorted_wrt (<) (map fst m)"

abbreviation omap_find :: "('k, 'v) omap \<Rightarrow> 'k \<Rightarrow> 'v option" where
  "omap_find m k \<equiv> map_of m k"

fun omap_put :: "'k::linorder \<Rightarrow> 'v \<Rightarrow> ('k, 'v) omap \<Rightarrow> ('k, 'v) omap" where
  "omap_put k v [] = [(k, v)]"
| "omap_put k v ((k', v') # m) =
     (if k < k' then (k, v) # (k', v') # m
      else if k = k' then (k, v) # m
      else (k', v') # omap_put k v m)"

definition omap_emplace :: "'k::linorder \<Rightarrow> 'v \<Rightarrow> ('k, 'v) omap \<Rightarrow> ('k, 'v) omap" where
  "omap_emplace k v m = (case omap_find m k of None \<Rightarrow> omap_put k v m | Some _ \<Rightarrow> m)"

fun omap_insert_all :: "('k::linorder \<times> 'v) list \<Rightarrow> ('k, 'v) omap \<Rightarrow> ('k, 'v) omap" where
  "omap_insert_all [] m = m"
| "omap_insert_all ((k, v) # kvs) m = omap_insert_all kvs (omap_emplace k v m)"

definition omap_erase :: "'k \<Rightarrow> ('k, 'v) omap \<Rightarrow> ('k, 'v) omap" where
  "omap_erase k m = filter (\<lambda>(k', v). k' \<noteq> k) m"

lemma omap_ok_Nil [simp]: "omap_ok []"
  by (simp add: omap_ok_def)

lemma omap_ok_Cons: "omap_ok ((k, v) # m) \<longleftrightarrow> (\<forall>k' \<in> fst ` set m. k < k') \<and> omap_ok m"
  by (auto simp: omap_ok_def)

lemma omap_ok_distinct: "omap_ok m \<Longrightarrow> distinct (map fst m)"
  by (simp add: omap_ok_def strict_sorted_iff)

lemma omap_find_put [simp]: "omap_find (omap_put k v m) = (omap_find m)(k \<mapsto> v)"
  by (induction k v m rule: omap_put.induct) (auto simp: fun_eq_iff)

lemma keys_omap_put: "fst ` set (omap_put k v m) = insert k (fst ` set m)"
  by (induction k v m rule: omap_put.induct) auto

lemma omap_ok_put [simp]: "omap_ok m \<Longrightarrow> omap_ok (omap_put k v m)"
  by (induction k v m rule: omap_put.induct) (auto simp: omap_ok_Cons keys_omap_put)

lemma omap_find_emplace:
  "omap_find (omap_emplace k v m) = (omap_find m)(k := Some (case omap_find m k of None \<Rightarrow> v | Some w \<Rightarrow> w))"
  by (auto simp: omap_emplace_def fun_eq_iff split: option.splits)

lemma dom_omap_emplace: "dom (omap_find (omap_emplace k v m)) = insert k (dom (omap_find m))"
  by (auto simp: omap_find_emplace split: if_splits)

lemma omap_ok_emplace [simp]: "omap_ok m \<Longrightarrow> omap_ok (omap_emplace k v m)"
  by (auto simp: omap_emplace_def split: option.splits)

text \<open>A range \<open>insert\<close> keeps what is there and adds the first entry of each new key.\<close>

lemma omap_find_insert_all:
  "omap_find (omap_insert_all kvs m) k = (case omap_find m k of Some v \<Rightarrow> Some v | None \<Rightarrow> omap_find kvs k)"
  by (induction kvs m rule: omap_insert_all.induct) (auto simp: omap_find_emplace split: option.splits)

lemma omap_ok_insert_all [simp]: "omap_ok m \<Longrightarrow> omap_ok (omap_insert_all kvs m)"
  by (induction kvs m rule: omap_insert_all.induct) auto

lemma omap_find_erase: "omap_find (omap_erase k m) = (omap_find m)(k := None)"
  by (induction m) (auto simp: omap_erase_def fun_eq_iff)

lemma omap_ok_erase [simp]: "omap_ok m \<Longrightarrow> omap_ok (omap_erase k m)"
  by (induction m) (auto simp: omap_erase_def omap_ok_Cons)

text \<open>Two ordered maps with the same entries are the same list: iteration order is canonical.\<close>

lemma omap_eqI:
  assumes "omap_ok m" and "omap_ok n" and "omap_find m = omap_find n"
  shows "m = n"
proof -
  have keys: "set (map fst m) = set (map fst n)"
    using assms(3) by (metis dom_map_of_conv_image_fst list.set_map)
  have eq: "map fst m = map fst n"
    using assms(1,2) keys by (auto simp: omap_ok_def intro: strict_sorted_equal)
  have shape: "x = map (\<lambda>k. (k, the (omap_find x k))) (map fst x)" if "omap_ok x" for x :: "('a, 'b) omap"
    using omap_ok_distinct [OF that] by (auto intro!: map_idI [symmetric] simp: comp_def)
  from shape [OF assms(1)] shape [OF assms(2)] eq assms(3) show ?thesis by metis
qed

text \<open>Writing the entries of an ordered map in order rebuilds it.\<close>

lemma omap_put_last: "(\<And>k'. k' \<in> fst ` set m \<Longrightarrow> k' < k) \<Longrightarrow> omap_put k v m = m @ [(k, v)]"
  by (induction k v m rule: omap_put.induct) (auto dest: less_asym)

lemma fold_omap_put: "omap_ok m \<Longrightarrow> fold (\<lambda>(k, v). omap_put k v) m [] = m"
proof (induction m rule: rev_induct)
  case (snoc kv m)
  then show ?case
    by (cases kv) (auto simp: omap_ok_def sorted_wrt_append intro!: omap_put_last)
qed simp

subsection \<open>The store interface\<close>

text \<open>
  Resources, the change table of a context and the attribute table of a provider spec are all
  keyed stores: reading after a write gives what was written, other keys keep their
  value, and writing keeps the store well formed.
\<close>

locale keyed_store =
  fixes inv :: "'m \<Rightarrow> bool"
    and get :: "'m \<Rightarrow> 'k \<Rightarrow> 'v"
    and put :: "'k \<Rightarrow> 'v \<Rightarrow> 'm \<Rightarrow> 'm"
    and usable :: "'k \<Rightarrow> bool"
  assumes get_put: "inv m \<Longrightarrow> usable k \<Longrightarrow> get (put k v m) = (get m)(k := v)"
    and inv_put: "inv m \<Longrightarrow> usable k \<Longrightarrow> inv (put k v m)"
begin

lemma get_same: "inv m \<Longrightarrow> usable k \<Longrightarrow> get (put k v m) k = v"
  by (simp add: get_put)

lemma get_other: "inv m \<Longrightarrow> usable k \<Longrightarrow> k' \<noteq> k \<Longrightarrow> get (put k v m) k' = get m k'"
  by (simp add: get_put)

text \<open>A loop of writes keeps the store well formed, and reads as the last write of each key.\<close>

lemma inv_fold_put:
  "inv m \<Longrightarrow> fst ` set kvs \<subseteq> Collect usable \<Longrightarrow> inv (fold (\<lambda>(k, v). put k v) kvs m)"
  by (induction kvs arbitrary: m) (auto simp: inv_put)

lemma get_fold_put:
  "inv m \<Longrightarrow> fst ` set kvs \<subseteq> Collect usable \<Longrightarrow>
    get (fold (\<lambda>(k, v). put k v) kvs m) k =
      (case map_of (rev kvs) k of None \<Rightarrow> get m k | Some v \<Rightarrow> v)"
  by (induction kvs arbitrary: m)
    (auto simp: inv_put get_put map_add_def split: option.splits)

end

interpretation omap_store: keyed_store omap_ok omap_find "\<lambda>k v m. case v of None \<Rightarrow> omap_erase k m | Some w \<Rightarrow> omap_put k w m" "\<lambda>_. True"
  by unfold_locales (auto simp: omap_find_erase split: option.splits)

end
