(* ===== verification/ProvSpec.thy ===== *)
theory ProvSpec
  imports AttrSpec Omap
begin

section \<open>Provider metadata\<close>

text \<open>
  \<open>lib/inc/libral/prov/spec.hpp\<close>, \<open>lib/src/prov/spec.cc\<close> and the accessors of
  \<open>lib/inc/libral/mruby.hpp\<close> it uses: reading the YAML metadata of a provider into its
  specification, and deciding whether the provider is suitable. The YAML text is turned into a
  Ruby value by mruby, which is not part of the repository: loading is a parameter, as is the
  search for a command on the target. The wrapper's plain \<open>hash_get\<close> does not check that
  its argument is a hash, so on anything else its behaviour is undefined.
\<close>

datatype yval =
    YNil
  | YBool bool
  | YStr string
  | YArr "yval list"
  | YHash "(yval \<times> yval) list"
  | YOther

record mrb_ops =
  mo_open :: bool
  mo_load :: "string \<Rightarrow> yval outcome"
  mo_exc :: "string \<Rightarrow> string option"

fun hash_get :: "yval \<Rightarrow> yval \<Rightarrow> yval outcome" where
  "hash_get (YHash h) k = Ok (case map_of h k of None \<Rightarrow> YNil | Some v \<Rightarrow> v)"
| "hash_get _ k = Exn (Undefined ''mrb_hash_get on a value that is not a hash'')"

fun hash_get_string :: "yval \<Rightarrow> string \<Rightarrow> string \<Rightarrow> string" where
  "hash_get_string (YHash h) k dflt = (case map_of h (YStr k) of Some (YStr s) \<Rightarrow> c_str s | _ \<Rightarrow> dflt)"
| "hash_get_string _ k dflt = dflt"

fun hash_entries :: "yval \<Rightarrow> (yval \<times> yval) list" where
  "hash_entries (YHash h) = h"
| "hash_entries _ = []"

fun mrb_as_string :: "yval \<Rightarrow> string \<Rightarrow> string" where
  "mrb_as_string (YStr s) dflt = c_str s"
| "mrb_as_string _ dflt = dflt"

fun mrb_hash_p :: "yval \<Rightarrow> bool" where
  "mrb_hash_p (YHash h) = True"
| "mrb_hash_p _ = False"

record prov_spec =
  ps_name :: string
  ps_type :: string
  ps_desc :: string
  ps_invoke :: string
  ps_qname :: string
  ps_suitable :: bool
  ps_attrs :: "(string, attr_spec) omap"

definition make_qname :: "string \<Rightarrow> string \<Rightarrow> string" where
  "make_qname name type = type @ ''::'' @ name"

definition spec_attr :: "prov_spec \<Rightarrow> string \<Rightarrow> attr_spec option" where
  "spec_attr sp name = omap_find (ps_attrs sp) name"

subsection \<open>Suitability\<close>

definition is_blank :: "char \<Rightarrow> bool" where
  "is_blank c \<longleftrightarrow> c \<in> {CHR '' '', CHR 0x09, CHR 0x0A}"

text \<open>The command named by a negated entry; only blanks after \<open>not\<close> make \<open>substr\<close> throw.\<close>

definition negated_command :: "string \<Rightarrow> string outcome" where
  "negated_command cmd = (let rest = dropWhile is_blank (drop 4 cmd) in
     if rest = [] then Exn (Out_of_range ''basic_string::substr'') else Ok rest)"

text \<open>Searching for a command on an ssh target runs a program there, so the search has effects.\<close>

type_synonym 'w searcher = "string \<Rightarrow> 'w \<Rightarrow> string \<times> 'w"

fun check_commands :: "'w searcher \<Rightarrow> string \<Rightarrow> yval list \<Rightarrow> ('w, bool) prog" where
  "check_commands which prov_name [] = ret True"
| "check_commands which prov_name (YStr t # cmds) =
     (let cmd = mrb_as_string (YStr t) [] in
      if starts_with cmd ''not ''
      then bnd (lift (negated_command cmd)) (\<lambda>c w. case which c w of (path, w') \<Rightarrow>
             if path \<noteq> [] then (Ok False, w') else check_commands which prov_name cmds w')
      else (\<lambda>w. case which cmd w of (path, w') \<Rightarrow>
             if path = [] then (Ok False, w') else check_commands which prov_name cmds w'))"
| "check_commands which prov_name (_ # cmds) =
     fail (''provider '' @ prov_name @ '': the entries in '' @ quoted ''suitable.commands'' @ '' must all be strings'')"

definition read_suitable :: "'w searcher \<Rightarrow> yval \<Rightarrow> string \<Rightarrow> ('w, bool) prog" where
  "read_suitable which prov_node prov_name =
     bnd (lift (hash_get prov_node (YStr ''suitable''))) (\<lambda>suitable. case suitable of
       YNil \<Rightarrow> fail (''missing '' @ quoted ''provider.suitable'' @ '' entry'')
     | YBool b \<Rightarrow> ret b
     | YStr t \<Rightarrow>
         (let s = mrb_as_string suitable ''false'' in
          if s \<noteq> ''true'' \<and> s \<noteq> ''false''
          then fail (''provider '' @ prov_name @ '': metadata '' @ quoted ''suitable'' @ '' must be either '' @
            quoted ''true'' @ '' or '' @ quoted ''false'' @ '' but was '' @ quoted s)
          else ret (s = ''true''))
     | YHash h \<Rightarrow>
         bnd (lift (hash_get suitable (YStr ''commands''))) (\<lambda>cmds. case cmds of
             YArr cs \<Rightarrow> check_commands which prov_name cs
           | _ \<Rightarrow> fail (''provider '' @ prov_name @ '': metadata '' @ quoted ''suitable.commands'' @ '' must be an array of strings''))
     | _ \<Rightarrow> fail (''provider '' @ prov_name @ '': illegal format for '' @ quoted ''suitable'' @ '' metadata''))"

subsection \<open>Reading a specification\<close>

fun read_attrs :: "(yval \<times> yval) list \<Rightarrow> (string, attr_spec) omap \<Rightarrow> (string, attr_spec) omap outcome" where
  "read_attrs [] specs = Ok specs"
| "read_attrs ((key, v) # es) specs =
     (let name = mrb_as_string key [];
          desc = hash_get_string v ''desc'' ''(missing description)'';
          type = hash_get_string v ''type'' ''string'';
          kind = hash_get_string v ''kind'' ''rw''
      in obind (spec_create name desc type kind) (\<lambda>attr.
           read_attrs es (omap_emplace name attr specs)))"

definition spec_read :: "mrb_ops \<Rightarrow> 'w searcher \<Rightarrow> string \<Rightarrow> string \<Rightarrow> bool \<Rightarrow> ('w, prov_spec) prog" where
  "spec_read mrb which prov_name yaml suitable =
    (if \<not> mo_open mrb then fail ''Failed to open MRuby'' else
     case mo_load mrb yaml of
       Exn x \<Rightarrow> throw x
     | Err e \<Rightarrow> fail (''failed to parse provider metadata: '' @ e)
     | Ok hash \<Rightarrow>
       if \<not> mrb_hash_p hash then fail ''metadata must be a map but isn't'' else
       bnd (lift (hash_get hash (YStr ''provider''))) (\<lambda>prov_node.
       if prov_node = YNil then fail (''could not find '' @ quoted ''provider'' @ '' entry in YAML'') else
       (let invoke = hash_get_string prov_node ''invoke'' ''(none)'' in
       bnd (lift (hash_get prov_node (YStr ''type''))) (\<lambda>type_node.
       if type_node = YNil then fail (''missing '' @ quoted ''type'' @ '' attribute'') else
       (let name = hash_get_string prov_node ''name'' prov_name;
            type = hash_get_string prov_node ''type'' [];
            desc = hash_get_string prov_node ''desc'' [] in
       bnd (lift (hash_get prov_node (YStr ''attributes''))) (\<lambda>attrs_node.
       if attrs_node = YNil then fail (''could not find entry '' @ quoted ''provider.attributes'' @ '' in YAML'') else
       if \<not> mrb_hash_p attrs_node then fail (''expected '' @ quoted ''provider.attributes'' @ '' to be a hash but it's something else'') else
       bnd (lift (read_attrs (hash_entries attrs_node) [])) (\<lambda>attr_specs.
       if omap_find attr_specs ''name'' = None
       then fail (''no attribute '' @ quoted ''name'' @ '' has been defined, but that is mandatory'') else
       (case mo_exc mrb yaml of Some e \<Rightarrow> fail e | None \<Rightarrow>
       bnd (if suitable then read_suitable which prov_node prov_name else ret False) (\<lambda>suit.
       ret \<lparr>ps_name = name, ps_type = type, ps_desc = desc, ps_invoke = invoke,
            ps_qname = make_qname name type, ps_suitable = suit, ps_attrs = attr_specs\<rparr>)))))))))"

subsection \<open>What a specification that was read guarantees\<close>

definition prov_spec_ok :: "prov_spec \<Rightarrow> bool" where
  "prov_spec_ok sp \<longleftrightarrow> omap_ok (ps_attrs sp) \<and> spec_attr sp ''name'' \<noteq> None \<and>
     ps_qname sp = make_qname (ps_name sp) (ps_type sp) \<and>
     (\<forall>n a. spec_attr sp n = Some a \<longrightarrow> as_name a = n \<and> wf_data_type (as_data_type a))"

definition attr_table_ok :: "(string, attr_spec) omap \<Rightarrow> bool" where
  "attr_table_ok m \<longleftrightarrow> omap_ok m \<and>
     (\<forall>n a. omap_find m n = Some a \<longrightarrow> as_name a = n \<and> wf_data_type (as_data_type a))"

lemma attr_table_emplace:
  "attr_table_ok m \<Longrightarrow> spec_create n d t k = Ok a \<Longrightarrow> attr_table_ok (omap_emplace n a m)"
  using spec_create_wf [of n d t k a]
  by (auto simp: attr_table_ok_def omap_find_emplace split: option.splits if_splits)

lemma read_attrs_ok: "read_attrs es m = Ok m' \<Longrightarrow> attr_table_ok m \<Longrightarrow> attr_table_ok m'"
  by (induction es m rule: read_attrs.induct) (auto simp: Let_def obind_Ok_iff attr_table_emplace)

text \<open>A command entry holds: the command is found, or is not found when negated.\<close>

definition entry_holds :: "(string \<Rightarrow> string) \<Rightarrow> string \<Rightarrow> bool" where
  "entry_holds which cmd \<longleftrightarrow>
     (if starts_with cmd ''not '' then which (dropWhile is_blank (drop 4 cmd)) = [] else which cmd \<noteq> [])"

definition entry_named :: "string \<Rightarrow> bool" where
  "entry_named cmd \<longleftrightarrow> nul \<notin> set cmd \<and> (starts_with cmd ''not '' \<longrightarrow> dropWhile is_blank (drop 4 cmd) \<noteq> [])"

text \<open>A search whose answers stay the same while it is used.\<close>

definition answers :: "'w searcher \<Rightarrow> (string \<Rightarrow> string) \<Rightarrow> bool" where
  "answers which path \<longleftrightarrow> (\<forall>c w. fst (which c w) = path c)"

lemma check_commands_eq:
  assumes "answers which path" and "list_all entry_named cs"
  shows "fst (check_commands which p (map YStr cs) w) = Ok (list_all (entry_holds path) cs)"
  using assms(2)
proof (induction cs arbitrary: w)
  case (Cons c cs)
  have "fst (which n w) = path n" for n w using assms(1) by (simp add: answers_def)
  with Cons show ?case
    by (auto simp: entry_named_def entry_holds_def negated_command_def c_str_id Let_def bnd_def lift_def split: prod.split)
      (metis fst_conv)+
qed (simp add: ret_def)

text \<open>C25: metadata that is accepted yields a well-formed specification: the mandatory \<open>name\<close>
  attribute is there, the qualified name is type and name joined by a double colon, every
  attribute is stored under its own name with a legal type, and the provider is suitable only
  if the caller allowed it and the metadata says so.\<close>

theorem spec_read_ok:
  assumes "spec_read mrb which prov_name yaml suitable w = (Ok sp, w')"
  shows "prov_spec_ok sp \<and> (ps_suitable sp \<longrightarrow> suitable \<and>
    (\<exists>hash node. mo_load mrb yaml = Ok hash \<and> hash_get hash (YStr ''provider'') = Ok node \<and>
       fst (read_suitable which node prov_name w) = Ok True))"
proof -
  from assms obtain hash where load: "mo_load mrb yaml = Ok hash"
    by (auto simp: spec_read_def fail_def throw_def split: outcome.splits if_split_asm)
  with assms obtain node specs es where
    node: "hash_get hash (YStr ''provider'') = Ok node"
    and attrs: "ps_attrs sp = specs" "omap_find specs ''name'' \<noteq> None" "read_attrs es [] = Ok specs"
    and q: "ps_qname sp = make_qname (ps_name sp) (ps_type sp)"
    and suit: "fst ((if suitable then read_suitable which node prov_name else ret False) w) = Ok (ps_suitable sp)"
    by (auto simp: spec_read_def Let_def bnd_Ok_iff lift_def fail_def ret_def split: if_split_asm option.splits)
  have "attr_table_ok specs"
    using attrs(3) by (auto simp: attr_table_ok_def dest!: read_attrs_ok)
  with attrs q have "prov_spec_ok sp"
    by (auto simp: prov_spec_ok_def attr_table_ok_def spec_attr_def)
  with load node suit show ?thesis by (auto simp: ret_def split: if_splits)
qed

text \<open>The last part of this under a name of its own, for the providers' \<open>describe\<close>.\<close>

lemma spec_read_suitable:
  assumes "spec_read mrb which n yaml suitable w = (Ok sp, w')" and "ps_suitable sp"
  shows suitable
proof -
  have "bnd (if suitable then read_suitable which node n else ret False) (\<lambda>suit. ret (mk suit)) w = (Ok sp, w') \<Longrightarrow>
      (\<And>b. ps_suitable (mk b) = b) \<Longrightarrow> suitable" for mk node w
    using assms(2) by (auto simp: bnd_Ok_iff ret_def split: if_splits)
  with assms show ?thesis
    by (auto simp: spec_read_def Let_def bnd_Ok_iff lift_def fail_def throw_def ret_def split: outcome.splits if_split_asm option.splits)
qed

text \<open>A list of required commands makes a provider suitable exactly when every plain entry
  is found on the target and no command of a \<open>not\<close> entry is, whatever their order.\<close>

theorem read_suitable_commands:
  assumes "hash_get node (YStr ''suitable'') = Ok (YHash h)"
    and "map_of h (YStr ''commands'') = Some (YArr (map YStr cs))"
    and "list_all entry_named cs" and "answers which path"
  shows "fst (read_suitable which node prov_name w) = Ok (\<forall>cmd \<in> set cs. entry_holds path cmd)"
  using assms by (simp add: read_suitable_def bnd_def lift_def check_commands_eq list_all_iff)

theorem read_suitable_commands_witness:
  "fst (read_suitable (\<lambda>c w. (if c = ''apt'' then ''/usr/bin/apt'' else [], Suc w))
     (YHash [(YStr ''suitable'', YHash [(YStr ''commands'', YArr [YStr ''apt'', YStr ''not yum''])])]) ''p'' 0) = Ok True"
  by (subst read_suitable_commands [where h = "[(YStr ''commands'', YArr [YStr ''apt'', YStr ''not yum''])]"
        and cs = "[''apt'', ''not yum'']" and path = "\<lambda>c. if c = ''apt'' then ''/usr/bin/apt'' else []"])
    (simp_all add: entry_named_def entry_holds_def is_blank_def answers_def nul_def)

text \<open>A negation without a command throws instead of reporting an error.\<close>

lemma negated_blank_throws:
  "fst (check_commands which p [YStr ''not ''] w) = Exn (Out_of_range ''basic_string::substr'')"
  by (simp add: negated_command_def bnd_def lift_def)

definition demo_mrb :: mrb_ops where
  "demo_mrb = \<lparr>mo_open = True,
     mo_load = (\<lambda>_. Ok (YHash [(YStr ''provider'', YHash [(YStr ''type'', YStr ''host''),
       (YStr ''suitable'', YBool True), (YStr ''attributes'', YHash [(YStr ''name'', YNil)])])])),
     mo_exc = (\<lambda>_. None)\<rparr>"

theorem spec_read_ok_witness:
  "\<exists>sp. spec_read demo_mrb (\<lambda>_ w. ([], w)) ''aug'' ''text'' True () = (Ok sp, ()) \<and> ps_qname sp = ''host::aug'' \<and> prov_spec_ok sp"
proof -
  have a: "spec_create ''name'' ''(missing description)'' ''string'' ''rw'' =
      Ok \<lparr>as_name = ''name'', as_desc = ''(missing description)'', as_data_type = String_type, as_kind = Kind_rw\<rparr>"
    by code_simp
  obtain sp where sp: "spec_read demo_mrb (\<lambda>_ w. ([], w)) ''aug'' ''text'' True () = (Ok sp, ())" "ps_qname sp = ''host::aug''"
    by (simp add: spec_read_def demo_mrb_def Let_def a omap_emplace_def read_suitable_def make_qname_def bnd_def lift_def ret_def)
  with spec_read_ok [OF sp(1)] show ?thesis by blast
qed

end
