(* ===== verification/Resource.thy ===== *)
theory Resource
  imports Value Omap
begin

section \<open>Resources and updates\<close>

text \<open>
  \<open>lib/inc/libral/resource.hpp\<close>, \<open>lib/src/resource.cc\<close>: a resource is a name and an ordered map
  of attributes; its index operators refuse the key \<open>name\<close> by throwing. An update pairs the
  current (\<open>is\<close>) and the desired (\<open>should\<close>) state of one resource.
\<close>

record resource =
  res_name :: string
  attrs :: "(string, value_base) omap"

definition new_resource :: "string \<Rightarrow> resource" where
  "new_resource n = \<lparr>res_name = n, attrs = []\<rparr>"

definition is_name :: "string \<Rightarrow> bool" where
  "is_name key \<longleftrightarrow> key = ''name''"

definition name_access :: exn where
  "name_access = Invalid_argument ''The name can not be accessed with operator[]''"

definition val_at :: "resource \<Rightarrow> string \<Rightarrow> value_base" where
  "val_at r key = (case omap_find (attrs r) key of None \<Rightarrow> VNone | Some v \<Rightarrow> v)"

text \<open>The \<open>const\<close> index operator, assignment through the other one, and \<open>erase\<close>.\<close>

definition res_at :: "resource \<Rightarrow> string \<Rightarrow> value_base outcome" where
  "res_at r key = (if is_name key then Exn name_access else Ok (val_at r key))"

definition put_attr :: "string \<Rightarrow> value_base \<Rightarrow> resource \<Rightarrow> resource" where
  "put_attr key v r = r\<lparr>attrs := omap_put key v (attrs r)\<rparr>"

definition res_set :: "resource \<Rightarrow> string \<Rightarrow> value_base \<Rightarrow> resource outcome" where
  "res_set r key v = (if is_name key then Exn name_access else Ok (put_attr key v r))"

text \<open>Reading through the non-const operator creates the entry.\<close>

definition res_ref :: "resource \<Rightarrow> string \<Rightarrow> (value_base \<times> resource) outcome" where
  "res_ref r key =
     (if is_name key then Exn name_access
      else Ok (val_at r key, r\<lparr>attrs := omap_emplace key VNone (attrs r)\<rparr>))"

definition res_erase :: "string \<Rightarrow> resource \<Rightarrow> resource" where
  "res_erase key r = r\<lparr>attrs := omap_erase key (attrs r)\<rparr>"

definition lookup_ptr :: "(value_base \<Rightarrow> 'a option) \<Rightarrow> resource \<Rightarrow> string \<Rightarrow> 'a option" where
  "lookup_ptr as r key = (case omap_find (attrs r) key of None \<Rightarrow> None | Some v \<Rightarrow> as v)"

definition lookup :: "(value_base \<Rightarrow> 'a option) \<Rightarrow> resource \<Rightarrow> string \<Rightarrow> 'a \<Rightarrow> 'a" where
  "lookup as r key deflt = (case omap_find (attrs r) key of
      None \<Rightarrow> deflt
    | Some v \<Rightarrow> (case as v of Some p \<Rightarrow> p | None \<Rightarrow> deflt))"

record update =
  upd_is :: resource
  upd_should :: resource

definition upd_name :: "update \<Rightarrow> string" where
  "upd_name u = res_name (upd_is u)"

definition upd_changed :: "update \<Rightarrow> string \<Rightarrow> bool outcome" where
  "upd_changed u attr =
     obind (res_at (upd_should u) attr) (\<lambda>s.
       if is_present s
       then obind (res_at (upd_is u) attr) (\<lambda>i. Ok (value_neq i s))
       else Ok False)"

definition upd_at :: "update \<Rightarrow> string \<Rightarrow> value_base outcome" where
  "upd_at u attr =
     obind (res_at (upd_should u) attr) (\<lambda>s.
       if is_present s then Ok s else res_at (upd_is u) attr)"

definition upd_present :: "update \<Rightarrow> bool" where
  "upd_present u \<longleftrightarrow> lookup as_string (upd_is u) ''ensure'' ''absent'' \<noteq> ''absent''"

subsection \<open>Well-formedness and the store laws\<close>

definition resource_ok :: "resource \<Rightarrow> bool" where
  "resource_ok r \<longleftrightarrow> omap_ok (attrs r) \<and> ''name'' \<notin> fst ` set (attrs r)"

lemma resource_ok_new [simp]: "resource_ok (new_resource n)"
  by (simp add: resource_ok_def new_resource_def)

lemma res_name_new [simp]: "res_name (new_resource n) = n"
  by (simp add: new_resource_def)

lemma res_name_put [simp]: "res_name (put_attr k v r) = res_name r"
  by (simp add: put_attr_def)

lemma val_at_new [simp]: "val_at (new_resource n) k = VNone"
  by (simp add: val_at_def new_resource_def)

lemma val_at_put: "val_at (put_attr k v r) = (val_at r)(k := v)"
  by (auto simp: val_at_def put_attr_def)

lemma find_attrs_put [simp]: "omap_find (attrs (put_attr k v r)) = (omap_find (attrs r))(k \<mapsto> v)"
  by (auto simp: put_attr_def fun_eq_iff)

lemma find_attrs_new [simp]: "omap_find (attrs (new_resource n)) k = None"
  by (simp add: new_resource_def)

lemma resource_ok_put: "resource_ok r \<Longrightarrow> k \<noteq> ''name'' \<Longrightarrow> resource_ok (put_attr k v r)"
  by (auto simp: resource_ok_def put_attr_def keys_omap_put)

interpretation resource_store: keyed_store resource_ok val_at put_attr "\<lambda>k. \<not> is_name k"
  by unfold_locales (auto simp: val_at_put resource_ok_put is_name_def)

lemma res_set_Ok: "res_set r k v = Ok r' \<longleftrightarrow> k \<noteq> ''name'' \<and> r' = put_attr k v r"
  by (auto simp: res_set_def is_name_def)

lemma res_set_ok: "res_set r k v = Ok r' \<Longrightarrow> resource_ok r \<Longrightarrow> resource_ok r' \<and> res_name r' = res_name r"
  by (auto simp: res_set_Ok resource_ok_put)

lemma res_at_other [simp]: "k \<noteq> ''name'' \<Longrightarrow> res_at r k = Ok (val_at r k)"
  by (simp add: res_at_def is_name_def)

lemma upd_changed_other [simp]:
  "k \<noteq> ''name'' \<Longrightarrow> upd_changed u k =
    Ok (val_at (upd_should u) k \<noteq> VNone \<and> val_at (upd_is u) k \<noteq> val_at (upd_should u) k)"
  by (simp add: upd_changed_def)

lemma upd_at_other [simp]:
  "k \<noteq> ''name'' \<Longrightarrow> upd_at u k =
    Ok (if val_at (upd_should u) k \<noteq> VNone then val_at (upd_should u) k else val_at (upd_is u) k)"
  by (simp add: upd_at_def)

lemma lookup_val: "lookup as_string r k d = (case val_at r k of VStr s \<Rightarrow> s | _ \<Rightarrow> d)"
  by (cases "val_at r k") (auto simp: lookup_def val_at_def split: option.splits)

lemma lookup_ptr_string: "lookup_ptr as_string r k = Some s \<longleftrightarrow> val_at r k = VStr s"
  by (auto simp: lookup_ptr_def val_at_def split: option.splits)

lemma in_attrs_val: "resource_ok r \<Longrightarrow> (k, v) \<in> set (attrs r) \<Longrightarrow> val_at r k = v \<and> k \<noteq> ''name''"
  by (force simp: resource_ok_def val_at_def dest: omap_ok_distinct map_of_is_SomeI)

lemma fold_put_attr: "fold (\<lambda>(k, v). put_attr k v) kvs r = r\<lparr>attrs := fold (\<lambda>(k, v). omap_put k v) kvs (attrs r)\<rparr>"
  by (induction kvs arbitrary: r) (auto simp: put_attr_def)

end
