(* ===== verification/Changes.thy ===== *)
theory Changes
  imports Resource
begin

section \<open>Change lists and the provider context\<close>

text \<open>
  \<open>lib/inc/libral/context.hpp\<close>, \<open>lib/src/context.cc\<close>: the list of changes recorded for one
  resource, the context that keeps one such list per resource name while a provider runs,
  the classification of provider log lines, and \<open>add_absent\<close>.
\<close>

subsection \<open>Changes\<close>

record change =
  ch_attr :: string
  ch_is :: "value_base"
  ch_was :: "value_base"

type_synonym changes = "change list"

definition mk_change :: "string \<Rightarrow> value_base \<Rightarrow> value_base \<Rightarrow> change" where
  "mk_change a i w = \<lparr>ch_attr = a, ch_is = i, ch_was = w\<rparr>"

definition changes_add :: "string \<Rightarrow> value_base \<Rightarrow> value_base \<Rightarrow> changes \<Rightarrow> changes" where
  "changes_add attr is was chgs = chgs @ [mk_change attr is was]"

definition changes_exists :: "string \<Rightarrow> changes \<Rightarrow> bool" where
  "changes_exists attr chgs = list_ex (\<lambda>ch. ch_attr ch = attr) chgs"

text \<open>\<open>add(attr, upd)\<close> and \<open>add(attrs, upd)\<close> return whether anything differed.\<close>

definition changes_add_upd :: "string \<Rightarrow> update \<Rightarrow> changes \<Rightarrow> (bool \<times> changes) outcome" where
  "changes_add_upd attr u chgs =
     obind (upd_changed u attr) (\<lambda>changed.
       if changed
       then obind (res_at (upd_should u) attr) (\<lambda>s. obind (res_at (upd_is u) attr) (\<lambda>i.
              Ok (True, changes_add attr s i chgs)))
       else Ok (False, chgs))"

fun changes_add_attrs :: "string list \<Rightarrow> update \<Rightarrow> changes \<Rightarrow> (bool \<times> changes) outcome" where
  "changes_add_attrs [] u chgs = Ok (False, chgs)"
| "changes_add_attrs (attr # as) u chgs =
     obind (changes_add_upd attr u chgs) (\<lambda>(c, chgs').
       obind (changes_add_attrs as u chgs') (\<lambda>(c', chgs''). Ok (c \<or> c', chgs'')))"

fun maybe_add_loop :: "(string \<times> value_base) list \<Rightarrow> update \<Rightarrow> changes \<Rightarrow> (bool \<times> changes) outcome" where
  "maybe_add_loop [] u chgs = Ok (False, chgs)"
| "maybe_add_loop ((attr, should) # as) u chgs =
     obind (res_at (upd_is u) attr) (\<lambda>is.
       if value_neq should is \<and> \<not> changes_exists attr chgs
       then obind (maybe_add_loop as u (changes_add attr should is chgs)) (\<lambda>(c, chgs'). Ok (True, chgs'))
       else maybe_add_loop as u chgs)"

definition maybe_add :: "update \<Rightarrow> changes \<Rightarrow> (bool \<times> changes) outcome" where
  "maybe_add u chgs =
     obind (upd_at u ''ensure'') (\<lambda>ens.
       if value_eq ens (VStr ''absent'')
       then (if \<not> changes_exists ''ensure'' chgs
             then obind (upd_changed u ''ensure'') (\<lambda>changed.
                    if changed
                    then obind (res_at (upd_should u) ''ensure'') (\<lambda>s. obind (res_at (upd_is u) ''ensure'') (\<lambda>i.
                           Ok (True, changes_add ''ensure'' s i chgs)))
                    else Ok (False, chgs))
             else Ok (False, chgs))
       else maybe_add_loop (attrs (upd_should u)) u chgs)"

definition show_changes :: "changes \<Rightarrow> string" where
  "show_changes chgs = concat (map (\<lambda>ch. ch_attr ch @ ''('' @ to_string (ch_was ch) @ ''->'' @
     to_string (ch_is ch) @ '')'' @ [CHR 0x0A]) chgs)"

subsection \<open>The context\<close>

record context_rec =
  cx_qname :: string
  cx_changes :: "(string, changes) omap"

type_synonym ctx = context_rec

definition new_context :: "string \<Rightarrow> ctx" where
  "new_context q = \<lparr>cx_qname = q, cx_changes = []\<rparr>"

text \<open>
  \<open>changes_for\<close> returns a reference to the list for a name, creating an empty list on first
  use: reading through it is \<open>changes_of\<close>, writing through it is \<open>set_changes\<close>.
\<close>

definition changes_for :: "string \<Rightarrow> ctx \<Rightarrow> ctx" where
  "changes_for n cx = cx\<lparr>cx_changes := omap_emplace n [] (cx_changes cx)\<rparr>"

definition changes_of :: "ctx \<Rightarrow> string \<Rightarrow> changes" where
  "changes_of cx n = (case omap_find (cx_changes cx) n of None \<Rightarrow> [] | Some c \<Rightarrow> c)"

definition set_changes :: "string \<Rightarrow> changes \<Rightarrow> ctx \<Rightarrow> ctx" where
  "set_changes n chgs cx = cx\<lparr>cx_changes := omap_put n chgs (cx_changes cx)\<rparr>"

definition have_changes :: "ctx \<Rightarrow> string \<Rightarrow> bool" where
  "have_changes cx n \<longleftrightarrow> omap_find (cx_changes cx) n \<noteq> None"

definition context_error :: "ctx \<Rightarrow> string \<Rightarrow> string" where
  "context_error cx msg = ''['' @ cx_qname cx @ ''] '' @ msg"

definition context_ok :: "ctx \<Rightarrow> bool" where
  "context_ok cx \<longleftrightarrow> omap_ok (cx_changes cx)"

subsection \<open>Log lines\<close>

datatype log_level = Log_debug | Log_info | Log_warning | Log_error

definition log_levels :: "(string, log_level) omap" where
  "log_levels = [(''debug'', Log_debug), (''error'', Log_error), (''info'', Log_info), (''warn'', Log_warning)]"

text \<open>The level of a line and the offset at which its text starts.\<close>

definition line_level :: "string \<Rightarrow> log_level \<times> nat" where
  "line_level line = (case find (\<lambda>(w, l). istarts_with line w) log_levels of
      None \<Rightarrow> (Log_warning, 0)
    | Some (w, l) \<Rightarrow> (l, length w + 1))"

text \<open>What is handed to the logger, given which levels are enabled.\<close>

definition log_line :: "(log_level \<Rightarrow> bool) \<Rightarrow> string \<Rightarrow> (log_level \<times> string) option outcome" where
  "log_line enabled line = (let (level, start) = line_level line in
     if enabled level
     then obind (substr_from start line) (\<lambda>rest. Ok (Some (level, trim rest)))
     else Ok None)"

subsection \<open>Absent resources\<close>

fun add_absent :: "resource list \<Rightarrow> string list \<Rightarrow> resource list" where
  "add_absent rsrcs [] = rsrcs"
| "add_absent rsrcs (n # names) =
     (case find (\<lambda>r. n = res_name r) rsrcs of
        Some _ \<Rightarrow> add_absent rsrcs names
      | None \<Rightarrow> add_absent (rsrcs @ [put_attr ''ensure'' (VStr ''absent'') (new_resource n)]) names)"

subsection \<open>What recording changes does\<close>

definition differs :: "update \<Rightarrow> string \<Rightarrow> bool" where
  "differs u k \<longleftrightarrow> val_at (upd_should u) k \<noteq> VNone \<and> val_at (upd_is u) k \<noteq> val_at (upd_should u) k"

definition diff_change :: "update \<Rightarrow> string \<Rightarrow> change" where
  "diff_change u k = mk_change k (val_at (upd_should u) k) (val_at (upd_is u) k)"

lemma ch_mk [simp]: "ch_attr (mk_change a i w) = a" "ch_is (mk_change a i w) = i" "ch_was (mk_change a i w) = w"
  by (simp_all add: mk_change_def)

lemma changes_exists_append [simp]:
  "changes_exists k (c @ d) \<longleftrightarrow> changes_exists k c \<or> changes_exists k d"
  by (simp add: changes_exists_def)

lemma changes_exists_iff: "changes_exists k c \<longleftrightarrow> k \<in> ch_attr ` set c"
  by (auto simp: changes_exists_def list_ex_iff)

lemma changes_add_upd_eq:
  "k \<noteq> ''name'' \<Longrightarrow> changes_add_upd k u c =
    Ok (differs u k, if differs u k then c @ [diff_change u k] else c)"
  by (simp add: changes_add_upd_def differs_def diff_change_def changes_add_def)

lemma changes_add_attrs_eq:
  "''name'' \<notin> set as \<Longrightarrow> changes_add_attrs as u c =
    Ok (list_ex (differs u) as, c @ map (diff_change u) (filter (differs u) as))"
  by (induction as arbitrary: c) (auto simp: changes_add_upd_eq)

text \<open>The changes that \<open>maybe_add\<close> derives from an update, as one list.\<close>

definition wants_absent :: "update \<Rightarrow> bool" where
  "wants_absent u \<longleftrightarrow> upd_at u ''ensure'' = Ok (VStr ''absent'')"

definition derived_changes :: "update \<Rightarrow> changes \<Rightarrow> changes" where
  "derived_changes u c =
     (if wants_absent u
      then (if differs u ''ensure'' \<and> \<not> changes_exists ''ensure'' c then [diff_change u ''ensure''] else [])
      else map (\<lambda>(k, v). mk_change k v (val_at (upd_is u) k))
             (filter (\<lambda>(k, v). v \<noteq> val_at (upd_is u) k \<and> \<not> changes_exists k c) (attrs (upd_should u))))"

lemma maybe_add_loop_eq:
  assumes "distinct (map fst as)" and "''name'' \<notin> fst ` set as"
  shows "maybe_add_loop as u c =
    (let new = map (\<lambda>(k, v). mk_change k v (val_at (upd_is u) k))
       (filter (\<lambda>(k, v). v \<noteq> val_at (upd_is u) k \<and> \<not> changes_exists k c) as)
     in Ok (new \<noteq> [], c @ new))"
  using assms
proof (induction as arbitrary: c)
  case (Cons a as)
  obtain k v where a: "a = (k, v)" by (cases a)
  have other: "filter (\<lambda>(k', w). w \<noteq> val_at (upd_is u) k' \<and> \<not> changes_exists k' (changes_add k v x c)) as
      = filter (\<lambda>(k', w). w \<noteq> val_at (upd_is u) k' \<and> \<not> changes_exists k' c) as" for x
    using Cons.prems a by (force simp: changes_add_def changes_exists_def intro!: filter_cong)
  show ?case
    using Cons.prems Cons.IH [of c] Cons.IH [of "changes_add k v (val_at (upd_is u) k) c"]
    by (auto simp: a Let_def other) (simp add: changes_add_def)
qed simp

lemma maybe_add_eq:
  assumes "resource_ok (upd_should u)"
  shows "maybe_add u c = Ok (derived_changes u c \<noteq> [], c @ derived_changes u c)"
proof -
  from assms have keys: "distinct (map fst (attrs (upd_should u)))" "''name'' \<notin> fst ` set (attrs (upd_should u))"
    by (auto simp: resource_ok_def omap_ok_distinct)
  show ?thesis
    using maybe_add_loop_eq [OF keys, of u c]
    by (auto simp: maybe_add_def derived_changes_def wants_absent_def differs_def diff_change_def
        changes_add_def Let_def)
qed

lemma derived_changes_complete:
  assumes "\<not> wants_absent u" and "(k, v) \<in> set (attrs (upd_should u))" and "v \<noteq> val_at (upd_is u) k"
  shows "changes_exists k (c @ derived_changes u c)"
proof (cases "changes_exists k c")
  case False
  with assms have "mk_change k v (val_at (upd_is u) k) \<in> set (derived_changes u c)"
    by (auto simp: derived_changes_def)
  then show ?thesis by (auto simp: changes_exists_iff intro!: rev_image_eqI)
qed simp

lemma derived_changes_again: "derived_changes u (c @ derived_changes u c) = []"
proof (cases "wants_absent u")
  case True
  then show ?thesis by (auto simp: derived_changes_def changes_exists_def diff_change_def)
next
  case False
  then show ?thesis
    using derived_changes_complete [OF False, of _ _ c]
    by (subst derived_changes_def) (auto simp: filter_empty_conv)
qed

text \<open>C34: deriving changes records exactly the desired attributes that differ from the
  current state and have no entry yet (only \<open>ensure\<close> when the resource is to be
  absent), keeps every change already recorded, reports whether it added any, and adds
  nothing when run a second time.\<close>

theorem maybe_add_exact:
  assumes "resource_ok (upd_should u)"
  shows "maybe_add u c = Ok (derived_changes u c \<noteq> [], c @ derived_changes u c) \<and>
    (\<not> wants_absent u \<longrightarrow> (\<forall>(k, v) \<in> set (attrs (upd_should u)).
       v \<noteq> val_at (upd_is u) k \<longrightarrow> changes_exists k (c @ derived_changes u c))) \<and>
    maybe_add u (c @ derived_changes u c) = Ok (False, c @ derived_changes u c)"
  using maybe_add_eq [OF assms, of c] maybe_add_eq [OF assms, of "c @ derived_changes u c"]
    derived_changes_complete [of u _ _ c] derived_changes_again [of u c]
  by auto

theorem maybe_add_exact_witness:
  "\<exists>c. maybe_add \<lparr>upd_is = new_resource ''x'', upd_should = put_attr ''uid'' (VStr ''7'') (new_resource ''x'')\<rparr> [] = Ok (True, c)
     \<and> changes_exists ''uid'' c"
  using maybe_add_exact [of "\<lparr>upd_is = new_resource ''x'', upd_should = put_attr ''uid'' (VStr ''7'') (new_resource ''x'')\<rparr>" "[]"]
  by (simp add: resource_ok_put derived_changes_def wants_absent_def val_at_put changes_exists_def)
    (simp add: put_attr_def new_resource_def val_at_def)

subsection \<open>The context as a store of change lists\<close>

lemma context_ok_new [simp]: "context_ok (new_context q)"
  by (simp add: context_ok_def new_context_def)

lemma cx_qname_simps [simp]:
  "cx_qname (set_changes n c cx) = cx_qname cx" "cx_qname (changes_for n cx) = cx_qname cx"
  "cx_qname (new_context q) = q"
  by (simp_all add: set_changes_def changes_for_def new_context_def)

lemma changes_of_new [simp]: "changes_of (new_context q) n = []"
  by (simp add: changes_of_def new_context_def)

lemma changes_of_for [simp]: "changes_of (changes_for n cx) = changes_of cx"
  by (auto simp: changes_of_def changes_for_def omap_find_emplace fun_eq_iff split: option.splits)

lemma changes_of_set: "changes_of (set_changes n c cx) = (changes_of cx)(n := c)"
  by (auto simp: changes_of_def set_changes_def fun_eq_iff)

lemma context_ok_set: "context_ok cx \<Longrightarrow> context_ok (set_changes n c cx)"
  by (simp add: context_ok_def set_changes_def)

lemma context_ok_for: "context_ok cx \<Longrightarrow> context_ok (changes_for n cx)"
  by (simp add: context_ok_def changes_for_def)

interpretation context_store: keyed_store context_ok changes_of set_changes "\<lambda>_. True"
  by unfold_locales (auto simp: changes_of_set context_ok_set)

lemma have_changes_simps [simp]:
  "have_changes (set_changes n c cx) m \<longleftrightarrow> m = n \<or> have_changes cx m"
  "have_changes (changes_for n cx) m \<longleftrightarrow> m = n \<or> have_changes cx m"
  "\<not> have_changes (new_context q) m"
  by (auto simp: have_changes_def set_changes_def changes_for_def new_context_def omap_find_emplace)

subsection \<open>Log lines\<close>

lemma upper_level_words:
  "map to_upper ''debug'' = ''DEBUG''" "map to_upper ''error'' = ''ERROR''"
  "map to_upper ''info'' = ''INFO''" "map to_upper ''warn'' = ''WARN''" "map to_upper ''WARN'' = ''WARN''"
  by code_simp+

lemma level_word_unique:
  "starts_with m (map to_upper w) \<Longrightarrow> starts_with m (map to_upper w') \<Longrightarrow>
    (w, l) \<in> set log_levels \<Longrightarrow> (w', l') \<in> set log_levels \<Longrightarrow> w' = w \<and> l' = l"
  by (cases m) (auto simp: log_levels_def upper_level_words simp del: list.map)

lemma log_line_exn_iff:
  "(\<exists>x. log_line enabled line = Exn x) \<longleftrightarrow>
    (\<exists>(w, l) \<in> set log_levels. enabled l \<and> istarts_with line w \<and> length line = length w)"
proof (cases "find (\<lambda>(w, l). istarts_with line w) log_levels")
  case None
  then have "\<forall>(w, l) \<in> set log_levels. \<not> istarts_with line w"
    by (auto simp: find_None_iff)
  with None show ?thesis
    by (auto simp: log_line_def line_level_def substr_from_def Let_def)
next
  case (Some p)
  obtain w l where p: "p = (w, l)" by (cases p)
  have w: "istarts_with line w" "(w, l) \<in> set log_levels"
    using Some by (auto simp: p find_Some_iff in_set_conv_nth)
  have unique: "w' = w \<and> l' = l" if "(w', l') \<in> set log_levels" "istarts_with line w'" for w' l'
    using level_word_unique [of "map to_upper line" w w'] that w by (simp add: istarts_with_def)
  have "length w \<le> length line" using w starts_with_length by (fastforce simp: istarts_with_def)
  then have "(\<exists>x. log_line enabled line = Exn x) \<longleftrightarrow> enabled l \<and> length line = length w"
    by (auto simp: log_line_def line_level_def Some p substr_from_def Let_def)
  also have "\<dots> \<longleftrightarrow> (\<exists>(w, l) \<in> set log_levels. enabled l \<and> istarts_with line w \<and> length line = length w)"
  proof
    assume "enabled l \<and> length line = length w"
    with w show "\<exists>(w, l) \<in> set log_levels. enabled l \<and> istarts_with line w \<and> length line = length w"
      by (intro bexI [of _ "(w, l)"]) auto
  next
    assume "\<exists>(w, l) \<in> set log_levels. enabled l \<and> istarts_with line w \<and> length line = length w"
    then obtain w' l' where "(w', l') \<in> set log_levels" "enabled l'" "istarts_with line w'" "length line = length w'"
      by blast
    with unique [of w' l'] show "enabled l \<and> length line = length w" by simp
  qed
  finally show ?thesis .
qed

text \<open>Logging a line that a provider printed throws out of range exactly when the whole line
  is one of the level words, in any case, and that level is enabled; on every other line it
  does not throw.\<close>

theorem log_line_throws_iff:
  "(\<exists>x. log_line enabled line = Exn x) \<longleftrightarrow>
    (\<exists>(w, l) \<in> set log_levels. enabled l \<and> map to_upper line = map to_upper w)"
proof -
  have "istarts_with line w \<and> length line = length w \<longleftrightarrow> map to_upper line = map to_upper w" for w
    using starts_with_same_length [of "map to_upper line" "map to_upper w"]
    by (auto simp: istarts_with_def dest: map_eq_imp_length_eq)
  then show ?thesis unfolding log_line_exn_iff by (simp add: conj_commute case_prod_beta)
qed

theorem log_line_throws_iff_witness: "\<exists>x. log_line (\<lambda>l. l = Log_warning) ''WARN'' = Exn x"
  by (subst log_line_throws_iff) (simp add: log_levels_def upper_level_words del: list.map)

subsection \<open>Absent resources\<close>

definition absent_resource :: "string \<Rightarrow> resource" where
  "absent_resource n = put_attr ''ensure'' (VStr ''absent'') (new_resource n)"

fun missing_names :: "string set \<Rightarrow> string list \<Rightarrow> string list" where
  "missing_names seen [] = []"
| "missing_names seen (n # ns) =
     (if n \<in> seen then missing_names seen ns else n # missing_names (insert n seen) ns)"

lemma res_name_absent [simp]: "res_name (absent_resource n) = n"
  by (simp add: absent_resource_def)

lemma resource_ok_absent [simp]: "resource_ok (absent_resource n)"
  by (simp add: absent_resource_def resource_ok_put)

lemma find_by_name: "find (\<lambda>r. n = res_name r) rs = None \<longleftrightarrow> n \<notin> res_name ` set rs"
  by (auto simp: find_None_iff)

lemma add_absent_eq:
  "add_absent rs ns = rs @ map absent_resource (missing_names (res_name ` set rs) ns)"
proof (induction rs ns rule: add_absent.induct)
  case (2 rs n ns)
  show ?case
  proof (cases "find (\<lambda>r. n = res_name r) rs")
    case None
    then have "n \<notin> res_name ` set rs" by (simp only: find_by_name not_False_eq_True)
    with "2.IH" (1) [OF None] show ?thesis
      by (simp add: None insert_commute absent_resource_def)
  next
    case (Some r)
    then have "n \<in> res_name ` set rs" using find_by_name by (metis option.distinct(1))
    with "2.IH" (2) [OF Some] Some show ?thesis by (simp add: insert_absorb)
  qed
qed simp

lemma missing_names_props:
  "set (missing_names seen ns) = set ns - seen" "distinct (missing_names seen ns)"
  by (induction seen ns rule: missing_names.induct) auto

text \<open>Completing a list of resources keeps the resources found in their order, makes
  every requested name appear, adds each missing name once, marked absent, and
  does nothing when all names are there.\<close>

theorem add_absent_complete:
  "\<exists>new. add_absent rs ns = rs @ new \<and> res_name ` set new = set ns - res_name ` set rs \<and>
     distinct (map res_name new) \<and> (\<forall>r \<in> set new. attrs r = [(''ensure'', VStr ''absent'')]) \<and>
     add_absent (add_absent rs ns) ns = add_absent rs ns"
proof -
  let ?new = "map absent_resource (missing_names (res_name ` set rs) ns)"
  have names: "map res_name ?new = missing_names (res_name ` set rs) ns" by (simp add: comp_def)
  then have "res_name ` set ?new = set ns - res_name ` set rs"
    by (metis missing_names_props(1) list.set_map)
  moreover have "missing_names (res_name ` set (rs @ ?new)) ns = []"
  proof -
    have "set ns \<subseteq> res_name ` set (rs @ ?new)"
      using calculation by (auto simp del: set_map simp: image_Un)
    then show ?thesis using missing_names_props(1) [of "res_name ` set (rs @ ?new)" ns] by (metis Diff_eq_empty_iff set_empty)
  qed
  ultimately show ?thesis
    using names missing_names_props(2)
    by (intro exI [of _ ?new])
      (auto simp: add_absent_eq absent_resource_def put_attr_def new_resource_def)
qed

theorem add_absent_complete_witness:
  "\<exists>new. add_absent [new_resource ''a''] [''b'', ''a'', ''b''] = [new_resource ''a''] @ new \<and> res_name ` set new = {''b''} \<and>
     distinct (map res_name new)"
  using add_absent_complete [of "[new_resource ''a'']" "[''b'', ''a'', ''b'']"] by auto

end
