(* ===== verification/Provider.thy ===== *)
theory Provider
  imports ProvSpec Changes
begin

section \<open>The provider base class\<close>

text \<open>
  \<open>lib/inc/libral/provider.hpp\<close>, \<open>lib/src/provider.cc\<close>: what every provider inherits. The two
  virtual operations \<open>get\<close> and \<open>set\<close> are the fields of a record; they run on the context
  and on the managed system, which stays abstract (a type variable). Their \<open>config\<close> argument is
  left out: the base class always passes an empty map and no provider reads it.
\<close>

record 'w pst =
  p_ctx :: ctx
  p_world :: 'w

record 'w provider =
  pv_spec :: "prov_spec option"
  pv_source :: string
  pv_get :: "string list \<Rightarrow> ('w pst, resource list) prog"
  pv_set :: "update list \<Rightarrow> ('w pst, unit) prog"

definition provider_qname :: "'w provider \<Rightarrow> string outcome" where
  "provider_qname p = (case pv_spec p of
      None \<Rightarrow> Exn (Undefined ''spec is not initialised'')
    | Some sp \<Rightarrow> Ok (ps_qname sp))"

definition provider_type_name :: "'w provider \<Rightarrow> string outcome" where
  "provider_type_name p = (case pv_spec p of
      None \<Rightarrow> Exn (Undefined ''spec is not initialised'')
    | Some sp \<Rightarrow> Ok (ps_type sp))"

text \<open>A fresh context for the provider, as \<open>get\<close>, \<open>find\<close> and \<open>set\<close> create it.\<close>

definition start :: "'w provider \<Rightarrow> 'w \<Rightarrow> 'w pst" where
  "start p w = \<lparr>p_ctx = new_context (case pv_spec p of None \<Rightarrow> [] | Some sp \<Rightarrow> ps_qname sp), p_world = w\<rparr>"

definition provider_get :: "'w provider \<Rightarrow> string list \<Rightarrow> ('w, resource list) prog" where
  "provider_get p names w = (case pv_get p names (start p w) of (r, s) \<Rightarrow> (r, p_world s))"

fun find_unique :: "string outcome \<Rightarrow> string \<Rightarrow> resource list \<Rightarrow> resource option \<Rightarrow> resource option outcome" where
  "find_unique q name [] res = Ok res"
| "find_unique q name (r # rs) res =
     (if res_name r = name
      then (case res of
              Some _ \<Rightarrow> obind q (\<lambda>qn. Err (''['' @ qn @ ''] more than one resource with name '' @ name))
            | None \<Rightarrow> find_unique q name rs (Some r))
      else find_unique q name rs res)"

definition provider_find :: "'w provider \<Rightarrow> string \<Rightarrow> ('w, resource option) prog" where
  "provider_find p name w = (case provider_get p [name] w of (r, w') \<Rightarrow>
     (obind r (\<lambda>rs. find_unique (provider_qname p) name rs None), w'))"

fun build_updates :: "resource list \<Rightarrow> resource list \<Rightarrow> update list" where
  "build_updates [] iss = []"
| "build_updates (should # shoulds) iss =
     (let found = filter (\<lambda>is. res_name is = res_name should) iss in
      (if found = []
       then [\<lparr>upd_is = new_resource (res_name should), upd_should = should\<rparr>]
       else map (\<lambda>is. \<lparr>upd_is = is, upd_should = should\<rparr>) found)
      @ build_updates shoulds iss)"

definition provider_set :: "'w provider \<Rightarrow> resource list \<Rightarrow> ('w, (update \<times> changes) list) prog" where
  "provider_set p shoulds w =
     (case pv_get p (map res_name shoulds) (start p w) of
        (Ok iss, s1) \<Rightarrow>
          (let upds = build_updates shoulds iss in
           case pv_set p upds s1 of
             (Ok _, s2) \<Rightarrow> (Ok (map (\<lambda>u. (u, changes_of (p_ctx s2) (upd_name u))) upds), p_world s2)
           | (Err e, s2) \<Rightarrow> (Err e, p_world s2)
           | (Exn x, s2) \<Rightarrow> (Exn x, p_world s2))
      | (Err e, s1) \<Rightarrow> (Err e, p_world s1)
      | (Exn x, s1) \<Rightarrow> (Exn x, p_world s1))"

definition provider_parse :: "'w provider \<Rightarrow> string \<Rightarrow> string \<Rightarrow> value_base outcome" where
  "provider_parse p name v = (case pv_spec p of
      None \<Rightarrow> Err ''internal error: spec was not initialized''
    | Some sp \<Rightarrow> (case spec_attr sp name of
        None \<Rightarrow> Err (''there is no attribute '' @ quoted name)
      | Some a \<Rightarrow> spec_read_string a v))"

text \<open>
  \<open>describe\<close> sets members of the provider and gives its specification, so its result is the provider
  as it is then and the specification; here that of the base class, and \<open>prepare\<close> with the
  \<open>describe\<close> of the provider at hand.
\<close>

definition describe_base :: "'p provider \<Rightarrow> ('w, 'p provider \<times> prov_spec) prog" where
  "describe_base p = (case pv_spec p of
      None \<Rightarrow> fail ''Internal error: spec should have been given in the constructor''
    | Some sp \<Rightarrow> ret (p, sp))"

definition provider_prepare :: "('w, 'p provider \<times> prov_spec) prog \<Rightarrow> 'p provider \<Rightarrow> ('w, 'p provider) prog" where
  "provider_prepare describe p = (case pv_spec p of
      None \<Rightarrow> bnd describe (\<lambda>(p', sp). ret (p'\<lparr>pv_spec := Some sp\<rparr>))
    | Some _ \<Rightarrow> ret p)"

fun apply_changes :: "changes \<Rightarrow> resource \<Rightarrow> resource outcome" where
  "apply_changes [] res = Ok res"
| "apply_changes (ch # chgs) res = obind (res_set res (ch_attr ch) (ch_is ch)) (apply_changes chgs)"

definition create_updated :: "update \<Rightarrow> changes \<Rightarrow> resource outcome" where
  "create_updated u chgs =
     obind (upd_at u ''ensure'') (\<lambda>ens.
       if value_eq ens (VStr ''absent'')
       then res_set (new_resource (upd_name u)) ''ensure'' (VStr ''absent'')
       else apply_changes chgs \<lparr>res_name = upd_name u,
              attrs = omap_insert_all (attrs (upd_should u)) (omap_insert_all (attrs (upd_is u)) [])\<rparr>)"

subsection \<open>Finding one resource\<close>

lemma find_unique_eq:
  "find_unique q name rs res =
     (case (case res of None \<Rightarrow> [] | Some r \<Rightarrow> [r]) @ filter (\<lambda>r. res_name r = name) rs of
        [] \<Rightarrow> Ok None
      | [r] \<Rightarrow> Ok (Some r)
      | _ \<Rightarrow> obind q (\<lambda>qn. Err (''['' @ qn @ ''] more than one resource with name '' @ name)))"
  by (induction q name rs res rule: find_unique.induct) (auto split: option.splits list.splits)

text \<open>C10: looking up one resource gives the only resource of that name that the provider reports,
  none when there is no such resource, and an error naming the provider when there are several;
  an error of the provider is passed on.\<close>

theorem provider_find_exact:
  assumes "provider_get p [name] w = (r, w')" and "pv_spec p = Some sp"
  shows "provider_find p name w =
    (case r of
       Ok rs \<Rightarrow> (case filter (\<lambda>x. res_name x = name) rs of
            [] \<Rightarrow> Ok None
          | [x] \<Rightarrow> Ok (Some x)
          | _ \<Rightarrow> Err (''['' @ ps_qname sp @ ''] more than one resource with name '' @ name))
     | Err e \<Rightarrow> Err e | Exn x \<Rightarrow> Exn x, w')"
  using assms
  by (auto simp: provider_find_def find_unique_eq provider_qname_def split: outcome.splits list.splits)

definition demo_provider :: "resource list \<Rightarrow> nat provider" where
  "demo_provider rs = \<lparr>pv_spec = Some \<lparr>ps_name = ''d'', ps_type = ''t'',
     ps_desc = [], ps_invoke = [], ps_qname = ''t::d'', ps_suitable = True, ps_attrs = []\<rparr>, pv_source = [],
     pv_get = (\<lambda>ns. ret rs), pv_set = (\<lambda>us. ret ())\<rparr>"

theorem provider_find_exact_witness:
  "provider_find (demo_provider [new_resource ''a'', new_resource ''b'']) ''b'' 3 = (Ok (Some (new_resource ''b'')), 3)"
proof -
  let ?p = "demo_provider [new_resource ''a'', new_resource ''b'']"
  have "provider_get ?p [''b''] 3 = (Ok [new_resource ''a'', new_resource ''b''], 3)"
    by (simp add: provider_get_def demo_provider_def start_def ret_def)
  from provider_find_exact [OF this, of "the (pv_spec ?p)"] show ?thesis
    by (simp add: demo_provider_def)
qed

subsection \<open>Pairing desired with current states\<close>

lemma build_updates_names:
  "u \<in> set (build_updates shoulds iss) \<Longrightarrow>
    upd_should u \<in> set shoulds \<and> upd_name u = res_name (upd_should u) \<and>
    (upd_is u \<in> set iss \<or> upd_is u = new_resource (upd_name u) \<and> upd_name u \<notin> res_name ` set iss)"
  by (induction shoulds) (auto simp: Let_def upd_name_def filter_empty_conv split: if_splits)

lemma build_updates_each:
  "should \<in> set shoulds \<Longrightarrow> \<exists>u \<in> set (build_updates shoulds iss). upd_should u = should"
  by (induction shoulds) (force simp: Let_def filter_empty_conv)+

lemma filter_distinct_key:
  "distinct (map f xs) \<Longrightarrow> length (filter (\<lambda>x. f x = k) xs) \<le> 1"
  by (induction xs) (auto simp: filter_empty_conv image_iff)

lemma build_updates_single:
  assumes "distinct (map res_name iss)"
  shows "map upd_should (build_updates shoulds iss) = shoulds"
proof (induction shoulds)
  case (Cons s ss)
  have "length (filter (\<lambda>i. res_name i = res_name s) iss) \<le> 1"
    using assms by (rule filter_distinct_key)
  then have "filter (\<lambda>i. res_name i = res_name s) iss = [] \<or>
      (\<exists>i. filter (\<lambda>i. res_name i = res_name s) iss = [i])"
    by (cases "filter (\<lambda>i. res_name i = res_name s) iss") (auto simp: le_Suc_eq)
  with Cons.IH show ?case by (auto simp: Let_def)
qed simp



text \<open>The provider's \<open>set\<close> is called with several updates for one name when \<open>get\<close> reports
  that name more than once: nothing in \<open>set\<close> looks for duplicates.\<close>

lemma build_updates_duplicates:
  "build_updates [should] [a, b] = [\<lparr>upd_is = a, upd_should = should\<rparr>, \<lparr>upd_is = b, upd_should = should\<rparr>]"
  if "res_name a = res_name should" "res_name b = res_name should"
  using that by simp

subsection \<open>The resource after an update\<close>

fun last_change :: "changes \<Rightarrow> string \<Rightarrow> value_base option" where
  "last_change [] k = None"
| "last_change (ch # chgs) k = (case last_change chgs k of
      Some v \<Rightarrow> Some v
    | None \<Rightarrow> if ch_attr ch = k then Some (ch_is ch) else None)"

lemma apply_changes_eq:
  assumes "''name'' \<notin> ch_attr ` set chgs"
  shows "\<exists>r'. apply_changes chgs r = Ok r' \<and> res_name r' = res_name r \<and>
    (\<forall>k. omap_find (attrs r') k = (case last_change chgs k of Some v \<Rightarrow> Some v | None \<Rightarrow> omap_find (attrs r) k)) \<and>
    (resource_ok r \<longrightarrow> resource_ok r')"
  using assms
proof (induction chgs arbitrary: r)
  case (Cons ch chgs)
  then have other: "ch_attr ch \<noteq> ''name''" by auto
  let ?r = "put_attr (ch_attr ch) (ch_is ch) r"
  from Cons obtain r' where "apply_changes chgs ?r = Ok r'" "res_name r' = res_name ?r"
      "\<forall>k. omap_find (attrs r') k = (case last_change chgs k of Some v \<Rightarrow> Some v | None \<Rightarrow> omap_find (attrs ?r) k)"
      "resource_ok ?r \<longrightarrow> resource_ok r'"
    using Cons.IH [of ?r] Cons.prems by auto
  with other show ?case
    by (auto simp: res_set_def is_name_def resource_ok_put split: option.splits)
qed simp

lemma create_updated_eq:
  assumes "''name'' \<notin> ch_attr ` set chgs"
  shows "\<exists>r. create_updated u chgs = Ok r \<and> res_name r = upd_name u \<and>
    (if wants_absent u then attrs r = [(''ensure'', VStr ''absent'')]
     else \<forall>k. omap_find (attrs r) k = (case last_change chgs k of
            Some v \<Rightarrow> Some v
          | None \<Rightarrow> (case omap_find (attrs (upd_is u)) k of
              Some v \<Rightarrow> Some v
            | None \<Rightarrow> omap_find (attrs (upd_should u)) k)))"
proof (cases "wants_absent u")
  case True
  then show ?thesis
    by (auto simp: create_updated_def wants_absent_def res_set_def is_name_def put_attr_def new_resource_def)
next
  case False
  let ?r = "\<lparr>res_name = upd_name u,
      attrs = omap_insert_all (attrs (upd_should u)) (omap_insert_all (attrs (upd_is u)) [])\<rparr>"
  obtain r' where r': "apply_changes chgs ?r = Ok r'" "res_name r' = upd_name u"
      "\<And>k. omap_find (attrs r') k =
        (case last_change chgs k of Some v \<Rightarrow> Some v | None \<Rightarrow> omap_find (attrs ?r) k)"
    using apply_changes_eq [OF assms, of ?r] by auto
  have "create_updated u chgs = Ok r'"
    using False r'(1) by (auto simp: create_updated_def wants_absent_def)
  moreover have "omap_find (attrs ?r) k = (case omap_find (attrs (upd_is u)) k of
      Some v \<Rightarrow> Some v | None \<Rightarrow> omap_find (attrs (upd_should u)) k)" for k
    by (simp add: omap_find_insert_all split: option.splits)
  ultimately show ?thesis
    using r'(2) False by (auto simp: r'(3) split: option.split)
qed

text \<open>The resource shown after an update has, for every attribute, the last value recorded
  as a change; without a recorded change it keeps the current value, and takes the desired value
  only for an attribute that had none. An update that leaves the resource absent shows
  nothing but \<open>ensure\<close>.\<close>

theorem create_updated_values:
  assumes "''name'' \<notin> ch_attr ` set chgs"
  shows "\<exists>r. create_updated u chgs = Ok r \<and> res_name r = upd_name u \<and>
    (if wants_absent u then attrs r = [(''ensure'', VStr ''absent'')]
     else \<forall>k. omap_find (attrs r) k = (case last_change chgs k of
            Some v \<Rightarrow> Some v
          | None \<Rightarrow> (case omap_find (attrs (upd_is u)) k of
              Some v \<Rightarrow> Some v
            | None \<Rightarrow> omap_find (attrs (upd_should u)) k)))"
  using assms by (rule create_updated_eq)

text \<open>The documentation of \<open>create(upd, chgs)\<close> says that desired values take precedence over
  current ones; the code inserts the current ones first and \<open>insert\<close> does not overwrite,
  so an attribute that changed without a recorded change is shown with its old value.\<close>

theorem create_updated_keeps_is:
  assumes "\<not> wants_absent u" and "omap_find (attrs (upd_is u)) k = Some old"
    and "omap_find (attrs (upd_should u)) k = Some new"
  shows "\<exists>r. create_updated u [] = Ok r \<and> omap_find (attrs r) k = Some old"
  using create_updated_eq [of "[]" u] assms by auto

theorem create_updated_keeps_is_witness:
  "\<exists>r. create_updated \<lparr>upd_is = \<lparr>res_name = ''f'', attrs = [(''mode'', VStr ''0644'')]\<rparr>,
       upd_should = \<lparr>res_name = ''f'', attrs = [(''mode'', VStr ''0600'')]\<rparr>\<rparr> [] = Ok r \<and>
     omap_find (attrs r) ''mode'' = Some (VStr ''0644'')"
  by (rule create_updated_keeps_is) (simp_all add: wants_absent_def val_at_def)

theorem create_updated_values_witness:
  "\<exists>r. create_updated \<lparr>upd_is = \<lparr>res_name = ''f'', attrs = [(''mode'', VStr ''0644'')]\<rparr>,
       upd_should = \<lparr>res_name = ''f'', attrs = [(''mode'', VStr ''0600'')]\<rparr>\<rparr>
       [mk_change ''mode'' (VStr ''0600'') (VStr ''0644'')] = Ok r \<and>
     omap_find (attrs r) ''mode'' = Some (VStr ''0600'')"
  using create_updated_values [of "[mk_change ''mode'' (VStr ''0600'') (VStr ''0644'')]"
      "\<lparr>upd_is = \<lparr>res_name = ''f'', attrs = [(''mode'', VStr ''0644'')]\<rparr>,
       upd_should = \<lparr>res_name = ''f'', attrs = [(''mode'', VStr ''0600'')]\<rparr>\<rparr>"]
  by (auto simp: wants_absent_def val_at_def)

end
