(* ===== verification/Interfaces.thy ===== *)
theory Interfaces
  imports Provider
begin

section \<open>The contracts providers owe the framework\<close>

text \<open>
  \<open>provider.hpp\<close> states what the virtual operations promise; the base class relies on it. The
  contracts are locales: \<open>lookup_provider\<close> (a lookup reports at least the requested names),
  \<open>update_provider\<close> (handling one update touches only the changes of its resource) and
  \<open>settled_provider\<close> (an update that asks for nothing new changes nothing). Each provider's
  theory discharges the contracts its code meets; a provider that misses one has the theorem
  that shows how.
\<close>

definition with_ctx :: "(ctx \<Rightarrow> ctx) \<Rightarrow> 'w pst \<Rightarrow> 'w pst" where
  "with_ctx g s = s\<lparr>p_ctx := g (p_ctx s)\<rparr>"

text \<open>Running an operation of the managed system from a provider.\<close>

definition on_world :: "('w, 'a) prog \<Rightarrow> ('w pst, 'a) prog" where
  "on_world m s = (case m (p_world s) of (r, w) \<Rightarrow> (r, s\<lparr>p_world := w\<rparr>))"

lemma p_with_ctx [simp]:
  "p_ctx (with_ctx g s) = g (p_ctx s)" "p_world (with_ctx g s) = p_world s"
  by (simp_all add: with_ctx_def)

lemma on_world_ctx: "on_world m s = (r, s') \<Longrightarrow> p_ctx s' = p_ctx s"
  by (auto simp: on_world_def split: prod.splits)

lemma on_world_ctx_snd [simp]: "p_ctx (snd (on_world m s)) = p_ctx s"
  by (simp add: on_world_def split: prod.split)

lemma on_world_eq: "on_world m s = (r, t) \<longleftrightarrow> (\<exists>w. m (p_world s) = (r, w) \<and> t = s\<lparr>p_world := w\<rparr>)"
  by (auto simp: on_world_def split: prod.splits)

subsection \<open>Code that leaves the changes of a name alone\<close>

named_theorems keeps_intros "rules for keeps_changes"

definition keeps_changes :: "string \<Rightarrow> ('w pst, 'a) prog \<Rightarrow> bool" where
  "keeps_changes n m \<longleftrightarrow> (\<forall>s. changes_of (p_ctx (snd (m s))) n = changes_of (p_ctx s) n)"

lemma keeps_changesD: "keeps_changes n m \<Longrightarrow> m s = (r, s') \<Longrightarrow> changes_of (p_ctx s') n = changes_of (p_ctx s) n"
  unfolding keeps_changes_def by (metis snd_conv)

lemma keeps_bnd [keeps_intros]:
  assumes "keeps_changes n m" and "\<And>a. keeps_changes n (f a)"
  shows "keeps_changes n (bnd m f)"
  unfolding keeps_changes_def
proof
  fix s
  obtain r s' where m: "m s = (r, s')" by fastforce
  with keeps_changesD [OF assms(1) m] assms(2) show "changes_of (p_ctx (snd (bnd m f s))) n = changes_of (p_ctx s) n"
    by (cases r) (simp_all add: bnd_def keeps_changes_def)
qed

lemma keeps_simple [keeps_intros]:
  "keeps_changes n (ret a)" "keeps_changes n (fail e)" "keeps_changes n (throw x)" "keeps_changes n (lift r)"
  "keeps_changes n (on_world m)"
  by (simp_all add: keeps_changes_def ret_def fail_def throw_def lift_def)

lemma keeps_if [keeps_intros]:
  "(b \<Longrightarrow> keeps_changes n m) \<Longrightarrow> (\<not> b \<Longrightarrow> keeps_changes n m') \<Longrightarrow> keeps_changes n (if b then m else m')"
  by simp

lemma keeps_option [keeps_intros]:
  "(x = None \<Longrightarrow> keeps_changes n m) \<Longrightarrow> (\<And>a. x = Some a \<Longrightarrow> keeps_changes n (f a)) \<Longrightarrow>
    keeps_changes n (case x of None \<Rightarrow> m | Some a \<Rightarrow> f a)"
  by (cases x) simp_all

lemma add_absent_covers: "set ns \<subseteq> res_name ` set (add_absent rs ns)"
proof -
  have "res_name ` set (add_absent rs ns) = res_name ` set rs \<union> (set ns - res_name ` set rs)"
    by (simp add: add_absent_eq missing_names_props(1) image_Un image_image)
  then show ?thesis by auto
qed

text \<open>Looking up one name in a list that was completed with absent resources.\<close>

lemma filter_add_absent:
  "filter (\<lambda>r. res_name r = n) (add_absent rs [n]) =
     (if n \<in> res_name ` set rs then filter (\<lambda>r. res_name r = n) rs else [absent_resource n])"
  by (auto simp: add_absent_eq filter_empty_conv)

text \<open>A provider whose \<open>get\<close> turns every entry of a table with distinct keys into a resource.\<close>

lemma filter_table_entry:
  assumes "distinct (map key ps)" and name: "\<And>p. res_name (f p) = key p"
  shows "filter (\<lambda>r. res_name r = n) (add_absent (map f ps) [n]) =
    [case find (\<lambda>p. key p = n) ps of Some p \<Rightarrow> f p | None \<Rightarrow> absent_resource n]"
proof -
  have "filter (\<lambda>r. res_name r = n) (map f ps) =
      (case find (\<lambda>p. key p = n) ps of Some p \<Rightarrow> [f p] | None \<Rightarrow> [])"
    using assms(1)
  proof (induction ps)
    case (Cons p ps)
    then show ?case
      by (auto simp: name filter_empty_conv find_None_iff split: option.splits dest!: find_Some_member)
  qed simp
  moreover have "n \<in> res_name ` set (map f ps) \<longleftrightarrow> find (\<lambda>p. key p = n) ps \<noteq> None"
    by (auto simp: name find_None_iff image_iff)
  ultimately show ?thesis
    by (cases "find (\<lambda>p. key p = n) ps") (simp_all only: filter_add_absent, simp_all)
qed

locale lookup_provider =
  fixes get :: "string list \<Rightarrow> ('w pst, resource list) prog"
  assumes get_covers: "get ns s = (Ok rs, s') \<Longrightarrow> set ns \<subseteq> res_name ` set rs"
    and get_keeps_changes: "get ns s = (r, s') \<Longrightarrow> p_ctx s' = p_ctx s"
begin

lemma updates_reported:
  assumes "get (map res_name shoulds) s = (Ok iss, s')" and "u \<in> set (build_updates shoulds iss)"
  shows "upd_is u \<in> set iss"
proof -
  from build_updates_names [OF assms(2)]
  have "upd_should u \<in> set shoulds" and name: "upd_name u = res_name (upd_should u)"
    and "upd_is u \<in> set iss \<or> upd_name u \<notin> res_name ` set iss" by auto
  moreover from \<open>upd_should u \<in> set shoulds\<close> get_covers [OF assms(1)]
  have "upd_name u \<in> res_name ` set iss" by (auto simp: name)
  ultimately show ?thesis by blast
qed

lemma find_found:
  assumes "pv_get p = get" and "provider_find p n w = (Ok res, w')"
  shows "\<exists>r. res = Some r \<and> res_name r = n"
proof -
  obtain rs s' where rs: "get [n] (start p w) = (Ok rs, s')"
      and find: "find_unique (provider_qname p) n rs None = Ok res"
    using assms by (auto simp: provider_find_def provider_get_def obind_Ok_iff split: prod.splits)
  from get_covers [OF rs] have "filter (\<lambda>r. res_name r = n) rs \<noteq> []"
    by (auto simp: filter_empty_conv)
  with find show ?thesis
    by (cases "filter (\<lambda>r. res_name r = n) rs")
      (auto simp: find_unique_eq obind_Ok_iff filter_eq_Cons_iff split: list.splits)
qed

end

locale update_provider =
  fixes set_one :: "update \<Rightarrow> ('w pst, unit) prog"
  assumes set_frame: "set_one u s = (r, s') \<Longrightarrow> n \<noteq> upd_name u \<Longrightarrow>
    changes_of (p_ctx s') n = changes_of (p_ctx s) n"
begin

lemma set_all_frame:
  assumes "for_each set_one us s = (r, s')" and "n \<notin> upd_name ` set us"
  shows "changes_of (p_ctx s') n = changes_of (p_ctx s) n"
proof (rule for_each_preserves [OF assms(1), where P = "\<lambda>t. changes_of (p_ctx t) n = changes_of (p_ctx s) n"])
  fix u t r t'
  assume "u \<in> set us" "changes_of (p_ctx t) n = changes_of (p_ctx s) n" "set_one u t = (r, t')"
  with assms(2) show "changes_of (p_ctx t') n = changes_of (p_ctx s) n"
    using set_frame by (metis image_eqI)
qed simp

end

locale settled_provider = update_provider +
  fixes settled :: "update \<Rightarrow> bool"
  assumes set_settled: "settled u \<Longrightarrow> changes_of (p_ctx s) (upd_name u) = [] \<Longrightarrow> \<exists>s'. set_one u s = (Ok (), s') \<and> p_world s' = p_world s \<and>
    changes_of (p_ctx s') = changes_of (p_ctx s)"
begin

lemma set_all_settled:
  "(\<And>u. u \<in> set us \<Longrightarrow> settled u) \<Longrightarrow> (\<And>u. u \<in> set us \<Longrightarrow> changes_of (p_ctx s) (upd_name u) = []) \<Longrightarrow>
    \<exists>s'. for_each set_one us s = (Ok (), s') \<and> p_world s' = p_world s \<and>
      changes_of (p_ctx s') = changes_of (p_ctx s)"
proof (induction us arbitrary: s)
  case (Cons u us)
  obtain s1 where s1: "set_one u s = (Ok (), s1)" "p_world s1 = p_world s"
      "changes_of (p_ctx s1) = changes_of (p_ctx s)"
    using set_settled [of u s] Cons.prems by auto
  obtain s2 where "for_each set_one us s1 = (Ok (), s2)" "p_world s2 = p_world s1"
      "changes_of (p_ctx s2) = changes_of (p_ctx s1)"
    using Cons.IH [of s1] Cons.prems by (auto simp: s1(3))
  with s1 show ?case by (simp add: bnd_def)
qed (simp add: ret_def)

end

end
