(* ===== verification/Target.thy ===== *)
theory Target
  imports Result
begin

section \<open>Commands and targets\<close>

text \<open>
  \<open>lib/inc/libral/command.hpp\<close>, \<open>lib/src/command.cc\<close>, \<open>lib/inc/libral/target/*.hpp\<close>,
  \<open>lib/src/target/local.cc\<close>, \<open>lib/src/target/ssh.cc\<close>: running commands on the managed system,
  directly or through ssh. Starting processes is leatherman's work and joining paths is Boost's,
  so those are parameters: \<open>ex_execute\<close> runs a file with arguments and an optional standard
  input, \<open>ex_each_line\<close> hands back the lines a run prints (tagged by stream, in order) and its
  success, given whether the callbacks stopped it.
\<close>

record cmd_result =
  cr_success :: bool
  cr_output :: string
  cr_error :: string
  cr_exit_code :: int

type_synonym lines = "(bool \<times> string) list"

record 'w exe_ops =
  ex_execute :: "string \<Rightarrow> string list \<Rightarrow> string option \<Rightarrow> 'w \<Rightarrow> cmd_result \<times> 'w"
  ex_each_line :: "string \<Rightarrow> string list \<Rightarrow> 'w \<Rightarrow> (lines \<times> (bool \<Rightarrow> bool)) \<times> 'w"
  ex_which :: "string \<Rightarrow> 'w \<Rightarrow> string"
  ex_access_x :: "string \<Rightarrow> 'w \<Rightarrow> bool"

text \<open>The operations of a target that commands use.\<close>

record 'w target =
  t_which :: "string \<Rightarrow> 'w \<Rightarrow> string \<times> 'w"
  t_upload :: "string \<Rightarrow> ('w, string) prog"
  t_executable :: "string \<Rightarrow> 'w \<Rightarrow> bool"
  t_execute :: "string \<Rightarrow> string list \<Rightarrow> string option \<Rightarrow> 'w \<Rightarrow> cmd_result \<times> 'w"
  t_each_line :: "string \<Rightarrow> string list \<Rightarrow> 'w \<Rightarrow> (lines \<times> (bool \<Rightarrow> bool)) \<times> 'w"

subsection \<open>Commands\<close>

record command =
  c_cmd :: string
  c_needs_upload :: bool

definition command_upload :: "'w target \<Rightarrow> (command \<times> 'w, unit) prog" where
  "command_upload tgt = (\<lambda>(c, w).
     if c_needs_upload c
     then (case t_upload tgt (c_cmd c) w of
             (Ok abs_cmd, w') \<Rightarrow> (Ok (), (c\<lparr>c_cmd := abs_cmd, c_needs_upload := False\<rparr>, w'))
           | (Err e, w') \<Rightarrow> (Err e, (c, w'))
           | (Exn x, w') \<Rightarrow> (Exn x, (c, w')))
     else (Ok (), (c, w)))"

definition command_executable :: "'w target \<Rightarrow> (command \<times> 'w, bool) prog" where
  "command_executable tgt s =
     (case command_upload tgt s of
        (Ok _, (c, w)) \<Rightarrow> (Ok (t_executable tgt (c_cmd c) w), (c, w))
      | (Err e, s') \<Rightarrow> (Ok False, s')
      | (Exn x, s') \<Rightarrow> (Exn x, s'))"

text \<open>The error text for a command that failed.\<close>

definition run_error :: "string \<Rightarrow> cmd_result \<Rightarrow> string" where
  "run_error cmd st =
     ''Command '' @ cmd @ '' failed with status code '' @ show_int (cr_exit_code st) @ ''.'' @
     (if cr_output st = []
      then (if cr_error st = [] then [] else '' It printed on stderr '' @ quoted (cr_error st))
      else (if cr_error st = []
            then '' It printed on stdout '' @ quoted (cr_output st)
            else '' It printed on stdout '' @ quoted (cr_output st) @ '' and on stderr '' @ quoted (cr_error st)))"

definition command_run :: "'w target \<Rightarrow> string list \<Rightarrow> (command \<times> 'w, unit) prog" where
  "command_run tgt args = bnd (command_upload tgt) (\<lambda>_ (c, w).
     (case t_execute tgt (c_cmd c) args None w of (st, w') \<Rightarrow>
        (if cr_success st then Ok () else Err (run_error (c_cmd c) st), (c, w'))))"

definition command_execute :: "'w target \<Rightarrow> string list \<Rightarrow> string option \<Rightarrow> (command \<times> 'w, cmd_result) prog" where
  "command_execute tgt args stdin s =
     (case command_upload tgt s of
        (Ok _, (c, w)) \<Rightarrow> (case t_execute tgt (c_cmd c) args stdin w of (st, w') \<Rightarrow> (Ok st, (c, w')))
      | (Err e, s') \<Rightarrow> (Ok \<lparr>cr_success = False, cr_output = ''Upload failed'', cr_error = e, cr_exit_code = 1\<rparr>, s')
      | (Exn x, s') \<Rightarrow> (Exn x, s'))"

text \<open>
  The lines of a run are handed to the callbacks in order until one returns false; the result is
  the success of the run, and an upload failure makes it false before any line.
\<close>

fun feed_lines :: "(string \<Rightarrow> ('s, bool) prog) \<Rightarrow> (string \<Rightarrow> ('s, bool) prog) \<Rightarrow> lines \<Rightarrow> ('s, bool) prog" where
  "feed_lines out_cb err_cb [] = ret True"
| "feed_lines out_cb err_cb ((out, line) # ls) =
     bnd ((if out then out_cb else err_cb) line) (\<lambda>go. if go then feed_lines out_cb err_cb ls else ret False)"

definition command_each_line ::
  "'w target \<Rightarrow> string list \<Rightarrow> (string \<Rightarrow> ('s, bool) prog) \<Rightarrow> (string \<Rightarrow> ('s, bool) prog) \<Rightarrow>
    ('s \<times> command \<times> 'w, bool) prog" where
  "command_each_line tgt args out_cb err_cb = (\<lambda>(cb, s).
     case command_upload tgt s of
        (Ok _, (c, w)) \<Rightarrow>
          (case t_each_line tgt (c_cmd c) args w of ((ls, status), w') \<Rightarrow>
             (case feed_lines out_cb err_cb ls cb of
                (Ok all, cb') \<Rightarrow> (Ok (status (\<not> all)), (cb', c, w'))
              | (Err e, cb') \<Rightarrow> (Err e, (cb', c, w'))
              | (Exn x, cb') \<Rightarrow> (Exn x, (cb', c, w'))))
      | (Err e, s') \<Rightarrow> (Ok False, (cb, s'))
      | (Exn x, s') \<Rightarrow> (Exn x, (cb, s')))"

subsection \<open>The local target\<close>

definition local_which :: "'w exe_ops \<Rightarrow> string \<Rightarrow> 'w \<Rightarrow> string \<times> 'w" where
  "local_which ex cmd w = (ex_which ex cmd w, w)"

definition local_command :: "'w exe_ops \<Rightarrow> string \<Rightarrow> 'w \<Rightarrow> command option \<times> 'w" where
  "local_command ex cmd w = (case local_which ex cmd w of (abs_cmd, w') \<Rightarrow>
     (if abs_cmd = [] then None else Some \<lparr>c_cmd = abs_cmd, c_needs_upload = False\<rparr>, w'))"

definition local_script :: "'w exe_ops \<Rightarrow> string \<Rightarrow> 'w \<Rightarrow> command option \<times> 'w" where
  "local_script ex cmd w = local_command ex cmd w"

definition local_upload :: "string \<Rightarrow> ('w, string) prog" where
  "local_upload cmd = ret cmd"

text \<open>Running a command object that a provider keeps.\<close>

definition run_command :: "'w target \<Rightarrow> command \<Rightarrow> string list \<Rightarrow> ('w, unit) prog" where
  "run_command tgt c args w = (case command_run tgt args (c, w) of (r, (c', w')) \<Rightarrow> (r, w'))"

definition local_target :: "'w exe_ops \<Rightarrow> 'w target" where
  "local_target ex = \<lparr>t_which = local_which ex, t_upload = local_upload,
     t_executable = ex_access_x ex, t_execute = ex_execute ex, t_each_line = ex_each_line ex\<rparr>"

subsection \<open>The ssh target\<close>

record path_ops =
  pa_filename :: "string \<Rightarrow> string"
  pa_join :: "string \<Rightarrow> string \<Rightarrow> string"

record ssh_conf =
  sc_target :: string
  sc_sudo :: bool
  sc_keep :: bool

text \<open>The object's mutable state is the temporary directory, empty until it is created.\<close>

record 'w ssh_state =
  ss_tmpdir :: string
  ss_world :: 'w

definition ssh_opts :: "string list" where
  "ssh_opts = [''-o'', ''ControlMaster=auto'', ''-o'', ''ControlPersist=60s'',
     ''-o'', ''ControlPath=~/.ssh/cm-%r@%h:%p'']"

definition ssh_run :: "'w exe_ops \<Rightarrow> string \<Rightarrow> string list \<Rightarrow> string option \<Rightarrow>
    'w ssh_state \<Rightarrow> cmd_result \<times> 'w ssh_state" where
  "ssh_run ex file args stdin s =
     (case ex_execute ex file (ssh_opts @ args) stdin (ss_world s) of
        (res, w) \<Rightarrow> (res, s\<lparr>ss_world := w\<rparr>))"

definition sudo_args :: "ssh_conf \<Rightarrow> string list" where
  "sudo_args sc = (if sc_sudo sc then [''sudo''] else [])"

definition run_ssh :: "'w exe_ops \<Rightarrow> ssh_conf \<Rightarrow> string list \<Rightarrow> string option \<Rightarrow>
    'w ssh_state \<Rightarrow> cmd_result \<times> 'w ssh_state" where
  "run_ssh ex sc args stdin = ssh_run ex ''ssh'' ([sc_target sc] @ sudo_args sc @ args) stdin"

definition ssh_execute :: "'w exe_ops \<Rightarrow> ssh_conf \<Rightarrow> string \<Rightarrow> string list \<Rightarrow> string option \<Rightarrow>
    'w ssh_state \<Rightarrow> cmd_result \<times> 'w ssh_state" where
  "ssh_execute ex sc cmd args stdin = ssh_run ex ''ssh'' ([sc_target sc] @ sudo_args sc @ [cmd] @ args) stdin"

definition ssh_each_line :: "'w exe_ops \<Rightarrow> ssh_conf \<Rightarrow> string \<Rightarrow> string list \<Rightarrow>
    'w ssh_state \<Rightarrow> (lines \<times> (bool \<Rightarrow> bool)) \<times> 'w ssh_state" where
  "ssh_each_line ex sc cmd args s =
     (case ex_each_line ex ''ssh'' ([sc_target sc] @ sudo_args sc @ [cmd] @ args) (ss_world s) of
        (r, w) \<Rightarrow> (r, s\<lparr>ss_world := w\<rparr>))"

definition ssh_which :: "'w exe_ops \<Rightarrow> ssh_conf \<Rightarrow> string \<Rightarrow> 'w ssh_state \<Rightarrow> string \<times> 'w ssh_state" where
  "ssh_which ex sc cmd s = (case run_ssh ex sc [''which'', cmd] None s of (res, s') \<Rightarrow>
     (if cr_success res then cr_output res else [], s'))"

definition ssh_command :: "'w exe_ops \<Rightarrow> ssh_conf \<Rightarrow> string \<Rightarrow> 'w ssh_state \<Rightarrow> command option \<times> 'w ssh_state" where
  "ssh_command ex sc cmd s = (case ssh_which ex sc cmd s of (abs_cmd, s') \<Rightarrow>
     (if abs_cmd = [] then None else Some \<lparr>c_cmd = abs_cmd, c_needs_upload = False\<rparr>, s'))"

definition ssh_script :: "string \<Rightarrow> command option" where
  "ssh_script cmd = Some \<lparr>c_cmd = cmd, c_needs_upload = True\<rparr>"

definition ssh_connect :: "'w exe_ops \<Rightarrow> ssh_conf \<Rightarrow> ('w ssh_state, unit) prog" where
  "ssh_connect ex sc s = (case run_ssh ex sc [''/bin/echo'', ''inlikeflynn''] None s of (res, s') \<Rightarrow>
     (if cr_success res \<and> cr_output res = ''inlikeflynn'' then Ok ()
      else Err (cr_output res @ [CHR 0x0A] @ cr_error res), s'))"

definition ssh_tmpdir :: "'w exe_ops \<Rightarrow> ssh_conf \<Rightarrow> ('w ssh_state, string) prog" where
  "ssh_tmpdir ex sc s =
     (if ss_tmpdir s = []
      then (case ssh_run ex ''ssh'' [sc_target sc, ''mktemp'', ''-t'', ''-d'', ''ralXXXXXX''] None s of (res, s') \<Rightarrow>
              if \<not> cr_success res then (Err (cr_error res), s')
              else (Ok (cr_output res), s'\<lparr>ss_tmpdir := cr_output res\<rparr>))
      else (Ok (ss_tmpdir s), s))"

definition ssh_upload :: "'w exe_ops \<Rightarrow> path_ops \<Rightarrow> ssh_conf \<Rightarrow> string \<Rightarrow> ('w ssh_state, string) prog" where
  "ssh_upload ex pa sc cmd = bnd (ssh_tmpdir ex sc) (\<lambda>tmp s.
     let path = pa_join pa tmp (pa_filename pa cmd) in
     case ssh_run ex ''scp'' [''-pq'', cmd, sc_target sc @ '':'' @ path] None s of (res, s1) \<Rightarrow>
       if \<not> cr_success res then (Err (cr_error res), s1)
       else (case run_ssh ex sc [''chmod'', ''a+x'', path] None s1 of (res2, s2) \<Rightarrow>
         if \<not> cr_success res2 then (Err (cr_error res2), s2) else (Ok path, s2)))"

definition ssh_read :: "'w exe_ops \<Rightarrow> ssh_conf \<Rightarrow> string \<Rightarrow> ('w ssh_state, string) prog" where
  "ssh_read ex sc remote_path s =
     (case run_ssh ex sc [''dd'', ''status=none'', ''if='' @ remote_path] None s of (res, s') \<Rightarrow>
        (if \<not> cr_success res then Err (cr_output res @ [CHR 0x0A] @ cr_error res)
         else Ok (cr_output res), s'))"

definition write_script :: "string \<Rightarrow> string \<Rightarrow> string" where
  "write_script remote_path tmppath =
     ''r='' @ quoted remote_path @ ''; t='' @ quoted tmppath @ '';'' @ [CHR 0x0A] @
     ''[ -f '' @ [CHR 0x22] @ ''$r'' @ [CHR 0x22] @ '' ] && ( chmod --reference='' @ [CHR 0x22] @ ''$r'' @ [CHR 0x22] @
     '' '' @ [CHR 0x22] @ ''$t'' @ [CHR 0x22] @ ''; chown --quiet --reference='' @ [CHR 0x22] @ ''$r'' @ [CHR 0x22] @
     '' '' @ [CHR 0x22] @ ''$t'' @ [CHR 0x22] @ ''; true);'' @ [CHR 0x0A] @
     ''mv '' @ [CHR 0x22] @ ''$t'' @ [CHR 0x22] @ '' '' @ [CHR 0x22] @ ''$r'' @ [CHR 0x22] @ [CHR 0x0A]"

definition ssh_write :: "'w exe_ops \<Rightarrow> path_ops \<Rightarrow> ssh_conf \<Rightarrow> string \<Rightarrow> string \<Rightarrow> ('w ssh_state, unit) prog" where
  "ssh_write ex pa sc content remote_path = bnd (ssh_tmpdir ex sc) (\<lambda>tmp s.
     let tmppath = pa_join pa tmp (pa_filename pa remote_path) in
     case ssh_run ex ''ssh'' ([sc_target sc] @ sudo_args sc @ [''dd'', ''status=none'', ''of='' @ tmppath]) (Some content) s of (res, s1) \<Rightarrow>
       if \<not> cr_success res then (Err (cr_output res @ [CHR 0x0A] @ cr_error res), s1)
       else (case run_ssh ex sc [''/bin/sh''] (Some (write_script remote_path tmppath)) s1 of (res2, s2) \<Rightarrow>
         if \<not> cr_success res2 then (Err (cr_error res2), s2) else (Ok (), s2)))"

text \<open>The destructor.\<close>

definition ssh_delete :: "'w exe_ops \<Rightarrow> ssh_conf \<Rightarrow> 'w ssh_state \<Rightarrow> 'w ssh_state" where
  "ssh_delete ex sc s =
     (if \<not> sc_keep sc \<and> ss_tmpdir s \<noteq> []
      then snd (run_ssh ex sc [''rm'', ''-rf'', ss_tmpdir s] None s) else s)"

definition ssh_target :: "'w exe_ops \<Rightarrow> path_ops \<Rightarrow> ssh_conf \<Rightarrow> 'w ssh_state target" where
  "ssh_target ex pa sc = \<lparr>t_which = ssh_which ex sc, t_upload = ssh_upload ex pa sc,
     t_executable = (\<lambda>_ _. True), t_execute = ssh_execute ex sc, t_each_line = ssh_each_line ex sc\<rparr>"

subsection \<open>Commands found on a target\<close>

text \<open>Both targets build the command object of an existing executable the same way.\<close>

locale command_source =
  fixes which :: "string \<Rightarrow> 'w \<Rightarrow> string \<times> 'w"
    and mk :: "string \<Rightarrow> 'w \<Rightarrow> command option \<times> 'w"
  assumes mk_which: "which n w = (p, w') \<Longrightarrow>
    mk n w = (if p = [] then None else Some \<lparr>c_cmd = p, c_needs_upload = False\<rparr>, w')"
begin

lemma mk_Some:
  "mk n w = (Some c, w') \<Longrightarrow> \<not> c_needs_upload c \<and> c_cmd c \<noteq> [] \<and> which n w = (c_cmd c, w')"
  by (cases "which n w") (auto simp: mk_which split: if_splits)

lemma mk_None_iff: "fst (mk n w) = None \<longleftrightarrow> fst (which n w) = []"
  by (cases "which n w") (auto simp: mk_which)

lemma mk_run:
  assumes "mk n w = (Some c, w')"
  shows "command_run tgt args (c, v) =
    (case t_execute tgt (c_cmd c) args None v of (st, v') \<Rightarrow>
       (if cr_success st then Ok () else Err (run_error (c_cmd c) st), (c, v')))"
  using mk_Some [OF assms] by (simp add: command_run_def command_upload_def bnd_def)

end

interpretation local_commands: command_source "local_which ex" "local_command ex" for ex
  by unfold_locales (simp add: local_command_def)

interpretation ssh_commands: command_source "ssh_which ex sc" "ssh_command ex sc" for ex sc
  by unfold_locales (simp add: ssh_command_def)

text \<open>An executable that a target finds is run in place on either target: the command
  object is built exactly when the search gave a path, it is never uploaded, running it is one
  execution of that path with the given arguments, and failing with a non-zero exit code
  is the only way to an error.\<close>

theorem found_command_runs_in_place:
  "(local_command ex n w = (Some c, w') \<longrightarrow> ex_which ex n w = c_cmd c \<and> c_cmd c \<noteq> [] \<and>
      command_run (local_target ex) args (c, v) =
        (case ex_execute ex (c_cmd c) args None v of (st, v') \<Rightarrow>
           (if cr_success st then Ok () else Err (run_error (c_cmd c) st), (c, v')))) \<and>
   (ssh_command ex sc n s = (Some c, s') \<longrightarrow> c_cmd c \<noteq> [] \<and>
      command_run (ssh_target ex pa sc) args (c, t) =
        (case run_ssh ex sc (c_cmd c # args) None t of (st, t') \<Rightarrow>
           (if cr_success st then Ok () else Err (run_error (c_cmd c) st), (c, t'))))"
proof (intro conjI impI)
  assume l: "local_command ex n w = (Some c, w')"
  from local_commands.mk_Some [OF l] show "ex_which ex n w = c_cmd c" "c_cmd c \<noteq> []"
    by (auto simp: local_which_def)
  from local_commands.mk_run [OF l, of "local_target ex" args v]
  show "command_run (local_target ex) args (c, v) =
        (case ex_execute ex (c_cmd c) args None v of (st, v') \<Rightarrow>
           (if cr_success st then Ok () else Err (run_error (c_cmd c) st), (c, v')))"
    by (simp add: local_target_def)
next
  assume r: "ssh_command ex sc n s = (Some c, s')"
  from ssh_commands.mk_Some [OF r] show "c_cmd c \<noteq> []" by simp
  from ssh_commands.mk_run [OF r, of "ssh_target ex pa sc" args t]
  show "command_run (ssh_target ex pa sc) args (c, t) =
        (case run_ssh ex sc (c_cmd c # args) None t of (st, t') \<Rightarrow>
           (if cr_success st then Ok () else Err (run_error (c_cmd c) st), (c, t')))"
    by (simp add: ssh_target_def ssh_execute_def run_ssh_def)
qed

definition demo_exe :: "nat exe_ops" where
  "demo_exe = \<lparr>ex_execute = (\<lambda>f args stdin w. (\<lparr>cr_success = True, cr_output = ''/tmp/x'', cr_error = [], cr_exit_code = 0\<rparr>, Suc w)),
     ex_each_line = (\<lambda>f args w. (([], \<lambda>_. True), w)), ex_which = (\<lambda>n w. ''/bin/'' @ n), ex_access_x = (\<lambda>f w. True)\<rparr>"

theorem found_command_runs_in_place_witness:
  "command_run (local_target demo_exe) [''/mnt''] (\<lparr>c_cmd = ''/bin/mount'', c_needs_upload = False\<rparr>, 4) =
     (Ok (), (\<lparr>c_cmd = ''/bin/mount'', c_needs_upload = False\<rparr>, 5))"
proof -
  have "local_command demo_exe ''mount'' 0 = (Some \<lparr>c_cmd = ''/bin/mount'', c_needs_upload = False\<rparr>, 0)"
    by (simp add: local_command_def local_which_def demo_exe_def)
  with found_command_runs_in_place [where ex = demo_exe and n = "''mount''" and w = 0
      and c = "\<lparr>c_cmd = ''/bin/mount'', c_needs_upload = False\<rparr>" and w' = 0 and args = "[''/mnt'']" and v = 4]
  show ?thesis by (simp add: demo_exe_def)
qed

subsection \<open>The temporary directory of an ssh session\<close>

text \<open>Every execution recorded, so that what a session does to the remote side can be stated.\<close>

datatype call = Call string "string list" "string option" cmd_result

definition logged :: "'w exe_ops \<Rightarrow> ('w \<times> call list) exe_ops" where
  "logged ex = \<lparr>ex_execute = (\<lambda>f a i (w, l). case ex_execute ex f a i w of (r, w') \<Rightarrow> (r, (w', l @ [Call f a i r]))),
     ex_each_line = (\<lambda>f a (w, l). case ex_each_line ex f a w of (r, w') \<Rightarrow> (r, (w', l))),
     ex_which = (\<lambda>n (w, l). ex_which ex n w),
     ex_access_x = (\<lambda>n (w, l). ex_access_x ex n w)\<rparr>"

definition session_log :: "('w \<times> call list) ssh_state \<Rightarrow> call list" where
  "session_log s = snd (ss_world s)"

fun created_dirs :: "ssh_conf \<Rightarrow> call list \<Rightarrow> string list" where
  "created_dirs sc [] = []"
| "created_dirs sc (Call f a i r # cs) =
     (if f = ''ssh'' \<and> a = ssh_opts @ [sc_target sc, ''mktemp'', ''-t'', ''-d'', ''ralXXXXXX''] \<and>
         cr_success r \<and> cr_output r \<noteq> []
      then cr_output r # created_dirs sc cs else created_dirs sc cs)"

text \<open>What a session can be asked to do, from a fresh object on.\<close>

inductive ssh_session :: "'w exe_ops \<Rightarrow> path_ops \<Rightarrow> ssh_conf \<Rightarrow> ('w \<times> call list) ssh_state \<Rightarrow> bool"
  for ex pa sc where
  fresh: "ssh_session ex pa sc \<lparr>ss_tmpdir = [], ss_world = (w, [])\<rparr>"
| upload: "ssh_session ex pa sc s \<Longrightarrow> ssh_upload (logged ex) pa sc cmd s = (r, s') \<Longrightarrow> ssh_session ex pa sc s'"
| store: "ssh_session ex pa sc s \<Longrightarrow> ssh_write (logged ex) pa sc content path s = (r, s') \<Longrightarrow> ssh_session ex pa sc s'"
| read: "ssh_session ex pa sc s \<Longrightarrow> ssh_read (logged ex) sc path s = (r, s') \<Longrightarrow> ssh_session ex pa sc s'"
| which: "ssh_session ex pa sc s \<Longrightarrow> ssh_which (logged ex) sc cmd s = (p, s') \<Longrightarrow> ssh_session ex pa sc s'"
| connect: "ssh_session ex pa sc s \<Longrightarrow> ssh_connect (logged ex) sc s = (r, s') \<Longrightarrow> ssh_session ex pa sc s'"
| execute: "ssh_session ex pa sc s \<Longrightarrow> cmd \<noteq> ''mktemp'' \<Longrightarrow>
    ssh_execute (logged ex) sc cmd args stdin s = (res, s') \<Longrightarrow> ssh_session ex pa sc s'"

definition tmpdir_inv :: "ssh_conf \<Rightarrow> ('w \<times> call list) ssh_state \<Rightarrow> bool" where
  "tmpdir_inv sc s \<longleftrightarrow>
     created_dirs sc (session_log s) = (if ss_tmpdir s = [] then [] else [ss_tmpdir s])"

lemma created_dirs_append: "created_dirs sc (xs @ ys) = created_dirs sc xs @ created_dirs sc ys"
  by (induction sc xs rule: created_dirs.induct) auto

lemma ssh_run_logged:
  "ssh_run (logged ex) f a i s = (r, s') \<Longrightarrow>
    ss_tmpdir s' = ss_tmpdir s \<and> session_log s' = session_log s @ [Call f (ssh_opts @ a) i r]"
  by (auto simp: ssh_run_def logged_def session_log_def split: prod.splits)

text \<open>A run of anything but the \<open>mktemp\<close> of \<open>tmpdir\<close> keeps the invariant.\<close>

lemma run_keeps_inv:
  assumes "ssh_run (logged ex) f a i s = (r, s')" and "tmpdir_inv sc s"
    and "f \<noteq> ''ssh'' \<or> a \<noteq> [sc_target sc, ''mktemp'', ''-t'', ''-d'', ''ralXXXXXX'']"
  shows "tmpdir_inv sc s' \<and> ss_tmpdir s' = ss_tmpdir s"
  using ssh_run_logged [OF assms(1)] assms(2,3)
  by (auto simp: tmpdir_inv_def created_dirs_append)

lemma run_ssh_keeps_inv:
  assumes "run_ssh (logged ex) sc (c # args) i s = (r, s')" and "tmpdir_inv sc s" and "c \<noteq> ''mktemp''"
  shows "tmpdir_inv sc s' \<and> ss_tmpdir s' = ss_tmpdir s"
  using assms by (intro run_keeps_inv) (auto simp: run_ssh_def sudo_args_def split: if_splits)

lemma tmpdir_keeps_inv:
  assumes "ssh_tmpdir (logged ex) sc s = (r, s')" and "tmpdir_inv sc s"
  shows "tmpdir_inv sc s' \<and> (ss_tmpdir s \<noteq> [] \<longrightarrow> s' = s)"
  using assms
  by (auto simp: ssh_tmpdir_def tmpdir_inv_def session_log_def created_dirs_append
      dest!: ssh_run_logged split: if_splits prod.splits)

lemma upload_keeps_inv:
  assumes "ssh_upload (logged ex) pa sc cmd s = (r, s')" and "tmpdir_inv sc s"
  shows "tmpdir_inv sc s' \<and> (ss_tmpdir s \<noteq> [] \<longrightarrow> ss_tmpdir s' = ss_tmpdir s)"
  using assms tmpdir_keeps_inv [of ex sc s]
  by (auto simp: ssh_upload_def bnd_def Let_def split: prod.splits outcome.splits if_splits
      dest!: run_keeps_inv run_ssh_keeps_inv)

lemma write_keeps_inv:
  assumes "ssh_write (logged ex) pa sc content path s = (r, s')" and "tmpdir_inv sc s"
  shows "tmpdir_inv sc s' \<and> (ss_tmpdir s \<noteq> [] \<longrightarrow> ss_tmpdir s' = ss_tmpdir s)"
proof -
  have "a = [sc_target sc, ''mktemp'', ''-t'', ''-d'', ''ralXXXXXX''] \<Longrightarrow>
      a \<noteq> [sc_target sc] @ sudo_args sc @ (''dd'' # x)" for a x
    by (auto simp: sudo_args_def)
  then show ?thesis
    using assms tmpdir_keeps_inv [of ex sc s]
    by (auto simp: ssh_write_def bnd_def Let_def split: prod.splits outcome.splits if_splits
        dest!: run_keeps_inv run_ssh_keeps_inv)
qed

lemma session_inv: "ssh_session ex pa sc s \<Longrightarrow> tmpdir_inv sc s"
proof (induction rule: ssh_session.induct)
  case (fresh w)
  show ?case by (simp add: tmpdir_inv_def session_log_def)
next
  case (upload s cmd r s')
  then show ?case by (blast dest: upload_keeps_inv)
next
  case (store s content path r s')
  then show ?case by (blast dest: write_keeps_inv)
next
  case (read s path r s')
  then show ?case by (auto simp: ssh_read_def split: prod.splits dest: run_ssh_keeps_inv)
next
  case (which s cmd p s')
  then show ?case by (auto simp: ssh_which_def split: prod.splits dest: run_ssh_keeps_inv)
next
  case (connect s r s')
  then show ?case by (auto simp: ssh_connect_def split: prod.splits dest: run_ssh_keeps_inv)
next
  case (execute s cmd args stdin res s')
  then show ?case
    using run_ssh_keeps_inv [of ex sc cmd args stdin s res s'] by (simp add: ssh_execute_def run_ssh_def)
qed

text \<open>C12: an ssh session creates at most one temporary directory, whatever it is asked to do
  and in whatever order: the directories its \<open>mktemp\<close> calls created are the one it
  remembers, or none; and destroying the session runs \<open>rm -rf\<close> on exactly that directory,
  once, unless the directory is to be kept or was never created.\<close>

theorem ssh_tmpdir_lifecycle:
  assumes "ssh_session ex pa sc s"
  shows "created_dirs sc (session_log s) = (if ss_tmpdir s = [] then [] else [ss_tmpdir s]) \<and>
    (\<exists>res. session_log (ssh_delete (logged ex) sc s) = session_log s @
       (if sc_keep sc then [] else map (\<lambda>d. Call ''ssh'' (ssh_opts @ [sc_target sc] @ sudo_args sc @ [''rm'', ''-rf'', d]) None res)
          (created_dirs sc (session_log s))))"
proof -
  from session_inv [OF assms] have inv: "created_dirs sc (session_log s) = (if ss_tmpdir s = [] then [] else [ss_tmpdir s])"
    by (simp add: tmpdir_inv_def)
  obtain res s' where "run_ssh (logged ex) sc [''rm'', ''-rf'', ss_tmpdir s] None s = (res, s')"
    by fastforce
  then have "session_log s' = session_log s @
      [Call ''ssh'' (ssh_opts @ [sc_target sc] @ sudo_args sc @ [''rm'', ''-rf'', ss_tmpdir s]) None res]"
    by (auto simp: run_ssh_def dest: ssh_run_logged)
  with inv \<open>run_ssh _ _ _ _ _ = _\<close> show ?thesis by (auto simp: ssh_delete_def)
qed

theorem ssh_tmpdir_lifecycle_witness:
  "\<exists>s. ssh_session demo_exe \<lparr>pa_filename = id, pa_join = (@)\<rparr> \<lparr>sc_target = ''h'', sc_sudo = False, sc_keep = False\<rparr> s \<and>
     created_dirs \<lparr>sc_target = ''h'', sc_sudo = False, sc_keep = False\<rparr> (session_log s) = [''/tmp/x'']"
proof -
  let ?pa = "\<lparr>pa_filename = id, pa_join = (@)\<rparr>"
  let ?sc = "\<lparr>sc_target = ''h'', sc_sudo = False, sc_keep = False\<rparr>"
  obtain r s where s: "ssh_upload (logged demo_exe) ?pa ?sc ''a'' \<lparr>ss_tmpdir = [], ss_world = (0, [])\<rparr> = (r, s)"
    by fastforce
  then have "ss_tmpdir s = ''/tmp/x''"
    by (auto simp: ssh_upload_def ssh_tmpdir_def ssh_run_def run_ssh_def bnd_def logged_def demo_exe_def Let_def)
  moreover have ses: "ssh_session demo_exe ?pa ?sc s"
    by (rule ssh_session.upload [OF ssh_session.fresh s])
  ultimately show ?thesis using ssh_tmpdir_lifecycle [OF ses] by auto
qed

end
