(* ===== verification/SimpleProvider.thy ===== *)
theory SimpleProvider
  imports Interfaces Target
begin

section \<open>Providers that follow the simple calling convention\<close>

text \<open>
  \<open>lib/src/simple_provider.cc\<close>, \<open>lib/inc/libral/simple_provider.hpp\<close>: an executable prints
  \<open># simple\<close> and then lines \<open>KEY: VALUE\<close>; a small state machine reads its lines.
  The system the provider works on is the command object (an upload changes it), the target's world
  and the log. Two things come from outside: \<open>se_fmt\<close>, the message formatter, where the code
  passes it \<open>%s\<close>, and \<open>se_unknown\<close>, the value that the uninitialised variable \<open>unknown\<close> of
  \<open>find\<close> happens to have.
\<close>

record sp_env =
  se_fmt :: "string \<Rightarrow> string list \<Rightarrow> string"
  se_enabled :: "log_level \<Rightarrow> bool"
  se_unknown :: bool

record 'w sp_world =
  sw_cmd :: command
  sw_sys :: 'w
  sw_log :: "(log_level \<times> string) list"

subsection \<open>Reading lines\<close>

text \<open>The variables of \<open>run_action\<close> that its callbacks share, and what the entry callback captured.\<close>

record 'e line_state =
  ls_cnt :: nat
  ls_in_error :: bool
  ls_rslt :: "unit outcome"
  ls_errmsg :: string
  ls_entry :: 'e
  ls_log :: "(log_level \<times> string) list"

definition ls_start :: "'e \<Rightarrow> (log_level \<times> string) list \<Rightarrow> 'e line_state" where
  "ls_start e log = \<lparr>ls_cnt = 0, ls_in_error = False, ls_rslt = Ok (), ls_errmsg = [], ls_entry = e, ls_log = log\<rparr>"

definition err_line :: "sp_env \<Rightarrow> string \<Rightarrow> ('e line_state, bool) prog" where
  "err_line se line s = (case log_line (se_enabled se) line of
      Ok None \<Rightarrow> (Ok True, s)
    | Ok (Some l) \<Rightarrow> (Ok True, s\<lparr>ls_log := ls_log s @ [l]\<rparr>)
    | Err e \<Rightarrow> (Err e, s)
    | Exn x \<Rightarrow> (Exn x, s))"

definition first_error :: "sp_env \<Rightarrow> string \<Rightarrow> string" where
  "first_error se line = se_fmt se (''invalid line: '' @ quoted ''%s'' @ ''. Expected '' @ quoted ''# simple'') [line]"

definition colon_error :: "sp_env \<Rightarrow> string \<Rightarrow> string" where
  "colon_error se line = se_fmt se (''invalid line: '' @ quoted ''%s'' @ ''. Expected '' @ quoted ''<KEY>: <VALUE>'' @
     '' but couldn'' @ [CHR 0x27] @ ''t find a '' @ quoted '':'') [line]"

text \<open>A line after the first one, outside an error text. A line without a colon is an error, but
  the entry callback still runs, with the whole line as key and as value.\<close>

definition entry_line :: "sp_env \<Rightarrow> (string \<Rightarrow> string \<Rightarrow> ('e, unit) prog) \<Rightarrow> string \<Rightarrow> ('e line_state, unit) prog" where
  "entry_line se entry line s0 =
     (let (key, text, s) = (case find_char (CHR '':'') line of
            None \<Rightarrow> (line, line, s0\<lparr>ls_rslt := Err (colon_error se line)\<rparr>)
          | Some pos \<Rightarrow> (take pos line, drop (Suc pos) line, s0));
          val = trim text
      in if key = ''ral_error'' then (Ok (), s\<lparr>ls_in_error := True, ls_errmsg := val\<rparr>)
         else (case entry key val (ls_entry s) of
             (Ok _, e) \<Rightarrow> (Ok (), s\<lparr>ls_entry := e\<rparr>)
           | (Err m, e) \<Rightarrow> (Ok (), s\<lparr>ls_entry := e, ls_rslt := Err m\<rparr>)
           | (Exn x, e) \<Rightarrow> (Exn x, s\<lparr>ls_entry := e\<rparr>)))"

definition out_line :: "sp_env \<Rightarrow> (string \<Rightarrow> string \<Rightarrow> ('e, unit) prog) \<Rightarrow> string \<Rightarrow> ('e line_state, bool) prog" where
  "out_line se entry line s0 =
     (let s = s0\<lparr>ls_cnt := Suc (ls_cnt s0)\<rparr>;
          step = (if ls_cnt s = 1
            then (if line \<noteq> ''# simple'' then modify (ls_rslt_update (\<lambda>_. Err (first_error se line))) else ret ())
            else if ls_in_error s
            then (if line \<noteq> ''ral_eom'' then modify (ls_errmsg_update (\<lambda>m. m @ line))
                  else modify (\<lambda>t. t\<lparr>ls_rslt := Err (ls_errmsg t)\<rparr>))
            else entry_line se entry line)
      in bnd step (\<lambda>_ t. (Ok (is_Ok (ls_rslt t)), t)) s)"

definition action_failed :: "sp_env \<Rightarrow> command \<Rightarrow> string \<Rightarrow> string \<Rightarrow> string" where
  "action_failed se c action errmsg =
     (if errmsg = [] then se_fmt se ''Something went wrong running %s ral_action=%s'' [c_cmd c, action]
      else se_fmt se (''Something went wrong running %s ral_action=%s'' @ [CHR 0x0A] @ ''%s'') [c_cmd c, action, errmsg])"

definition sp_run_action :: "sp_env \<Rightarrow> 'w target \<Rightarrow> string \<Rightarrow> (string \<Rightarrow> string \<Rightarrow> ('e, unit) prog) \<Rightarrow> string list \<Rightarrow>
    ('e \<times> 'w sp_world, unit) prog" where
  "sp_run_action se tgt action entry args = (\<lambda>(e0, sw).
     case command_each_line tgt (args @ [''ral_action='' @ action]) (out_line se entry) (err_line se)
            (ls_start e0 (sw_log sw), sw_cmd sw, sw_sys sw) of
       (r, (s, c, w)) \<Rightarrow>
         (case r of
            Ok status \<Rightarrow>
              if \<not> status \<and> is_Ok (ls_rslt s) then Err (action_failed se c action (ls_errmsg s)) else ls_rslt s
          | Err m \<Rightarrow> Err m
          | Exn x \<Rightarrow> Exn x,
          (ls_entry s, \<lparr>sw_cmd = c, sw_sys = w, sw_log = ls_log s\<rparr>)))"

subsection \<open>Finding, listing\<close>

text \<open>Writing an attribute into the last resource of the vector.\<close>

definition put_last :: "string \<Rightarrow> value_base \<Rightarrow> resource list \<Rightarrow> resource list" where
  "put_last key v rs = butlast rs @ [put_attr key v (last rs)]"

text \<open>The state is the vector of resources and whether \<open>ral_unknown\<close> was seen.\<close>

definition find_entry :: "string \<Rightarrow> string \<Rightarrow> (resource list \<times> bool, unit) prog" where
  "find_entry key val = (\<lambda>(rs, unknown).
     if key = ''name'' then (Ok (), (rs @ [new_resource val], unknown))
     else if key = ''ral_unknown'' then (Ok (), (rs, True))
     else if rs = [] then (Exn (Undefined ''back() of an empty vector''), (rs, unknown))
     else (Ok (), (put_last key (VStr val) rs, unknown)))"

definition list_entry :: "string \<Rightarrow> string \<Rightarrow> (resource list, unit) prog" where
  "list_entry key val rs =
     (if key = ''name'' then (Ok (), rs @ [new_resource val])
      else if rs = [] then (Err ''format error: attribute values must come after the name'', rs)
      else (Ok (), put_last key (VStr val) rs))"

text \<open>An argument that the provider gets; the value is not escaped.\<close>

definition sp_arg :: "string \<Rightarrow> string \<Rightarrow> string" where
  "sp_arg key val = key @ ''='' @ quoted val"

definition sp_find :: "sp_env \<Rightarrow> 'w target \<Rightarrow> string \<Rightarrow> ('w sp_world pst, resource list) prog" where
  "sp_find se tgt name s =
     (case sp_run_action se tgt ''find'' find_entry [sp_arg ''name'' name] (([], se_unknown se), p_world s) of
        (r, ((rs, unknown), sw)) \<Rightarrow>
          (obind r (\<lambda>_. Ok (if unknown then [] else rs)), s\<lparr>p_world := sw\<rparr>))"

definition sp_instances :: "sp_env \<Rightarrow> 'w target \<Rightarrow> ('w sp_world pst, resource list) prog" where
  "sp_instances se tgt s =
     (case sp_run_action se tgt ''list'' list_entry [] ([], p_world s) of
        (r, (rs, sw)) \<Rightarrow> (obind r (\<lambda>_. Ok rs), s\<lparr>p_world := sw\<rparr>))"

definition sp_get :: "sp_env \<Rightarrow> 'w target \<Rightarrow> string list \<Rightarrow> ('w sp_world pst, resource list) prog" where
  "sp_get se tgt names = (if length names = 1 then sp_find se tgt (hd names) else sp_instances se tgt)"

subsection \<open>Updating\<close>

text \<open>The state is the change list of the resource and whether \<open>ral_derive\<close> is on.\<close>

definition set_was :: "value_base \<Rightarrow> changes \<Rightarrow> changes" where
  "set_was v chgs = butlast chgs @ [(last chgs)\<lparr>ch_was := v\<rparr>]"

definition update_entry :: "string \<Rightarrow> string \<Rightarrow> string \<Rightarrow> (changes \<times> bool, unit) prog" where
  "update_entry name key val = (\<lambda>(chgs, derive).
     if key = ''ral_derive'' then (Ok (), (chgs, val = ''true''))
     else if key = ''name''
     then (if val \<noteq> name
           then (Err (''wrong name changed by update: '' @ quoted val @ '' instead of '' @ quoted name), (chgs, derive))
           else (Ok (), (chgs, derive)))
     else if key = ''ral_was''
     then (if chgs = [] then (Exn (Undefined ''back() of an empty vector''), (chgs, derive))
           else (Ok (), (set_was (VStr val) chgs, derive)))
     else (Ok (), (chgs @ [mk_change key (VStr val) VNone], derive)))"

fun update_args :: "update \<Rightarrow> (string \<times> value_base) list \<Rightarrow> string list \<Rightarrow> string list outcome" where
  "update_args u [] args = Ok args"
| "update_args u ((k, v) # ps) args =
     obind (upd_changed u k) (\<lambda>changed.
       update_args u ps (if changed then args @ [sp_arg k (to_string v)] else args))"

definition sp_set_one :: "sp_env \<Rightarrow> 'w target \<Rightarrow> update \<Rightarrow> ('w sp_world pst, unit) prog" where
  "sp_set_one se tgt u s0 =
     (let n = upd_name u; cx = changes_for n (p_ctx s0); s = s0\<lparr>p_ctx := cx\<rparr> in
      case update_args u (attrs (upd_should u)) [sp_arg ''name'' n] of
        Exn x \<Rightarrow> (Exn x, s)
      | Err e \<Rightarrow> (Err e, s)
      | Ok args \<Rightarrow>
          if length args > 1
          then (case sp_run_action se tgt ''update'' (update_entry n) args ((changes_of cx n, False), p_world s) of
              (r, ((chgs, derive), sw)) \<Rightarrow>
                (let s1 = s\<lparr>p_ctx := set_changes n chgs cx, p_world := sw\<rparr> in
                 case r of
                   Ok _ \<Rightarrow> if derive
                     then (case maybe_add u chgs of
                         Ok (_, chgs') \<Rightarrow> (Ok (), s1\<lparr>p_ctx := set_changes n chgs' (p_ctx s1)\<rparr>)
                       | Err e \<Rightarrow> (Err e, s1)
                       | Exn x \<Rightarrow> (Exn x, s1))
                     else (Ok (), s1)
                 | Err e \<Rightarrow> (Err e, s1)
                 | Exn x \<Rightarrow> (Exn x, s1)))
          else (Ok (), s))"

definition sp_set :: "sp_env \<Rightarrow> 'w target \<Rightarrow> update list \<Rightarrow> ('w sp_world pst, unit) prog" where
  "sp_set se tgt us = for_each (sp_set_one se tgt) us"

subsection \<open>Reading a well-formed output\<close>

lemma is_Ok_simps [simp]: "is_Ok (Ok a)" "\<not> is_Ok (Err e)" "\<not> is_Ok (Exn x)"
  by simp_all

definition kv_line :: "string \<times> string \<Rightarrow> string" where
  "kv_line kv = fst kv @ '': '' @ snd kv"

definition plain_key :: "string \<Rightarrow> bool" where
  "plain_key k \<longleftrightarrow> CHR '':'' \<notin> set k \<and> k \<noteq> ''ral_error''"

text \<open>The state in which entry lines are read: past the first line, no error so far.\<close>

definition reading :: "'e line_state \<Rightarrow> bool" where
  "reading s \<longleftrightarrow> ls_cnt s \<noteq> 0 \<and> \<not> ls_in_error s \<and> ls_rslt s = Ok ()"

lemma out_line_first:
  "ls_cnt s = 0 \<Longrightarrow> ls_rslt s = Ok () \<Longrightarrow>
    out_line se entry ''# simple'' s = (Ok True, s\<lparr>ls_cnt := 1\<rparr>)"
  by (simp add: out_line_def prog_simps Let_def)

lemma entry_line_kv:
  assumes "plain_key k"
  shows "entry_line se entry (kv_line (k, v)) s =
    (case entry k (trim v) (ls_entry s) of
       (Ok _, e) \<Rightarrow> (Ok (), s\<lparr>ls_entry := e\<rparr>)
     | (Err m, e) \<Rightarrow> (Ok (), s\<lparr>ls_entry := e, ls_rslt := Err m\<rparr>)
     | (Exn x, e) \<Rightarrow> (Exn x, s\<lparr>ls_entry := e\<rparr>))"
proof -
  have "kv_line (k, v) = k @ CHR '':'' # CHR '' '' # v" by (simp add: kv_line_def)
  then show ?thesis
    using assms by (simp add: entry_line_def find_char_append plain_key_def)
qed

lemma entry_line_error:
  "entry_line se entry (kv_line (''ral_error'', v)) s = (Ok (), s\<lparr>ls_in_error := True, ls_errmsg := trim v\<rparr>)"
  using find_char_append [of "CHR '':''" "''ral_error''" "CHR '' '' # v"]
  by (simp add: entry_line_def kv_line_def)

lemma out_line_reading:
  "reading s \<Longrightarrow> out_line se entry line s =
    bnd (entry_line se entry line) (\<lambda>_ t. (Ok (is_Ok (ls_rslt t)), t)) (s\<lparr>ls_cnt := Suc (ls_cnt s)\<rparr>)"
  by (simp add: out_line_def reading_def)

text \<open>Lines that all go to the standard output.\<close>

fun printed :: "string list \<Rightarrow> lines" where
  "printed [] = []"
| "printed (l # ls) = (True, l) # printed ls"

lemma printed_append: "printed (xs @ ys) = printed xs @ printed ys"
  by (induction xs) auto

text \<open>While the entry callback succeeds, feeding lines is running the callback over their entries.\<close>

lemma feed_entries:
  assumes "reading s" and "\<And>k v. (k, v) \<in> set kvs \<Longrightarrow> plain_key k"
    and "for_each (\<lambda>(k, v). entry k (trim v)) kvs (ls_entry s) = (Ok (), e)"
  shows "feed_lines (out_line se entry) err (printed (map kv_line kvs) @ rest) s =
    feed_lines (out_line se entry) err rest (s\<lparr>ls_cnt := ls_cnt s + length kvs, ls_entry := e\<rparr>)"
  using assms
proof (induction kvs arbitrary: s)
  case (Cons kv kvs)
  obtain k v where kv: "kv = (k, v)" by (cases kv)
  obtain e1 where e1: "entry k (trim v) (ls_entry s) = (Ok (), e1)"
      and rest: "for_each (\<lambda>(k, v). entry k (trim v)) kvs e1 = (Ok (), e)"
    using Cons.prems(3) by (auto simp: kv bnd_Ok_iff)
  let ?s = "s\<lparr>ls_cnt := Suc (ls_cnt s), ls_entry := e1\<rparr>"
  have "out_line se entry (kv_line kv) s = (Ok True, ?s)"
    using Cons.prems(1) Cons.prems(2) [of k v] e1
    by (simp add: kv out_line_reading bnd_def entry_line_kv reading_def)
  moreover have "feed_lines (out_line se entry) err (printed (map kv_line kvs) @ rest) ?s =
      feed_lines (out_line se entry) err rest (?s\<lparr>ls_cnt := ls_cnt ?s + length kvs, ls_entry := e\<rparr>)"
    using Cons.prems rest by (intro Cons.IH) (auto simp: reading_def)
  ultimately show ?case by (simp add: bnd_def)
next
  case Nil
  then show ?case by (cases s) (auto simp: ret_def)
qed

text \<open>The lines after \<open>ral_error\<close> are collected until \<open>ral_eom\<close>.\<close>

lemma feed_error_text:
  assumes "ls_cnt s \<noteq> 0" and "ls_in_error s" and "ls_rslt s = Ok ()" and "''ral_eom'' \<notin> set body"
  shows "feed_lines (out_line se entry) err (printed body @ rest) s =
    feed_lines (out_line se entry) err rest
      (s\<lparr>ls_cnt := ls_cnt s + length body, ls_errmsg := ls_errmsg s @ concat body\<rparr>)"
  using assms
proof (induction body arbitrary: s)
  case (Cons l body)
  let ?s = "s\<lparr>ls_cnt := Suc (ls_cnt s), ls_errmsg := ls_errmsg s @ l\<rparr>"
  have "out_line se entry l s = (Ok True, ?s)"
    using Cons.prems by (auto simp: out_line_def prog_simps Let_def)
  then show ?case using Cons.prems Cons.IH [of ?s] by (simp add: bnd_def)
qed simp

lemma out_line_eom:
  "ls_cnt s \<noteq> 0 \<Longrightarrow> ls_in_error s \<Longrightarrow>
    out_line se entry ''ral_eom'' s = (Ok False, s\<lparr>ls_cnt := Suc (ls_cnt s), ls_rslt := Err (ls_errmsg s)\<rparr>)"
  by (simp add: out_line_def prog_simps Let_def)

lemma run_action_fed:
  assumes "\<not> c_needs_upload (sw_cmd sw)"
    and "t_each_line tgt (c_cmd (sw_cmd sw)) (args @ [''ral_action='' @ action]) (sw_sys sw) = ((ls, status), w')"
    and "feed_lines (out_line se entry) (err_line se) ls (ls_start e (sw_log sw)) = (Ok all, s)"
  shows "sp_run_action se tgt action entry args (e, sw) =
    (if \<not> status (\<not> all) \<and> is_Ok (ls_rslt s) then Err (action_failed se (sw_cmd sw) action (ls_errmsg s)) else ls_rslt s,
     (ls_entry s, \<lparr>sw_cmd = sw_cmd sw, sw_sys = w', sw_log = ls_log s\<rparr>))"
  using assms by (simp add: sp_run_action_def command_each_line_def command_upload_def)

subsection \<open>Listing resources\<close>

text \<open>How a provider prints a resource, and which resources it can print so that they can be read.\<close>

definition resource_kvs :: "resource \<Rightarrow> (string \<times> string) list" where
  "resource_kvs r = (''name'', res_name r) # map (\<lambda>(k, v). (k, to_string v)) (attrs r)"

definition printable :: "resource \<Rightarrow> bool" where
  "printable r \<longleftrightarrow> resource_ok r \<and> trim (res_name r) = res_name r \<and>
     (\<forall>(k, v) \<in> set (attrs r). plain_key k \<and> (\<exists>s. v = VStr s \<and> trim s = s))"

definition list_output :: "resource list \<Rightarrow> string list" where
  "list_output rs = ''# simple'' # map kv_line (concat (map resource_kvs rs))"

lemma put_last_snoc: "put_last k v (rs @ [r]) = rs @ [put_attr k v r]"
  by (simp add: put_last_def)

lemma list_entry_attrs:
  assumes "''name'' \<notin> fst ` set kvs" and "\<And>k v. (k, v) \<in> set kvs \<Longrightarrow> \<exists>s. v = VStr s \<and> trim s = s"
  shows "for_each (\<lambda>(k, v). list_entry k (trim v)) (map (\<lambda>(k, v). (k, to_string v)) kvs) (rs @ [r]) =
    (Ok (), rs @ [fold (\<lambda>(k, v). put_attr k v) kvs r])"
  using assms
proof (induction kvs arbitrary: r)
  case (Cons kv kvs)
  obtain k v where kv: "kv = (k, v)" by (cases kv)
  obtain t where t: "v = VStr t" "trim t = t" using Cons.prems(2) [of k v] kv by auto
  have "list_entry k t (rs @ [r]) = (Ok (), rs @ [put_attr k v r])"
    using Cons.prems(1) by (auto simp: list_entry_def put_last_snoc kv t)
  moreover have "for_each (\<lambda>(k, v). list_entry k (trim v)) (map (\<lambda>(k, v). (k, to_string v)) kvs) (rs @ [put_attr k v r]) =
      (Ok (), rs @ [fold (\<lambda>(k, v). put_attr k v) kvs (put_attr k v r)])"
    using Cons.prems by (intro Cons.IH) auto
  ultimately show ?case by (simp add: kv t bnd_def)
qed (simp add: ret_def)

lemma list_entry_resource:
  assumes "printable r"
  shows "for_each (\<lambda>(k, v). list_entry k (trim v)) (resource_kvs r) rs = (Ok (), rs @ [r])"
proof -
  have "fold (\<lambda>(k, v). put_attr k v) (attrs r) (new_resource (res_name r)) = r"
    using assms by (simp add: fold_put_attr fold_omap_put printable_def resource_ok_def new_resource_def)
  moreover have "for_each (\<lambda>(k, v). list_entry k (trim v)) (map (\<lambda>(k, v). (k, to_string v)) (attrs r))
      (rs @ [new_resource (res_name r)]) = (Ok (), rs @ [fold (\<lambda>(k, v). put_attr k v) (attrs r) (new_resource (res_name r))])"
    using assms by (intro list_entry_attrs) (auto simp: printable_def resource_ok_def)
  ultimately show ?thesis
    using assms by (simp add: resource_kvs_def bnd_def list_entry_def printable_def)
qed

lemma list_entry_resources:
  "(\<And>r. r \<in> set rs \<Longrightarrow> printable r) \<Longrightarrow>
    for_each (\<lambda>(k, v). list_entry k (trim v)) (concat (map resource_kvs rs)) acc = (Ok (), acc @ rs)"
  by (induction rs arbitrary: acc) (simp_all add: ret_def for_each_append bnd_def list_entry_resource)

lemma printable_keys: "printable r \<Longrightarrow> (k, v) \<in> set (resource_kvs r) \<Longrightarrow> plain_key k"
  by (auto simp: resource_kvs_def printable_def plain_key_def)

lemma feed_list_output:
  assumes "\<And>r. r \<in> set rs \<Longrightarrow> printable r"
  shows "feed_lines (out_line se list_entry) err (printed (list_output rs) @ rest) (ls_start [] log) =
    feed_lines (out_line se list_entry) err rest
      ((ls_start [] log)\<lparr>ls_cnt := Suc (length (concat (map resource_kvs rs))), ls_entry := rs\<rparr>)"
proof -
  let ?s = "(ls_start ([] :: resource list) log)\<lparr>ls_cnt := 1\<rparr>"
  have "out_line se list_entry ''# simple'' (ls_start [] log) = (Ok True, ?s)"
    by (rule out_line_first) (simp_all add: ls_start_def)
  moreover have "feed_lines (out_line se list_entry) err (printed (map kv_line (concat (map resource_kvs rs))) @ rest) ?s =
      feed_lines (out_line se list_entry) err rest
        (?s\<lparr>ls_cnt := ls_cnt ?s + length (concat (map resource_kvs rs)), ls_entry := rs\<rparr>)"
  proof (rule feed_entries)
    show "reading ?s" by (simp add: reading_def ls_start_def)
    show "plain_key k" if "(k, v) \<in> set (concat (map resource_kvs rs))" for k v
      using that assms printable_keys by auto
    show "for_each (\<lambda>(k, v). list_entry k (trim v)) (concat (map resource_kvs rs)) (ls_entry ?s) = (Ok (), rs)"
      using list_entry_resources [of rs "[]", OF assms] by (simp add: ls_start_def)
  qed
  ultimately show ?thesis by (simp add: list_output_def bnd_def)
qed

text \<open>C11: what a simple provider prints for \<open>list\<close> is read back exactly: if its output is the
  listing of printable resources and it exits successfully, \<open>get\<close> returns those resources,
  in order, with all their attributes as strings.\<close>

theorem simple_list_roundtrip:
  assumes "\<forall>r \<in> set rs. printable r" and "length names \<noteq> 1"
    and "\<not> c_needs_upload (sw_cmd (p_world s))"
    and "t_each_line tgt (c_cmd (sw_cmd (p_world s))) [''ral_action=list''] (sw_sys (p_world s)) =
      ((printed (list_output rs), \<lambda>_. True), w')"
  shows "sp_get se tgt names s = (Ok rs, s\<lparr>p_world := (p_world s)\<lparr>sw_sys := w'\<rparr>\<rparr>)"
proof -
  let ?s = "(ls_start [] (sw_log (p_world s)))\<lparr>ls_cnt := Suc (length (concat (map resource_kvs rs))), ls_entry := rs\<rparr>"
  have "feed_lines (out_line se list_entry) (err_line se) (printed (list_output rs)) (ls_start [] (sw_log (p_world s))) =
      (Ok True, ?s)"
    using feed_list_output [of rs se "err_line se" "[]" "sw_log (p_world s)"] assms(1) by (simp add: ret_def)
  from run_action_fed [OF assms(3), where action = "''list''" and args = "[]", simplified, OF assms(4) this]
  show ?thesis
    using assms(2) by (simp add: sp_get_def sp_instances_def ls_start_def)
qed

definition demo_output_target :: "string list \<Rightarrow> bool \<Rightarrow> nat target" where
  "demo_output_target out ok = \<lparr>t_which = (\<lambda>n w. ([], w)), t_upload = ret, t_executable = (\<lambda>n w. True),
     t_execute = (\<lambda>f a i w. (\<lparr>cr_success = ok, cr_output = [], cr_error = [], cr_exit_code = 0\<rparr>, w)),
     t_each_line = (\<lambda>f a w. ((printed out, \<lambda>_. ok), Suc w))\<rparr>"

definition demo_sp_state :: "nat sp_world pst" where
  "demo_sp_state = \<lparr>p_ctx = new_context ''pkg::simple'',
     p_world = \<lparr>sw_cmd = \<lparr>c_cmd = ''/p'', c_needs_upload = False\<rparr>, sw_sys = 0, sw_log = []\<rparr>\<rparr>"

definition demo_sp_env :: sp_env where
  "demo_sp_env = \<lparr>se_fmt = (\<lambda>m args. m @ concat args), se_enabled = (\<lambda>l. True), se_unknown = False\<rparr>"

lemma demo_target_line [simp]:
  "t_each_line (demo_output_target out ok) f a w = ((printed out, \<lambda>_. ok), Suc w)"
  by (simp add: demo_output_target_def)

lemma demo_sp_state_simps [simp]:
  "\<not> c_needs_upload (sw_cmd (p_world demo_sp_state))" "c_cmd (sw_cmd (p_world demo_sp_state)) = ''/p''"
  "sw_sys (p_world demo_sp_state) = 0" "sw_log (p_world demo_sp_state) = []"
  "p_ctx demo_sp_state = new_context ''pkg::simple''"
  by (simp_all add: demo_sp_state_def)

theorem simple_list_roundtrip_witness:
  "\<exists>s'. sp_get demo_sp_env (demo_output_target [''# simple'', ''name: vim'', ''ensure: 8.1'', ''name: nano''] True) [] demo_sp_state =
     (Ok [\<lparr>res_name = ''vim'', attrs = [(''ensure'', VStr ''8.1'')]\<rparr>, new_resource ''nano''], s') \<and> sw_sys (p_world s') = 1"
proof -
  let ?rs = "[\<lparr>res_name = ''vim'', attrs = [(''ensure'', VStr ''8.1'')]\<rparr>, new_resource ''nano'']"
  let ?t = "demo_output_target [''# simple'', ''name: vim'', ''ensure: 8.1'', ''name: nano''] True"
  have trims: "trim ''vim'' = ''vim''" "trim ''8.1'' = ''8.1''" "trim ''nano'' = ''nano''"
    by (rule trim_id, auto simp: is_space_def)+
  have rs: "\<forall>r \<in> set ?rs. printable r"
    using trims by (simp add: printable_def resource_ok_def omap_ok_def plain_key_def) (simp add: new_resource_def trims)
  have "list_output ?rs = [''# simple'', ''name: vim'', ''ensure: 8.1'', ''name: nano'']"
    by (simp add: list_output_def resource_kvs_def kv_line_def new_resource_def)
  then have "t_each_line ?t (c_cmd (sw_cmd (p_world demo_sp_state))) [''ral_action=list''] (sw_sys (p_world demo_sp_state)) =
      ((printed (list_output ?rs), \<lambda>_. True), 1)" by simp
  from simple_list_roundtrip [OF rs _ _ this, of "[]" demo_sp_env] show ?thesis by simp
qed

subsection \<open>Errors that the provider reports\<close>

text \<open>A provider's error report. When the output opens with \<open># simple\<close>, continues with entries
  that the action accepts and then with \<open>ral_error: MSG\<close>, more lines of text and
  \<open>ral_eom\<close>, the action fails with the message and the text lines run together, whatever
  follows and whatever the exit status. Without the closing \<open>ral_eom\<close> the report
  counts only if the command fails; with a successful exit the action succeeds and the
  message is lost, which the calling convention does not say.\<close>

theorem simple_error_report:
  fixes sw :: "'w sp_world" and e :: 'e
  assumes "\<not> c_needs_upload (sw_cmd sw)" and "\<forall>(k, v) \<in> set kvs. plain_key k"
    and "for_each (\<lambda>(k, v). entry k (trim v)) kvs e = (Ok (), e')" and "''ral_eom'' \<notin> set body"
    and "t_each_line tgt (c_cmd (sw_cmd sw)) (args @ [''ral_action='' @ action]) (sw_sys sw) =
      ((printed (''# simple'' # map kv_line (kvs @ [(''ral_error'', msg)]) @ body) @ tail, status), w')"
    and "tail = [] \<or> (\<exists>ls. tail = (True, ''ral_eom'') # ls)"
  shows "sp_run_action se tgt action entry args (e, sw) =
    (if tail = [] \<and> status False then Ok ()
     else if tail = [] then Err (action_failed se (sw_cmd sw) action (trim msg @ concat body))
     else Err (trim msg @ concat body), (e', sw\<lparr>sw_sys := w'\<rparr>))"
proof -
  let ?feed = "feed_lines (out_line se entry) (err_line se)"
  let ?s0 = "ls_start e (sw_log sw)"
  let ?s1 = "?s0\<lparr>ls_cnt := Suc (length kvs), ls_entry := e'\<rparr>"
  let ?s2 = "?s1\<lparr>ls_cnt := Suc (Suc (length kvs)), ls_in_error := True, ls_errmsg := trim msg\<rparr>"
  let ?s3 = "?s2\<lparr>ls_cnt := Suc (Suc (length kvs)) + length body, ls_errmsg := trim msg @ concat body\<rparr>"
  have first: "out_line se entry ''# simple'' ?s0 = (Ok True, ?s0\<lparr>ls_cnt := Suc 0\<rparr>)"
    using out_line_first [of ?s0 se entry] by (simp add: ls_start_def)
  have entries: "?feed (printed (map kv_line kvs) @ rest) (?s0\<lparr>ls_cnt := Suc 0\<rparr>) = ?feed rest ?s1" for rest
    by (subst feed_entries [where e = e']) (use assms(2,3) in \<open>auto simp: reading_def ls_start_def\<close>)
  have error: "out_line se entry (kv_line (''ral_error'', msg)) ?s1 = (Ok True, ?s2)"
    by (subst out_line_reading) (simp_all add: reading_def ls_start_def bnd_def entry_line_error)
  have lines: "?feed (printed body @ tail) ?s2 = ?feed tail ?s3"
    by (subst feed_error_text) (use assms(4) in \<open>simp_all add: ls_start_def\<close>)
  have "?feed (printed (''# simple'' # map kv_line (kvs @ [(''ral_error'', msg)]) @ body) @ tail) ?s0 = ?feed tail ?s3"
    using lines by (simp add: printed_append bnd_def first entries error)
  moreover have "?feed tail ?s3 = (if tail = [] then (Ok True, ?s3)
      else (Ok False, ?s3\<lparr>ls_cnt := Suc (ls_cnt ?s3), ls_rslt := Err (ls_errmsg ?s3)\<rparr>))"
    using assms(6) by (auto simp: ret_def bnd_def out_line_eom)
  ultimately have fed: "?feed (printed (''# simple'' # map kv_line (kvs @ [(''ral_error'', msg)]) @ body) @ tail) ?s0 =
      (if tail = [] then (Ok True, ?s3)
       else (Ok False, ?s3\<lparr>ls_cnt := Suc (ls_cnt ?s3), ls_rslt := Err (ls_errmsg ?s3)\<rparr>))" by simp
  show ?thesis
  proof (cases "tail = []")
    case True
    with fed run_action_fed [OF assms(1,5), of se entry e] show ?thesis by (simp add: ls_start_def)
  next
    case False
    with fed run_action_fed [OF assms(1,5), of se entry e] show ?thesis by (simp add: ls_start_def)
  qed
qed

theorem simple_error_report_witness:
  "fst (sp_get demo_sp_env (demo_output_target [''# simple'', ''name: vim'', ''ral_error: db'', '' is locked''] True) [] demo_sp_state) =
     Ok [new_resource ''vim''] \<and>
   fst (sp_run_action demo_sp_env (demo_output_target [''# simple'', ''ral_error: db'', '' is locked'', ''ral_eom''] True)
     ''list'' list_entry [] ([], p_world demo_sp_state)) = Err ''db is locked''"
proof
  let ?t1 = "demo_output_target [''# simple'', ''name: vim'', ''ral_error: db'', '' is locked''] True"
  let ?t2 = "demo_output_target [''# simple'', ''ral_error: db'', '' is locked'', ''ral_eom''] True"
  have trims: "trim ''vim'' = ''vim''" "trim ''db'' = ''db''"
    by (rule trim_id, auto simp: is_space_def)+
  have "sp_run_action demo_sp_env ?t1 ''list'' list_entry [] ([], p_world demo_sp_state) =
      (Ok (), ([new_resource ''vim''], (p_world demo_sp_state)\<lparr>sw_sys := 1\<rparr>))"
    by (subst simple_error_report [where kvs = "[(''name'', ''vim'')]" and msg = "''db''" and body = "['' is locked'']"
          and tail = "[]" and e' = "[new_resource ''vim'']" and status = "\<lambda>_. True" and w' = 1])
      (simp_all add: plain_key_def bnd_def list_entry_def trims kv_line_def ret_def)
  then show "fst (sp_get demo_sp_env ?t1 [] demo_sp_state) = Ok [new_resource ''vim'']"
    by (simp add: sp_get_def sp_instances_def)
  show "fst (sp_run_action demo_sp_env ?t2 ''list'' list_entry [] ([], p_world demo_sp_state)) = Err ''db is locked''"
    by (subst simple_error_report [where kvs = "[]" and msg = "''db''" and body = "['' is locked'']"
          and tail = "[(True, ''ral_eom'')]" and e' = "[]" and status = "\<lambda>_. True" and w' = 1])
      (simp_all add: trims kv_line_def ret_def)
qed

text \<open>A first line other than \<open># simple\<close> makes every action fail at that line, before any
  entry reaches the action: its callback's state is untouched.\<close>

theorem simple_first_line:
  assumes "\<not> c_needs_upload (sw_cmd sw)" and "line \<noteq> ''# simple''"
    and "t_each_line tgt (c_cmd (sw_cmd sw)) (args @ [''ral_action='' @ action]) (sw_sys sw) =
      (((True, line) # ls, status), w')"
  shows "sp_run_action se tgt action entry args (e, sw) = (Err (first_error se line), (e, sw\<lparr>sw_sys := w'\<rparr>))"
proof -
  let ?s = "(ls_start e (sw_log sw))\<lparr>ls_cnt := Suc 0, ls_rslt := Err (first_error se line)\<rparr>"
  have "feed_lines (out_line se entry) (err_line se) ((True, line) # ls) (ls_start e (sw_log sw)) = (Ok False, ?s)"
    using assms(2) by (simp add: bnd_def out_line_def Let_def modify_def ls_start_def ret_def)
  from run_action_fed [OF assms(1,3) this] show ?thesis by (simp add: ls_start_def)
qed

theorem simple_first_line_witness:
  "fst (sp_run_action demo_sp_env (demo_output_target [''bad''] True) ''list'' list_entry [] ([], p_world demo_sp_state)) =
     Err (first_error demo_sp_env ''bad'')"
  by (subst simple_first_line [where line = "''bad''" and ls = "[]" and status = "\<lambda>_. True" and w' = 1]) simp_all

text \<open>The reading of \<open>find\<close> is weaker than that of \<open>list\<close>: where \<open>list\<close> reports a format
  error for an attribute before any name, \<open>find\<close> calls \<open>back()\<close> on an empty vector, which is
  undefined; even a line without a colon gets there, before its own error is returned.\<close>

theorem simple_find_attribute_first:
  assumes "\<not> c_needs_upload (sw_cmd (p_world s))" and "key \<notin> {''name'', ''ral_unknown'', ''ral_error''}"
    and "CHR '':'' \<notin> set key" and "line \<in> {key, key @ '':'' @ v}"
    and "\<And>args. t_each_line tgt (c_cmd (sw_cmd (p_world s))) args (sw_sys (p_world s)) = ((printed [''# simple'', line], status), w')"
  shows "fst (sp_get se tgt [n] s) = Exn (Undefined ''back() of an empty vector'') \<and>
    (\<exists>m. fst (sp_get se tgt [] s) = Err m)"
proof
  have key: "key = (case find_char (CHR '':'') line of None \<Rightarrow> line | Some pos \<Rightarrow> take pos line)"
    using assms(3,4) by (auto simp: find_char_None_iff [THEN iffD2] find_char_append)
  have cmd: "command_each_line tgt args cb eb (x, sw_cmd (p_world s), sw_sys (p_world s)) =
     (case feed_lines cb eb (printed [''# simple'', line]) x of
                (Ok all, cb') \<Rightarrow> (Ok (status (\<not> all)), (cb', sw_cmd (p_world s), w'))
              | (Err e, cb') \<Rightarrow> (Err e, (cb', sw_cmd (p_world s), w'))
              | (Exn x, cb') \<Rightarrow> (Exn x, (cb', sw_cmd (p_world s), w')))" for args cb eb x
    using assms(1,5) by (simp add: command_each_line_def command_upload_def)
  show "fst (sp_get se tgt [n] s) = Exn (Undefined ''back() of an empty vector'')"
    using key assms(2)
    by (auto simp: sp_get_def sp_find_def sp_run_action_def cmd out_line_def entry_line_def find_entry_def
        bnd_def modify_def ls_start_def ret_def Let_def split: option.splits)
  show "\<exists>m. fst (sp_get se tgt [] s) = Err m"
    using key assms(2)
    by (auto simp: sp_get_def sp_instances_def sp_run_action_def cmd out_line_def entry_line_def list_entry_def
        bnd_def modify_def ls_start_def ret_def Let_def split: option.splits)
qed

theorem simple_find_attribute_first_witness:
  "fst (sp_get demo_sp_env (demo_output_target [''# simple'', ''garbage''] True) [''vim''] demo_sp_state) =
     Exn (Undefined ''back() of an empty vector'')"
  using simple_find_attribute_first [of demo_sp_state "''garbage''" "''garbage''" "[]"
      "demo_output_target [''# simple'', ''garbage''] True" "\<lambda>_. True" 1 demo_sp_env "''vim''"] by simp

subsection \<open>Updating\<close>

lemma update_args_eq:
  "''name'' \<notin> fst ` set ps \<Longrightarrow> update_args u ps args =
    Ok (args @ map (\<lambda>(k, v). sp_arg k (to_string v)) (filter (\<lambda>(k, v). differs u k) ps))"
  by (induction ps arbitrary: args) (auto simp: differs_def)

text \<open>The arguments of an update: the name, then what differs, in key order.\<close>

definition sp_argv :: "update \<Rightarrow> string list" where
  "sp_argv u = sp_arg ''name'' (upd_name u) #
     map (\<lambda>(k, v). sp_arg k (to_string v)) (filter (\<lambda>(k, v). differs u k) (attrs (upd_should u)))"

definition sp_settled :: "update \<Rightarrow> bool" where
  "sp_settled u \<longleftrightarrow> resource_ok (upd_should u) \<and> (\<forall>(k, v) \<in> set (attrs (upd_should u)). \<not> differs u k)"

lemma update_args_argv:
  "resource_ok (upd_should u) \<Longrightarrow>
    update_args u (attrs (upd_should u)) [sp_arg ''name'' (upd_name u)] = Ok (sp_argv u)"
  by (simp add: update_args_eq sp_argv_def resource_ok_def)

lemma sp_settled_iff:
  "resource_ok (upd_should u) \<Longrightarrow> sp_settled u \<longleftrightarrow> length (sp_argv u) = 1"
  by (auto simp: sp_settled_def sp_argv_def filter_empty_conv)

lemma sp_set_one_quiet:
  "sp_settled u \<Longrightarrow> sp_set_one se tgt u s = (Ok (), s\<lparr>p_ctx := changes_for (upd_name u) (p_ctx s)\<rparr>)"
  using sp_settled_iff [of u] update_args_argv [of u]
  by (simp add: sp_set_one_def Let_def sp_settled_def)

lemma sp_set_one_frame:
  assumes "sp_set_one se tgt u s = (r, s')" and "n \<noteq> upd_name u"
  shows "changes_of (p_ctx s') n = changes_of (p_ctx s) n"
proof (cases "update_args u (attrs (upd_should u)) [sp_arg ''name'' (upd_name u)]")
  case (Ok args)
  let ?cx = "changes_for (upd_name u) (p_ctx s)"
  obtain r1 chgs derive sw where run: "sp_run_action se tgt ''update'' (update_entry (upd_name u)) args
      ((changes_of (p_ctx s) (upd_name u), False), p_world s) = (r1, ((chgs, derive), sw))"
    by (metis prod.collapse)
  show ?thesis
    using assms Ok
    by (cases r1; cases "maybe_add u chgs")
      (auto simp: sp_set_one_def Let_def run changes_of_set split: if_splits)
qed (use assms in \<open>auto simp: sp_set_one_def Let_def\<close>)

interpretation simple_update: settled_provider "sp_set_one se tgt" sp_settled for se tgt
  by unfold_locales (auto intro: sp_set_one_frame simp: sp_set_one_quiet)

text \<open>C33: the provider is run for an update only when an attribute differs, with exactly the
  attributes that differ as arguments (after the name, in key order, \<open>ral_action\<close> last); it is
  not run at all when nothing differs, and then neither the system nor any recorded
  changes are touched.\<close>

theorem simple_update_minimal:
  assumes "resource_ok (upd_should u)"
  shows "(sp_settled u \<longrightarrow> sp_set_one se tgt u s = (Ok (), s\<lparr>p_ctx := changes_for (upd_name u) (p_ctx s)\<rparr>)) \<and>
    (\<not> sp_settled u \<longrightarrow>
      p_world (snd (sp_set_one se tgt u s)) =
        snd (snd (sp_run_action se tgt ''update'' (update_entry (upd_name u)) (sp_argv u)
          ((changes_of (p_ctx s) (upd_name u), False), p_world s))))"
proof (intro conjI impI)
  assume "\<not> sp_settled u"
  then have "1 < length (sp_argv u)"
    using sp_settled_iff [OF assms] by (simp add: sp_argv_def)
  moreover obtain r1 chgs derive sw where run: "sp_run_action se tgt ''update'' (update_entry (upd_name u)) (sp_argv u)
      ((changes_of (p_ctx s) (upd_name u), False), p_world s) = (r1, ((chgs, derive), sw))"
    by (metis prod.collapse)
  ultimately show "p_world (snd (sp_set_one se tgt u s)) =
        snd (snd (sp_run_action se tgt ''update'' (update_entry (upd_name u)) (sp_argv u)
          ((changes_of (p_ctx s) (upd_name u), False), p_world s)))"
    using update_args_argv [OF assms]
    by (cases r1; cases "maybe_add u chgs") (auto simp: sp_set_one_def Let_def)
qed (rule sp_set_one_quiet)

theorem simple_update_minimal_witness:
  "sp_set_one demo_sp_env (demo_output_target [] False)
     \<lparr>upd_is = put_attr ''ensure'' (VStr ''1'') (new_resource ''vim''),
      upd_should = put_attr ''ensure'' (VStr ''1'') (new_resource ''vim'')\<rparr> demo_sp_state =
   (Ok (), demo_sp_state\<lparr>p_ctx := changes_for ''vim'' (p_ctx demo_sp_state)\<rparr>)"
proof -
  let ?r = "put_attr ''ensure'' (VStr ''1'') (new_resource ''vim'')"
  have ok: "resource_ok (upd_should \<lparr>upd_is = ?r, upd_should = ?r\<rparr>)" by (simp add: resource_ok_put)
  have "sp_settled \<lparr>upd_is = ?r, upd_should = ?r\<rparr>"
    by (auto simp: sp_settled_def differs_def resource_ok_put)
  with simple_update_minimal [OF ok, of demo_sp_env "demo_output_target [] False" demo_sp_state]
  show ?thesis by (simp add: upd_name_def)
qed

text \<open>The contract of \<open>provider::get\<close>, that at least the requested names are returned, is not met:
  a provider that answers \<open>ral_unknown\<close> makes a lookup return no resource at all.\<close>

theorem simple_get_unknown_drops_name:
  assumes "\<not> c_needs_upload (sw_cmd (p_world s))"
    and "t_each_line tgt (c_cmd (sw_cmd (p_world s))) [sp_arg ''name'' n, ''ral_action=find''] (sw_sys (p_world s)) =
      ((printed [''# simple'', kv_line (''name'', n'), kv_line (''ral_unknown'', v)], \<lambda>_. True), w')"
  shows "sp_get se tgt [n] s = (Ok [], s\<lparr>p_world := (p_world s)\<lparr>sw_sys := w'\<rparr>\<rparr>)"
proof -
  let ?s0 = "ls_start ([] :: resource list, se_unknown se) (sw_log (p_world s))"
  have first: "out_line se find_entry ''# simple'' ?s0 = (Ok True, ?s0\<lparr>ls_cnt := Suc 0\<rparr>)"
    using out_line_first [of ?s0 se find_entry] by (simp add: ls_start_def)
  let ?kvs = "[(''name'', n'), (''ral_unknown'', v)]"
  have "feed_lines (out_line se find_entry) (err_line se) (printed (map kv_line ?kvs) @ []) (?s0\<lparr>ls_cnt := Suc 0\<rparr>) =
    feed_lines (out_line se find_entry) (err_line se) []
      (?s0\<lparr>ls_cnt := Suc 0, ls_cnt := ls_cnt (?s0\<lparr>ls_cnt := Suc 0\<rparr>) + length ?kvs, ls_entry := ([new_resource (trim n')], True)\<rparr>)"
    by (rule feed_entries) (auto simp: reading_def ls_start_def plain_key_def bnd_def find_entry_def ret_def)
  then have "feed_lines (out_line se find_entry) (err_line se)
      (printed [''# simple'', kv_line (''name'', n'), kv_line (''ral_unknown'', v)]) ?s0 =
      (Ok True, ?s0\<lparr>ls_cnt := 3, ls_entry := ([new_resource (trim n')], True)\<rparr>)"
    using first by (simp add: bnd_def ret_def ls_start_def numeral_3_eq_3)
  from run_action_fed [OF assms(1), where action = "''find''" and args = "[sp_arg ''name'' n]", simplified, OF assms(2) this]
  show ?thesis by (simp add: sp_get_def sp_find_def ls_start_def)
qed

theorem simple_get_unknown_drops_name_witness:
  "\<exists>s'. sp_get demo_sp_env (demo_output_target [''# simple'', ''name: vim'', ''ral_unknown: true''] True) [''vim''] demo_sp_state =
     (Ok [], s')"
  using simple_get_unknown_drops_name [of demo_sp_state
      "demo_output_target [''# simple'', ''name: vim'', ''ral_unknown: true''] True" "''vim''" "''vim''" "''true''" 1 demo_sp_env]
  by (simp add: kv_line_def)

end
