(* ===== verification/Json.thy ===== *)
theory Json
  imports AttrSpec
begin

section \<open>JSON documents\<close>

text \<open>
  The JSON library (leatherman's \<open>JsonContainer\<close>) is outside the repository: a document is an
  abstract type with a record of the operations the code calls. Reading throws a
  \<open>data_error\<close> (\<open>Exn (Data_error e)\<close>) when the key is missing or has another type; \<open>js_parse\<close> is
  none for a text that is not JSON. This theory also holds the conversions of
  \<open>lib/src/value.cc\<close> (\<open>to_json\<close>) and \<open>lib/src/attr/spec.cc\<close> (\<open>from_json\<close>).
\<close>

datatype json_type = Json_null | Json_array | Json_string | Json_int | Json_bool | Json_other

type_synonym json_key = "string list"

record 'j json_ops =
  js_parse :: "string \<Rightarrow> 'j option"
  js_print :: "'j \<Rightarrow> string"
  js_empty :: 'j
  js_keys :: "'j \<Rightarrow> string list"
  js_includes :: "'j \<Rightarrow> json_key \<Rightarrow> bool"
  js_type :: "'j \<Rightarrow> json_key \<Rightarrow> json_type outcome"
  js_get_string :: "'j \<Rightarrow> json_key \<Rightarrow> string outcome"
  js_get_bool :: "'j \<Rightarrow> json_key \<Rightarrow> bool outcome"
  js_get_int :: "'j \<Rightarrow> json_key \<Rightarrow> int outcome"
  js_get_strings :: "'j \<Rightarrow> json_key \<Rightarrow> string list outcome"
  js_get_objects :: "'j \<Rightarrow> json_key \<Rightarrow> 'j list outcome"
  js_string_default :: "'j \<Rightarrow> json_key \<Rightarrow> string \<Rightarrow> string outcome"
  js_bool_default :: "'j \<Rightarrow> json_key \<Rightarrow> bool \<Rightarrow> bool outcome"
  js_set_string :: "json_key \<Rightarrow> string \<Rightarrow> 'j \<Rightarrow> 'j"
  js_set_bool :: "json_key \<Rightarrow> bool \<Rightarrow> 'j \<Rightarrow> 'j"
  js_set_strings :: "json_key \<Rightarrow> string list \<Rightarrow> 'j \<Rightarrow> 'j"
  js_set_object :: "json_key \<Rightarrow> 'j \<Rightarrow> 'j \<Rightarrow> 'j"
  js_set_objects :: "json_key \<Rightarrow> 'j list \<Rightarrow> 'j \<Rightarrow> 'j"

text \<open>A value placed in a document by a provider call; \<open>none\<close> becomes the string \<open>null\<close>.\<close>

fun value_to_json :: "'j json_ops \<Rightarrow> json_key \<Rightarrow> value_base \<Rightarrow> 'j \<Rightarrow> 'j" where
  "value_to_json js key VNone j = js_set_string js key ''null'' j"
| "value_to_json js key (VBool b) j = js_set_bool js key b j"
| "value_to_json js key (VStr s) j = js_set_string js key s j"
| "value_to_json js key (VArr a) j = js_set_strings js key a j"

text \<open>
  The value of an attribute read from a document. The declared type plays no part; an integer is
  handed to a value, whose only arithmetic alternative is \<open>bool\<close>.
\<close>

definition spec_from_json :: "'j json_ops \<Rightarrow> 'j \<Rightarrow> json_key \<Rightarrow> value_base outcome" where
  "spec_from_json js j key = obind (js_type js j key) (\<lambda>t.
     case t of
       Json_null \<Rightarrow> Ok VNone
     | Json_array \<Rightarrow> obind (js_get_strings js j key) (\<lambda>a. Ok (VArr a))
     | Json_string \<Rightarrow> obind (js_get_string js j key) (\<lambda>s. Ok (VStr s))
     | Json_int \<Rightarrow> obind (js_get_int js j key) (\<lambda>i. Ok (VBool (i \<noteq> 0)))
     | Json_bool \<Rightarrow> obind (js_get_bool js j key) (\<lambda>b. Ok (VBool b))
     | Json_other \<Rightarrow> Err (''can not convert data type for '' @ join ''.'' key))"

end
