(* ===== verification/JsonProvider.thy ===== *)
theory JsonProvider
  imports SimpleProvider Json
begin

section \<open>Providers that follow the json calling convention\<close>

text \<open>
  \<open>lib/src/json_provider.cc\<close>: an executable that reads a JSON document on its standard input and
  prints one. The system is that of a simple provider: command object, world and log.
\<close>

definition log_text :: "sp_env \<Rightarrow> log_level \<Rightarrow> string \<Rightarrow> 'w sp_world \<Rightarrow> 'w sp_world" where
  "log_text se level t sw = (if se_enabled se level then sw\<lparr>sw_log := sw_log sw @ [(level, t)]\<rparr> else sw)"

fun log_lines :: "sp_env \<Rightarrow> string list \<Rightarrow> ('w sp_world, unit) prog" where
  "log_lines se [] sw = (Ok (), sw)"
| "log_lines se (l # ls) sw = (case log_line (se_enabled se) l of
      Ok None \<Rightarrow> log_lines se ls sw
    | Ok (Some t) \<Rightarrow> log_lines se ls (sw\<lparr>sw_log := sw_log sw @ [t]\<rparr>)
    | Err e \<Rightarrow> (Err e, sw)
    | Exn x \<Rightarrow> (Exn x, sw))"

text \<open>The lines that \<open>std::getline\<close> finds: no empty one after a final newline.\<close>

definition getlines :: "string \<Rightarrow> string list" where
  "getlines s = (if s = [] then [] else
     let ls = split_on (CHR 0x0A) s in if last ls = [] then butlast ls else ls)"

definition exec_cmd :: "'w target \<Rightarrow> string list \<Rightarrow> string option \<Rightarrow> ('w sp_world, cmd_result) prog" where
  "exec_cmd tgt args stdin sw = (case command_execute tgt args stdin (sw_cmd sw, sw_sys sw) of
     (r, (c, w)) \<Rightarrow> (r, sw\<lparr>sw_cmd := c, sw_sys := w\<rparr>))"

definition js_run_action :: "'j json_ops \<Rightarrow> sp_env \<Rightarrow> 'w target \<Rightarrow> string \<Rightarrow> 'j \<Rightarrow> ('w sp_world pst, 'j) prog" where
  "js_run_action js se tgt action json =
     (let inp = js_print js json in
      bnd (on_world (modify (log_text se Log_debug (''passing '' @ inp @ '' on stdin'')))) (\<lambda>_.
      bnd (on_world (exec_cmd tgt [''ral_action='' @ action] (Some inp))) (\<lambda>res.
      bnd (if cr_error res \<noteq> [] then on_world (log_lines se (getlines (cr_error res))) else ret ()) (\<lambda>_ s.
        if \<not> cr_success res \<and> cr_output res = []
        then (Err (context_error (p_ctx s) (''action '' @ quoted action @ '' exited with status '' @ show_int (cr_exit_code res))), s)
        else if \<not> cr_success res \<and> cr_error res = []
        then (Err (context_error (p_ctx s) (''action '' @ quoted action @ '' exited with status '' @
                show_int (cr_exit_code res) @ ''. Output was '' @ quoted (cr_output res))), s)
        else (case js_parse js (cr_output res) of
                Some j \<Rightarrow> (Ok j, s)
              | None \<Rightarrow> (Err (context_error (p_ctx s) (''action '' @ quoted action @ '' returned invalid JSON '' @
                           quoted (cr_output res))), s))))))"

text \<open>Whether the output reports an error, with its message and kind.\<close>

definition contains_error :: "'j json_ops \<Rightarrow> 'j \<Rightarrow> (string \<times> string) option outcome" where
  "contains_error js j =
     (if js_includes js j [''error'']
      then obind (js_string_default js j [''error'', ''message''] []) (\<lambda>m.
           obind (js_string_default js j [''error'', ''kind''] ''failed'') (\<lambda>k. Ok (Some (m, k))))
      else Ok None)"

definition value_from_json :: "'j json_ops \<Rightarrow> prov_spec \<Rightarrow> string \<Rightarrow> 'j \<Rightarrow> json_key \<Rightarrow> value_base option outcome" where
  "value_from_json js sp name j key = (case spec_attr sp name of
      None \<Rightarrow> Ok None
    | Some a \<Rightarrow> obind (spec_from_json js j key) (\<lambda>v. Ok (Some v)))"

text \<open>An error of a conversion becomes an error of the context.\<close>

definition ctx_lift :: "'b outcome \<Rightarrow> ('w pst, 'b) prog" where
  "ctx_lift r s = (case r of Err e \<Rightarrow> (Err (context_error (p_ctx s) e), s) | _ \<Rightarrow> (r, s))"

definition ctx_fail :: "string \<Rightarrow> ('w pst, 'b) prog" where
  "ctx_fail m s = (Err (context_error (p_ctx s) m), s)"

subsection \<open>Reading resources\<close>

fun attrs_from_json :: "'j json_ops \<Rightarrow> prov_spec \<Rightarrow> 'j \<Rightarrow> string list \<Rightarrow> resource \<Rightarrow> ('w pst, resource) prog" where
  "attrs_from_json js sp j [] r = ret r"
| "attrs_from_json js sp j (k # ks) r =
     (if k = ''name'' then attrs_from_json js sp j ks r
      else bnd (ctx_lift (value_from_json js sp k j [k])) (\<lambda>v.
        case v of
          Some x \<Rightarrow> bnd (lift (res_set r k x)) (\<lambda>r'. attrs_from_json js sp j ks r')
        | None \<Rightarrow> attrs_from_json js sp j ks r))"

definition resource_from_json :: "'j json_ops \<Rightarrow> prov_spec \<Rightarrow> 'j \<Rightarrow> ('w pst, resource) prog" where
  "resource_from_json js sp j = bnd (lift (js_get_string js j [''name''])) (\<lambda>name.
     attrs_from_json js sp j (js_keys js j) (new_resource name))"

fun resources_from_json :: "'j json_ops \<Rightarrow> prov_spec \<Rightarrow> 'j list \<Rightarrow> ('w pst, resource list) prog" where
  "resources_from_json js sp [] = ret []"
| "resources_from_json js sp (j # jl) = bnd (resource_from_json js sp j) (\<lambda>r.
     bnd (resources_from_json js sp jl) (\<lambda>rs. ret (r # rs)))"

definition calling_convention :: "'j json_ops \<Rightarrow> 'j \<Rightarrow> string \<Rightarrow> ('w pst, 'b) prog" where
  "calling_convention js out e = ctx_fail (''output does not conform to calling convention: '' @ js_print js out)"

definition js_get :: "'j json_ops \<Rightarrow> sp_env \<Rightarrow> 'w target \<Rightarrow> prov_spec \<Rightarrow> string list \<Rightarrow> ('w sp_world pst, resource list) prog" where
  "js_get js se tgt sp names =
     bnd (js_run_action js se tgt ''get'' (js_set_strings js [''names''] names (js_empty js))) (\<lambda>out.
       catch_data
         (bnd (lift (contains_error js out)) (\<lambda>err.
            case err of
              Some (message, kind) \<Rightarrow> ctx_fail (''get failed with error '' @ message)
            | None \<Rightarrow>
                if \<not> js_includes js out [''resources''] then ctx_fail (''get did not produce a '' @ quoted ''resources'' @ '' entry'')
                else bnd (lift (js_get_objects js out [''resources''])) (resources_from_json js sp)))
         (calling_convention js out))"

subsection \<open>Updating\<close>

definition attrs_to_json :: "'j json_ops \<Rightarrow> string \<Rightarrow> resource \<Rightarrow> 'j \<Rightarrow> 'j" where
  "attrs_to_json js at r j = foldl (\<lambda>j (k, v). value_to_json js [at, k] v j) j (attrs r)"

definition update_to_json :: "'j json_ops \<Rightarrow> update \<Rightarrow> 'j" where
  "update_to_json js u = attrs_to_json js ''should'' (upd_should u)
     (attrs_to_json js ''is'' (upd_is u) (js_set_string js [''name''] (upd_name u) (js_empty js)))"

definition set_input :: "'j json_ops \<Rightarrow> update list \<Rightarrow> 'j" where
  "set_input js us = js_set_objects js [''updates''] (map (update_to_json js) us)
     (js_set_bool js [''ral'', ''noop''] False (js_empty js))"

text \<open>One reported change. The dereference of a value for an attribute the provider does not
  have is undefined. The second missing entry is reported without the provider's name.\<close>

definition change_from_json :: "'j json_ops \<Rightarrow> prov_spec \<Rightarrow> string \<Rightarrow> 'j \<Rightarrow> string \<Rightarrow> ('w pst, unit) prog" where
  "change_from_json js sp name j k =
     (if \<not> js_includes js j [k, ''is'']
      then ctx_fail (''malformed change: entry for '' @ name @ ''.'' @ k @ '' does not contain '' @ quoted ''is'')
      else if \<not> js_includes js j [k, ''was'']
      then fail (''malformed change: entry for '' @ name @ ''.'' @ k @ '' does not contain '' @ quoted ''was'')
      else bnd (ctx_lift (value_from_json js sp k j [k, ''is''])) (\<lambda>is.
           bnd (ctx_lift (value_from_json js sp k j [k, ''was''])) (\<lambda>was.
             case (is, was) of
               (Some i, Some w) \<Rightarrow> modify (with_ctx (\<lambda>cx. set_changes name (changes_add k i w (changes_of cx name)) cx))
             | _ \<Rightarrow> throw (Undefined ''value of an empty optional''))))"

definition change_entry :: "'j json_ops \<Rightarrow> prov_spec \<Rightarrow> 'j \<Rightarrow> ('w pst, unit) prog" where
  "change_entry js sp j =
     (if \<not> js_includes js j [''name''] then ctx_fail ''malformed change: entry does not contain a name''
      else bnd (lift (js_get_string js j [''name''])) (\<lambda>name.
           bnd (modify (with_ctx (changes_for name))) (\<lambda>_.
             for_each (\<lambda>k. if k = ''name'' then ret () else change_from_json js sp name j k) (js_keys js j))))"

definition derive_changes :: "update \<Rightarrow> ('w pst, unit) prog" where
  "derive_changes u s =
     (if have_changes (p_ctx s) (upd_name u) then (Ok (), s)
      else (let cx = changes_for (upd_name u) (p_ctx s) in
            case maybe_add u (changes_of cx (upd_name u)) of
              Ok (_, chgs) \<Rightarrow> (Ok (), s\<lparr>p_ctx := set_changes (upd_name u) chgs cx\<rparr>)
            | Err e \<Rightarrow> (Err e, s\<lparr>p_ctx := cx\<rparr>)
            | Exn x \<Rightarrow> (Exn x, s\<lparr>p_ctx := cx\<rparr>)))"

definition js_set :: "'j json_ops \<Rightarrow> sp_env \<Rightarrow> 'w target \<Rightarrow> prov_spec \<Rightarrow> update list \<Rightarrow> ('w sp_world pst, unit) prog" where
  "js_set js se tgt sp us = bnd (js_run_action js se tgt ''set'' (set_input js us)) (\<lambda>out.
     catch_data
       (bnd (lift (contains_error js out)) (\<lambda>err.
          case err of
            Some (message, kind) \<Rightarrow> ctx_fail (''update failed: '' @ message)
          | None \<Rightarrow>
              bnd (if js_includes js out [''changes'']
                   then bnd (lift (js_get_objects js out [''changes''])) (for_each (change_entry js sp))
                   else ret ()) (\<lambda>_.
              bnd (lift (js_bool_default js out [''derive''] False)) (\<lambda>derive.
                if derive then for_each derive_changes us else ret ()))))
       (calling_convention js out))"

definition json_provider :: "'j json_ops \<Rightarrow> sp_env \<Rightarrow> 'w target \<Rightarrow> prov_spec \<Rightarrow> string \<Rightarrow> 'w sp_world provider" where
  "json_provider js se tgt sp path = \<lparr>pv_spec = Some sp, pv_source = path, pv_get = js_get js se tgt sp, pv_set = js_set js se tgt sp\<rparr>"

definition simple_provider :: "sp_env \<Rightarrow> 'w target \<Rightarrow> prov_spec \<Rightarrow> string \<Rightarrow> 'w sp_world provider" where
  "simple_provider se tgt sp path = \<lparr>pv_spec = Some sp, pv_source = path, pv_get = sp_get se tgt, pv_set = sp_set se tgt\<rparr>"

subsection \<open>Running an action\<close>

lemma exec_cmd_plain:
  "\<not> c_needs_upload (sw_cmd sw) \<Longrightarrow> t_execute tgt (c_cmd (sw_cmd sw)) args stdin (sw_sys sw) = (res, w) \<Longrightarrow>
    exec_cmd tgt args stdin sw = (Ok res, sw\<lparr>sw_sys := w\<rparr>)"
  by (simp add: exec_cmd_def command_execute_def command_upload_def)

lemma log_text_simps [simp]:
  "sw_cmd (log_text se l t sw) = sw_cmd sw" "sw_sys (log_text se l t sw) = sw_sys sw"
  by (simp_all add: log_text_def)

definition action_accepted :: "cmd_result \<Rightarrow> bool" where
  "action_accepted res \<longleftrightarrow> cr_success res \<or> (cr_output res \<noteq> [] \<and> cr_error res \<noteq> [])"

text \<open>When an action succeeds. A command that exits successfully and prints a JSON document has
  succeeded; but so has one that fails, as long as it printed both a document and
  something on its standard error: only a failure with one of the two empty is reported.\<close>

theorem json_action_accepts:
  assumes "\<not> c_needs_upload (sw_cmd (p_world s))"
    and "t_execute tgt (c_cmd (sw_cmd (p_world s))) [''ral_action='' @ action] (Some (js_print js json)) (sw_sys (p_world s)) = (res, w)"
    and "\<forall>line \<in> set (getlines (cr_error res)). is_Ok (log_line (se_enabled se) line)"
  shows "(\<exists>j s'. js_run_action js se tgt action json s = (Ok j, s')) \<longleftrightarrow>
    action_accepted res \<and> js_parse js (cr_output res) \<noteq> None"
proof -
  let ?sw = "log_text se Log_debug (''passing '' @ js_print js json @ '' on stdin'') (p_world s)"
  have run: "exec_cmd tgt [''ral_action='' @ action] (Some (js_print js json)) ?sw = (Ok res, ?sw\<lparr>sw_sys := w\<rparr>)"
    using assms(1,2) by (intro exec_cmd_plain) simp_all
  have "\<exists>sw'. log_lines se ls sw = (Ok (), sw')" if "\<forall>line \<in> set ls. is_Ok (log_line (se_enabled se) line)" for ls and sw :: "'a sp_world"
    using that by (induction se ls sw rule: log_lines.induct) (auto split: outcome.splits option.splits)
  from this [OF assms(3), of "?sw\<lparr>sw_sys := w\<rparr>"] obtain sw' where
    log: "log_lines se (getlines (cr_error res)) (?sw\<lparr>sw_sys := w\<rparr>) = (Ok (), sw')" by blast
  show ?thesis
    by (cases "cr_error res = []"; cases "cr_output res = []"; cases "cr_success res"; cases "js_parse js (cr_output res)")
      (simp_all add: js_run_action_def Let_def bnd_def on_world_def modify_def ret_def action_accepted_def run log del: append_Cons)
qed

definition demo_json :: "nat json_ops" where
  "demo_json = \<lparr>js_parse = (\<lambda>t. if t = ''{}'' then Some 0 else None), js_print = (\<lambda>j. ''{}''), js_empty = 0, js_keys = (\<lambda>j. [''mode'']),
     js_includes = (\<lambda>j k. True), js_type = (\<lambda>j k. Ok Json_string), js_get_string = (\<lambda>j k. Ok ''x''),
     js_get_bool = (\<lambda>j k. Ok True), js_get_int = (\<lambda>j k. Ok 0), js_get_strings = (\<lambda>j k. Ok []), js_get_objects = (\<lambda>j k. Ok []),
     js_string_default = (\<lambda>j k d. Ok d), js_bool_default = (\<lambda>j k d. Ok d), js_set_string = (\<lambda>k v j. j), js_set_bool = (\<lambda>k v j. j),
     js_set_strings = (\<lambda>k v j. j), js_set_object = (\<lambda>k v j. j), js_set_objects = (\<lambda>k v j. j)\<rparr>"

theorem json_action_accepts_witness:
  "\<exists>j s'. js_run_action demo_json demo_sp_env
     ((demo_output_target [] True)\<lparr>t_execute := \<lambda>f a i w. (\<lparr>cr_success = False, cr_output = ''{}'', cr_error = ''no such package'', cr_exit_code = 7\<rparr>, w)\<rparr>)
     ''get'' 0 demo_sp_state = (Ok j, s')"
  by (subst json_action_accepts [where res = "\<lparr>cr_success = False, cr_output = ''{}'', cr_error = ''no such package'', cr_exit_code = 7\<rparr>" and w = 0])
    (simp_all add: getlines_def log_line_def line_level_def log_levels_def istarts_with_def to_upper_def is_lower_def
      substr_from_def Let_def action_accepted_def demo_json_def less_eq_char_def)

text \<open>An attribute that the provider's metadata does not know is skipped when it appears in a
  resource, but in a reported change it makes \<open>set\<close> read an optional that is empty, which is
  undefined.\<close>

theorem json_unknown_attribute:
  assumes "spec_attr sp k = None" and "k \<noteq> ''name''" and "js_keys js j = [k]"
    and "\<And>key. js_includes js j key" and "js_get_string js j [''name''] = Ok n"
  shows "resource_from_json js sp j s = (Ok (new_resource n), s) \<and>
    (\<exists>s'. change_entry js sp j s = (Exn (Undefined ''value of an empty optional''), s'))"
  using assms by (simp add: resource_from_json_def change_entry_def change_from_json_def value_from_json_def ctx_lift_def
      bnd_def lift_def ret_def throw_def modify_def)

theorem json_unknown_attribute_witness:
  "\<exists>s'. change_entry demo_json (the (pv_spec (demo_provider []))) 0 (start (demo_provider []) (0 :: nat)) =
     (Exn (Undefined ''value of an empty optional''), s')"
  using json_unknown_attribute [of "the (pv_spec (demo_provider []))" "''mode''" demo_json 0 "''x''" "start (demo_provider []) (0 :: nat)"]
  by (simp add: demo_provider_def demo_json_def spec_attr_def)

text \<open>An integer in a document becomes a boolean, whatever the type of the attribute.\<close>

lemma json_integer_is_boolean:
  "js_type js j key = Ok Json_int \<Longrightarrow> js_get_int js j key = Ok i \<Longrightarrow> spec_from_json js j key = Ok (VBool (i \<noteq> 0))"
  by (simp add: spec_from_json_def)

end
