(* ===== verification/JsonErrors.thy ===== *)
theory JsonErrors
  imports JsonProvider
begin

section \<open>The errors of providers with the json calling convention\<close>

text \<open>
  The test of \<open>lib/tests/json_provider.cc\<close> requires that every error message of such a provider contains the provider's
  name. Here this is proved for \<open>get\<close>, with the name in front, and for \<open>set\<close> but for the one message of
  \<open>lib/src/json_provider.cc\<close> that is made without the context.
\<close>

definition from_provider :: "string \<Rightarrow> string \<Rightarrow> bool" where
  "from_provider q e \<longleftrightarrow> (\<exists>m. e = ''['' @ q @ ''] '' @ m)"

definition was_missing :: "string \<Rightarrow> bool" where
  "was_missing e \<longleftrightarrow> (\<exists>n k. e = ''malformed change: entry for '' @ n @ ''.'' @ k @ '' does not contain '' @ quoted ''was'')"

lemma was_missing_intro [simp]:
  "was_missing (''malformed change: entry for '' @ n @ ''.'' @ k @ '' does not contain '' @ quoted ''was'')"
  unfolding was_missing_def by blast

text \<open>The JSON library reports what it refuses by exceptions only.\<close>

definition json_throws :: "'j json_ops \<Rightarrow> bool" where
  "json_throws js \<longleftrightarrow> (\<forall>j k. \<not> is_Err (js_type js j k) \<and> \<not> is_Err (js_get_string js j k) \<and> \<not> is_Err (js_get_bool js j k) \<and>
     \<not> is_Err (js_get_int js j k) \<and> \<not> is_Err (js_get_strings js j k) \<and> \<not> is_Err (js_get_objects js j k) \<and>
     (\<forall>d. \<not> is_Err (js_string_default js j k d)) \<and> (\<forall>d. \<not> is_Err (js_bool_default js j k d)))"

subsection \<open>Code whose errors are of a certain form\<close>

definition errors_in :: "(string \<Rightarrow> bool) \<Rightarrow> string \<Rightarrow> ('w pst, 'a) prog \<Rightarrow> bool" where
  "errors_in P q m \<longleftrightarrow> (\<forall>s r t. m s = (r, t) \<longrightarrow> cx_qname (p_ctx s) = q \<longrightarrow>
     cx_qname (p_ctx t) = q \<and> (\<forall>e. r = Err e \<longrightarrow> P e))"

named_theorems errors_intros "rules for errors_in"

lemma errors_inD: "errors_in P q m \<Longrightarrow> m s = (r, t) \<Longrightarrow> cx_qname (p_ctx s) = q \<Longrightarrow> cx_qname (p_ctx t) = q \<and> (\<forall>e. r = Err e \<longrightarrow> P e)"
  unfolding errors_in_def by blast

lemma errors_bnd [errors_intros]:
  assumes "errors_in P q m" and "\<And>a. errors_in P q (f a)"
  shows "errors_in P q (bnd m f)"
  unfolding errors_in_def
proof (intro allI impI)
  fix s r t assume run: "bnd m f s = (r, t)" and "cx_qname (p_ctx s) = q"
  obtain r1 t1 where m: "m s = (r1, t1)" by fastforce
  from errors_inD [OF assms(1) m \<open>cx_qname (p_ctx s) = q\<close>] have one: "cx_qname (p_ctx t1) = q" "r1 = Err e \<Longrightarrow> P e" for e by auto
  from run m one show "cx_qname (p_ctx t) = q \<and> (\<forall>e. r = Err e \<longrightarrow> P e)"
    by (cases r1) (auto simp: bnd_def dest: errors_inD [OF assms(2)])
qed

lemma errors_simple [errors_intros]:
  "errors_in P q (ret a)" "errors_in P q (throw x)" "P e \<Longrightarrow> errors_in P q (fail e)"
  "(\<And>e. r = Err e \<Longrightarrow> P e) \<Longrightarrow> errors_in P q (lift r)"
  "(\<And>cx. cx_qname (g cx) = cx_qname cx) \<Longrightarrow> errors_in P q (modify (with_ctx g))"
  by (simp_all add: errors_in_def ret_def throw_def fail_def lift_def modify_def)

lemma errors_if [errors_intros]:
  "(b \<Longrightarrow> errors_in P q m) \<Longrightarrow> (\<not> b \<Longrightarrow> errors_in P q m') \<Longrightarrow> errors_in P q (if b then m else m')"
  by simp

lemma errors_option [errors_intros]:
  "(x = None \<Longrightarrow> errors_in P q m) \<Longrightarrow> (\<And>a. x = Some a \<Longrightarrow> errors_in P q (f a)) \<Longrightarrow>
    errors_in P q (case x of None \<Rightarrow> m | Some a \<Rightarrow> f a)"
  by (cases x) simp_all

lemma errors_for_each [errors_intros]: "(\<And>x. errors_in P q (f x)) \<Longrightarrow> errors_in P q (for_each f xs)"
  by (induction xs) (auto intro: errors_intros)

lemma errors_catch [errors_intros]:
  assumes "errors_in P q m" and "\<And>e. errors_in P q (h e)"
  shows "errors_in P q (catch_data m h)"
  unfolding errors_in_def
proof (intro allI impI)
  fix s r t assume run: "catch_data m h s = (r, t)" and "cx_qname (p_ctx s) = q"
  obtain r1 t1 where m: "m s = (r1, t1)" by fastforce
  from errors_inD [OF assms(1) m \<open>cx_qname (p_ctx s) = q\<close>] have one: "cx_qname (p_ctx t1) = q" "r1 = Err e \<Longrightarrow> P e" for e by auto
  from run m one show "cx_qname (p_ctx t) = q \<and> (\<forall>e. r = Err e \<longrightarrow> P e)"
    by (auto simp: catch_data_def dest: errors_inD [OF assms(2)] split: outcome.splits exn.splits)
qed

lemma errors_on_world [errors_intros]: "(\<And>w. \<not> is_Err (fst (m w))) \<Longrightarrow> errors_in P q (on_world m)"
  unfolding errors_in_def
proof (intro allI impI)
  fix s r t assume no: "\<And>w. \<not> is_Err (fst (m w))" and "on_world m s = (r, t)" and "cx_qname (p_ctx s) = q"
  moreover have "m (p_world s) \<noteq> (Err e, w)" for e w using no [of "p_world s"] by auto
  ultimately show "cx_qname (p_ctx t) = q \<and> (\<forall>e. r = Err e \<longrightarrow> P e)"
    by (auto simp: on_world_def split: prod.splits)
qed

text \<open>What goes through the context carries its name.\<close>

lemma errors_ctx [errors_intros]:
  "(\<And>m. P (''['' @ q @ ''] '' @ m)) \<Longrightarrow> errors_in P q (ctx_fail m)"
  "(\<And>m. P (''['' @ q @ ''] '' @ m)) \<Longrightarrow> errors_in P q (ctx_lift r)"
  "(\<And>m. P (''['' @ q @ ''] '' @ m)) \<Longrightarrow> errors_in P q (calling_convention js out e)"
  by (auto simp: errors_in_def ctx_fail_def ctx_lift_def calling_convention_def context_error_def split: outcome.splits)

subsection \<open>The operations\<close>

lemma json_throwsD:
  assumes "json_throws js"
  shows "js_type js j k \<noteq> Err e" "js_get_string js j k \<noteq> Err e" "js_get_bool js j k \<noteq> Err e" "js_get_int js j k \<noteq> Err e"
    "js_get_strings js j k \<noteq> Err e" "js_get_objects js j k \<noteq> Err e" "js_string_default js j k d \<noteq> Err e"
    "js_bool_default js j k d' \<noteq> Err e"
  using assms unfolding json_throws_def by (metis is_Err.simps(2))+

lemma log_line_no_err: "log_line en l \<noteq> Err e"
  by (auto simp: log_line_def substr_from_def Let_def obind_Err_iff split: prod.splits if_splits)

lemma log_lines_no_err: "\<not> is_Err (fst (log_lines se ls sw))"
  by (induction se ls sw rule: log_lines.induct) (auto simp: log_line_no_err split: outcome.split option.split)

lemma exec_cmd_no_err: "\<not> is_Err (fst (exec_cmd tgt args stdin sw))"
  by (auto simp: exec_cmd_def command_execute_def split: prod.split outcome.split)

lemma maybe_add_no_err: "maybe_add u c \<noteq> Err e"
proof -
  have at: "upd_at u k \<noteq> Err e" "upd_changed u k \<noteq> Err e" "res_at r k \<noteq> Err e" for k r e
    by (auto simp: upd_at_def upd_changed_def res_at_def obind_Err_iff split: if_splits)
  have "maybe_add_loop as u c \<noteq> Err e" for as c e
    by (induction as u c rule: maybe_add_loop.induct) (auto simp: obind_Err_iff at split: if_splits prod.splits)
  then show ?thesis by (auto simp: maybe_add_def obind_Err_iff at split: if_splits)
qed

text \<open>A set of errors that has all errors of the context of one provider.\<close>

locale error_policy =
  fixes P :: "string \<Rightarrow> bool" and q :: string
  assumes context_errors: "P (''['' @ q @ ''] '' @ m)"
begin

lemmas through_context = errors_ctx [of P q, OF context_errors]

lemma run_action_errors: "errors_in P q (js_run_action js se tgt action json)"
proof -
  have last: "errors_in P q (\<lambda>s.
      if \<not> cr_success res \<and> cr_output res = []
        then (Err (context_error (p_ctx s) m1), s)
        else if \<not> cr_success res \<and> cr_error res = []
        then (Err (context_error (p_ctx s) m2), s)
        else (case js_parse js (cr_output res) of
                Some j \<Rightarrow> (Ok j, s)
              | None \<Rightarrow> (Err (context_error (p_ctx s) m3), s)))" for res m1 m2 m3
    using context_errors by (auto simp: errors_in_def context_error_def split: option.splits if_splits)
  show ?thesis
    unfolding js_run_action_def Let_def
    by (intro errors_intros last) (simp_all add: modify_def exec_cmd_no_err log_lines_no_err)
qed

lemma contains_error_no_err: "json_throws js \<Longrightarrow> contains_error js j \<noteq> Err e"
  by (auto simp: contains_error_def obind_Err_iff json_throwsD)

lemma attrs_from_json_errors: "errors_in P q (attrs_from_json js sp j ks r)"
  by (induction js sp j ks r rule: attrs_from_json.induct)
    (auto intro!: errors_intros through_context simp: res_set_def split: if_splits)

lemma resources_from_json_errors: "json_throws js \<Longrightarrow> errors_in P q (resources_from_json js sp js_rsrcs)"
  by (induction js_rsrcs)
    (auto intro!: errors_intros attrs_from_json_errors simp: resource_from_json_def json_throwsD)

lemma get_errors: "json_throws js \<Longrightarrow> errors_in P q (js_get js se tgt sp ns)"
  unfolding js_get_def split_def
  by (intro errors_intros through_context run_action_errors resources_from_json_errors)
    (auto simp: contains_error_no_err json_throwsD intro!: errors_intros through_context resources_from_json_errors)

end

locale set_error_policy = error_policy +
  assumes missing_was: "was_missing e \<Longrightarrow> P e"
begin

lemma derive_changes_errors: "errors_in P q (derive_changes u)"
  by (auto simp: errors_in_def derive_changes_def maybe_add_no_err changes_for_def set_changes_def Let_def split: outcome.splits if_splits)

lemma change_from_json_errors: "errors_in P q (change_from_json js sp name j k)"
  unfolding change_from_json_def
  by (auto intro!: errors_intros through_context missing_was was_missing_intro simp del: append.simps simp: set_changes_def split: option.split)

lemma change_entry_errors: "json_throws js \<Longrightarrow> errors_in P q (change_entry js sp j)"
  unfolding change_entry_def
  by (auto intro!: errors_intros through_context change_from_json_errors simp: json_throwsD changes_for_def)

lemma set_errors: "json_throws js \<Longrightarrow> errors_in P q (js_set js se tgt sp us)"
  unfolding js_set_def split_def
  by (intro errors_intros through_context run_action_errors)
    (auto simp: contains_error_no_err json_throwsD intro!: errors_intros through_context change_entry_errors derive_changes_errors)

end

interpretation named_errors: error_policy "from_provider q" q for q
  by unfold_locales (simp add: from_provider_def)

interpretation set_named_errors: set_error_policy "\<lambda>e. from_provider q e \<or> was_missing e" q for q
  by unfold_locales (simp_all add: from_provider_def)

subsection \<open>What callers see\<close>

text \<open>C39: every error that a provider with the json calling convention reports says which provider it comes
  from: the message of a failed \<open>get\<close> starts with the qualified name in brackets, and so does that of a
  failed \<open>set\<close>, with one exception, the message for a reported change without \<open>was\<close>.\<close>

theorem json_errors_named:
  assumes "json_throws js" and "p = json_provider js se tgt sp path"
  shows "(provider_get p ns w = (Err e, w') \<longrightarrow> from_provider (ps_qname sp) e) \<and>
    (provider_set p rs w = (Err e, w') \<longrightarrow> from_provider (ps_qname sp) e \<or> was_missing e)"
proof -
  let ?q = "ps_qname sp"
  have get: "pv_get p = js_get js se tgt sp" and set: "pv_set p = js_set js se tgt sp"
    and start: "cx_qname (p_ctx (start p v)) = ?q" for v
    by (simp_all add: assms(2) json_provider_def start_def new_context_def)
  note get_err = errors_inD [OF named_errors.get_errors [OF assms(1)] _ start]
  note set_err = errors_inD [OF set_named_errors.set_errors [OF assms(1)]]
  have "provider_get p ns w = (Err e, w') \<Longrightarrow> from_provider ?q e"
    by (auto simp: provider_get_def get split: prod.splits dest!: get_err)
  moreover have "provider_set p rs w = (Err e, w') \<Longrightarrow> from_provider ?q e \<or> was_missing e"
    by (auto simp: provider_set_def get set Let_def split: prod.splits outcome.splits dest!: get_err set_err)
  ultimately show ?thesis by blast
qed

theorem json_errors_named_witness:
  "\<exists>e w'. provider_get (json_provider demo_json demo_sp_env (demo_output_target [] True) (the (pv_spec (demo_provider []))) [])
       [] (p_world demo_sp_state) = (Err e, w') \<and> from_provider (ps_qname (the (pv_spec (demo_provider [])))) e"
  (is "\<exists>e w'. provider_get ?p [] (p_world demo_sp_state) = (Err e, w') \<and> _")
proof -
  have "json_throws demo_json" by (simp add: json_throws_def demo_json_def)
  note named = json_errors_named [OF this refl, of demo_sp_env "demo_output_target [] True" "the (pv_spec (demo_provider []))" "[]"]
  have "\<exists>e w'. provider_get ?p [] (p_world demo_sp_state) = (Err e, w')"
    by (simp add: provider_get_def json_provider_def js_get_def js_run_action_def bnd_def on_world_def modify_def start_def
      exec_cmd_plain demo_output_target_def demo_json_def demo_sp_env_def ret_def log_text_def Let_def)
  then show ?thesis using named by blast
qed

end
