(* ===== verification/Mrb.thy ===== *)
theory Mrb
  imports ProvSpec
begin

section \<open>The wrapper around the Ruby interpreter\<close>

text \<open>
  \<open>lib/inc/libral/mruby.hpp\<close>: the calls through which provider metadata are read. The interpreter's own functions are
  code of another repository, so they are parameters, \<open>rt_ops\<close>, over a state of the interpreter. An exception of Ruby does
  not leave such a function; it stays pending in the interpreter's state, and the wrapper turns it into an
  error. At the end the wrapper is put below \<open>ProvSpec\<close>: reading metadata through it is one case of the
  parameter \<open>mrb_ops\<close> there.
\<close>

record ('i, 'v) rt_ops =
  rt_open :: "'i option"
  rt_pending :: "'i \<Rightarrow> 'v option"
  rt_set_pending :: "'v option \<Rightarrow> 'i \<Rightarrow> 'i"
  rt_module :: "string \<Rightarrow> 'i \<Rightarrow> 'v \<times> 'i"
  rt_str :: "string \<Rightarrow> 'i \<Rightarrow> 'v \<times> 'i"
  rt_funcall :: "'v \<Rightarrow> string \<Rightarrow> 'v list \<Rightarrow> 'i \<Rightarrow> 'v \<times> 'i"
  rt_string :: "'v \<Rightarrow> 'i \<Rightarrow> string option"
  rt_yval :: "'v \<Rightarrow> 'i \<Rightarrow> yval"
  rt_access :: "'v \<Rightarrow> 'i \<Rightarrow> 'i"

subsection \<open>Exceptions become errors\<close>

definition has_exc :: "('i, 'v) rt_ops \<Rightarrow> 'i \<Rightarrow> bool" where
  "has_exc rt i \<longleftrightarrow> rt_pending rt i \<noteq> None"

text \<open>The text of the message ends at its first zero byte; a message that is not a string is read as one.\<close>

definition exc_as_error :: "('i, 'v) rt_ops \<Rightarrow> ('i, 'a) prog" where
  "exc_as_error rt i = (case rt_pending rt i of
      Some e \<Rightarrow> (case rt_funcall rt e ''message'' [] i of (v, i1) \<Rightarrow>
        (let i2 = rt_set_pending rt None i1
         in case rt_string rt v i2 of
              Some m \<Rightarrow> (Err (c_str m), i2)
            | None \<Rightarrow> (Exn (Undefined ''the message of an exception is not a string''), i2)))
    | None \<Rightarrow> (Err ''internal error: exc_as_error called even though there was no exception'', i))"

definition check_value :: "('i, 'v) rt_ops \<Rightarrow> 'v \<Rightarrow> ('i, 'v) prog" where
  "check_value rt v i = (if has_exc rt i then exc_as_error rt i else (Ok v, i))"

definition str_new :: "('i, 'v) rt_ops \<Rightarrow> string \<Rightarrow> ('i, 'v) prog" where
  "str_new rt t i = (case rt_str rt t i of (v, i1) \<Rightarrow> check_value rt v i1)"

definition funcall :: "('i, 'v) rt_ops \<Rightarrow> 'v \<Rightarrow> string \<Rightarrow> 'v \<Rightarrow> ('i, 'v) prog" where
  "funcall rt obj name arg i = (case rt_funcall rt obj name [arg] i of (v, i1) \<Rightarrow> check_value rt v i1)"

text \<open>The variant that makes the argument from a text.\<close>

definition funcall_text :: "('i, 'v) rt_ops \<Rightarrow> 'v \<Rightarrow> string \<Rightarrow> string \<Rightarrow> ('i, 'v) prog" where
  "funcall_text rt rc name arg i = (case rt_str rt arg i of (s, i1) \<Rightarrow>
      if rt_pending rt i1 \<noteq> None then (Err ''Failed to make string'', i1)
      else (case rt_funcall rt rc name [s] i1 of (v, i2) \<Rightarrow> check_value rt v i2))"

definition open_mruby :: "('i, 'v) rt_ops \<Rightarrow> 'i outcome" where
  "open_mruby rt = (case rt_open rt of None \<Rightarrow> Err ''Failed to open MRuby'' | Some i \<Rightarrow> Ok i)"

text \<open>Parsing a text as YAML, and the reading of metadata through the wrapper as \<open>ProvSpec\<close> sees it. \<open>rt_access\<close> is what looking into
  the value does to the interpreter.\<close>

definition load_yaml :: "('i, 'v) rt_ops \<Rightarrow> string \<Rightarrow> ('i, 'v) prog" where
  "load_yaml rt yaml i = (case rt_module rt ''YAML'' i of (rc, i1) \<Rightarrow> funcall_text rt rc ''load'' yaml i1)"

definition loaded :: "('i, 'v) rt_ops \<Rightarrow> string \<Rightarrow> yval outcome \<times> 'i option" where
  "loaded rt yaml = (case open_mruby rt of
      Ok i \<Rightarrow> (case load_yaml rt yaml i of
          (Ok v, i1) \<Rightarrow> (Ok (rt_yval rt v i1), Some (rt_access rt v i1))
        | (Err e, i1) \<Rightarrow> (Err e, Some i1)
        | (Exn x, i1) \<Rightarrow> (Exn x, Some i1))
    | Err e \<Rightarrow> (Err e, None)
    | Exn x \<Rightarrow> (Exn x, None))"

definition wrapper_ops :: "('i, 'v) rt_ops \<Rightarrow> mrb_ops" where
  "wrapper_ops rt = \<lparr>mo_open = is_Ok (open_mruby rt),
     mo_load = (\<lambda>yaml. fst (loaded rt yaml)),
     mo_exc = (\<lambda>yaml. case snd (loaded rt yaml) of
        Some i \<Rightarrow> (if has_exc rt i then (case (exc_as_error rt i :: unit outcome \<times> 'i) of (Err e, i1) \<Rightarrow> Some e | _ \<Rightarrow> None) else None)
      | None \<Rightarrow> None)\<rparr>"

subsection \<open>What a call leaves behind\<close>

text \<open>Setting the pending exception to none does so.\<close>

definition clears_pending :: "('i, 'v) rt_ops \<Rightarrow> bool" where
  "clears_pending rt \<longleftrightarrow> (\<forall>i. rt_pending rt (rt_set_pending rt None i) = None)"

lemma exc_as_error_clears:
  "clears_pending rt \<Longrightarrow> has_exc rt i \<Longrightarrow> exc_as_error rt i = (r, i') \<Longrightarrow> \<not> has_exc rt i' \<and> \<not> is_Ok r"
  by (auto simp: exc_as_error_def has_exc_def Let_def clears_pending_def split: prod.splits option.splits)

lemma check_clears:
  assumes "clears_pending rt" and "check_value rt v i = (r, i')"
  shows "\<not> has_exc rt i' \<and> (is_Ok r \<longleftrightarrow> \<not> has_exc rt i)"
  using assms exc_as_error_clears [OF assms(1), of i r i'] by (auto simp: check_value_def split: if_splits)

text \<open>No call leaves an exception pending, but for the one that could not make its argument.\<close>

lemma calls_clear:
  assumes "clears_pending rt"
  shows "str_new rt t i = (r, i') \<Longrightarrow> \<not> has_exc rt i'"
    and "funcall rt obj name arg i = (r, i') \<Longrightarrow> \<not> has_exc rt i'"
    and "funcall_text rt obj name t i = (r, i') \<Longrightarrow> has_exc rt i' \<Longrightarrow> r = Err ''Failed to make string''"
  using check_clears [OF assms]
  by (auto simp: str_new_def funcall_def funcall_text_def split: prod.splits if_splits)

text \<open>A text that the parser rejects with an exception is reported with the message of that exception, and nothing of
  the target is looked at.\<close>

lemma yaml_exception_reported:
  assumes "rt_open rt = Some i" and "rt_module rt ''YAML'' i = (rc, i1)" and "rt_str rt yaml i1 = (t, i2)"
    and "rt_pending rt i2 = None" and "rt_funcall rt rc ''load'' [t] i2 = (v, i3)" and "rt_pending rt i3 = Some e"
    and "rt_funcall rt e ''message'' [] i3 = (m, i4)" and "rt_string rt m (rt_set_pending rt None i4) = Some msg"
  shows "spec_read (wrapper_ops rt) which name yaml suitable w = (Err (''failed to parse provider metadata: '' @ c_str msg), w)"
  using assms
  by (simp add: spec_read_def wrapper_ops_def loaded_def open_mruby_def load_yaml_def funcall_text_def check_value_def has_exc_def
      exc_as_error_def Let_def fail_def)

end
