(* ===== verification/Augeas.thy ===== *)
theory Augeas
  imports Resource Target
begin

section \<open>Augeas handles and nodes\<close>

text \<open>
  \<open>lib/src/augeas/handle.cc\<close>, \<open>lib/src/augeas/node.cc\<close> and the \<open>augeas\<close> functions of the
  targets: trees of configuration files, edited through the augeas library. The library is a
  record of its entry points on an abstract tree; after a call \<open>au_error\<close> gives the message, the
  minor message and the details of the error that the call raised, if any.
\<close>

record 'a aug_ops =
  au_init :: "string option \<Rightarrow> 'a"
  au_error :: "'a \<Rightarrow> (string \<times> string option \<times> string option) option"
  au_match :: "string \<Rightarrow> 'a \<Rightarrow> string list \<times> 'a"
  au_set :: "string \<Rightarrow> string option \<Rightarrow> 'a \<Rightarrow> 'a"
  au_rm :: "string \<Rightarrow> 'a \<Rightarrow> 'a"
  au_get :: "string \<Rightarrow> 'a \<Rightarrow> string option \<times> 'a"
  au_transform :: "string \<Rightarrow> string \<Rightarrow> 'a \<Rightarrow> 'a"
  au_text_store :: "string \<Rightarrow> string \<Rightarrow> string \<Rightarrow> 'a \<Rightarrow> 'a"
  au_text_retrieve :: "string \<Rightarrow> string \<Rightarrow> string \<Rightarrow> string \<Rightarrow> 'a \<Rightarrow> 'a"
  au_load :: "'a \<Rightarrow> 'a"
  au_save :: "'a \<Rightarrow> 'a"

text \<open>
  The state of the program that uses a handle is the tree, the counter of \<open>make_node_seq_next\<close> (which
  the constructor leaves uninitialised, so its first value is arbitrary) and the rest of the
  system. A handle is the library and the reader and writer callbacks, which may use
  the rest of the system. \<open>au_init\<close> is the tree \<open>aug_init\<close> gives, depending on the root it is told.
\<close>

record ('a, 'w) aug_world =
  aw_aug :: 'a
  aw_seq :: int
  aw_sys :: 'w

definition on_aug :: "('a, 'r) prog \<Rightarrow> (('a, 'w) aug_world, 'r) prog" where
  "on_aug m s = (case m (aw_aug s) of (r, a) \<Rightarrow> (r, s\<lparr>aw_aug := a\<rparr>))"

definition on_sys :: "('w, 'r) prog \<Rightarrow> (('a, 'w) aug_world, 'r) prog" where
  "on_sys m s = (case m (aw_sys s) of (r, w) \<Rightarrow> (r, s\<lparr>aw_sys := w\<rparr>))"

record ('a, 'w) aug_handle =
  hd_ops :: "'a aug_ops"
  hd_reader :: "(('a, 'w) aug_world, unit) prog"
  hd_writer :: "(('a, 'w) aug_world, unit) prog"

definition handle_make :: "'a aug_ops \<Rightarrow> (('a, 'w) aug_world, unit) prog option \<Rightarrow>
    (('a, 'w) aug_world, unit) prog option \<Rightarrow> (('a, 'w) aug_world, ('a, 'w) aug_handle) prog" where
  "handle_make au reader writer s =
     (Ok \<lparr>hd_ops = au,
        hd_reader = (case reader of Some r \<Rightarrow> r | None \<Rightarrow> on_aug (modify (au_load au))),
        hd_writer = (case writer of Some w \<Rightarrow> w | None \<Rightarrow> on_aug (modify (au_save au)))\<rparr>,
      s\<lparr>aw_aug := au_init au (if reader \<noteq> None \<or> writer \<noteq> None then Some ''/dev/null'' else None)\<rparr>)"

text \<open>The handle that is made without callbacks.\<close>

definition default_handle :: "'a aug_ops \<Rightarrow> ('a, 'w) aug_handle" where
  "default_handle au = \<lparr>hd_ops = au, hd_reader = on_aug (modify (au_load au)), hd_writer = on_aug (modify (au_save au))\<rparr>"

subsection \<open>Handles\<close>

definition check_error :: "'a aug_ops \<Rightarrow> 'a \<Rightarrow> unit outcome" where
  "check_error au a = (case au_error au a of
      None \<Rightarrow> Ok ()
    | Some (msg, minor, details) \<Rightarrow>
        Err (msg @ (case minor of None \<Rightarrow> [] | Some m \<Rightarrow> '': '' @ m) @
             (case details of None \<Rightarrow> [] | Some d \<Rightarrow> '': '' @ d) @ [CHR 0x0A]))"

definition handle_include :: "('a, 'w) aug_handle \<Rightarrow> string \<Rightarrow> string \<Rightarrow> ('a, unit) prog" where
  "handle_include h lens glob a = (let a' = au_transform (hd_ops h) lens glob a in (check_error (hd_ops h) a', a'))"

definition handle_load :: "('a, 'w) aug_handle \<Rightarrow> (('a, 'w) aug_world, unit) prog" where
  "handle_load h = bnd (hd_reader h) (\<lambda>_. on_aug (\<lambda>a. (check_error (hd_ops h) a, a)))"

definition handle_match :: "('a, 'w) aug_handle \<Rightarrow> string \<Rightarrow> ('a, string list) prog" where
  "handle_match h pathx a = (case au_match (hd_ops h) pathx a of (ms, a') \<Rightarrow>
     (obind (check_error (hd_ops h) a') (\<lambda>_. Ok ms), a'))"

definition handle_set :: "('a, 'w) aug_handle \<Rightarrow> string \<Rightarrow> string \<Rightarrow> ('a, unit) prog" where
  "handle_set h path v a = (let a' = au_set (hd_ops h) path (Some v) a in (check_error (hd_ops h) a', a'))"

definition handle_clear :: "('a, 'w) aug_handle \<Rightarrow> string \<Rightarrow> ('a, unit) prog" where
  "handle_clear h path a = (let a' = au_set (hd_ops h) path None a in (check_error (hd_ops h) a', a'))"

definition handle_rm :: "('a, 'w) aug_handle \<Rightarrow> string \<Rightarrow> ('a, unit) prog" where
  "handle_rm h path a = (let a' = au_rm (hd_ops h) path a in (check_error (hd_ops h) a', a'))"

definition handle_get :: "('a, 'w) aug_handle \<Rightarrow> string \<Rightarrow> ('a, string option) prog" where
  "handle_get h pathx a = (case au_get (hd_ops h) pathx a of (v, a') \<Rightarrow>
     (obind (check_error (hd_ops h) a') (\<lambda>_. Ok v), a'))"

text \<open>Nodes are their paths. Counting up an \<open>int\<close> past its largest value is undefined.\<close>

definition make_node_seq_next :: "string \<Rightarrow> (('a, 'w) aug_world, string) prog" where
  "make_node_seq_next path s =
     (if aw_seq s = 2 ^ 31 - 1 then (Exn (Undefined ''signed overflow''), s)
      else (Ok (path @ (if path = [] \<or> last path \<noteq> CHR ''/'' then ''/'' else []) @ ''0'' @ show_int (aw_seq s + 1)),
            s\<lparr>aw_seq := aw_seq s + 1\<rparr>))"

subsection \<open>Nodes\<close>

definition node_append :: "string \<Rightarrow> string \<Rightarrow> string" where
  "node_append path p2 =
     (if p2 \<noteq> [] \<and> hd p2 = CHR ''/'' then p2
      else if path \<noteq> [] \<and> last path = CHR ''/'' then path @ p2
      else path @ ''/'' @ p2)"

definition node_at :: "('a, 'w) aug_handle \<Rightarrow> string \<Rightarrow> string \<Rightarrow> ('a, string option) prog" where
  "node_at h node path = handle_get h (node_append node path)"

definition node_set :: "('a, 'w) aug_handle \<Rightarrow> string \<Rightarrow> string \<Rightarrow> value_base \<Rightarrow> ('a, unit) prog" where
  "node_set h node path v =
     (if is_present v then handle_set h (node_append node path) (to_string v) else ret ())"

definition node_set_default :: "('a, 'w) aug_handle \<Rightarrow> string \<Rightarrow> string \<Rightarrow> value_base \<Rightarrow> string \<Rightarrow> ('a, unit) prog" where
  "node_set_default h node path v deflt =
     handle_set h (node_append node path) (if is_present v then to_string v else deflt)"

definition node_erase :: "('a, 'w) aug_handle \<Rightarrow> string \<Rightarrow> ('a, unit) prog" where
  "node_erase h node = handle_rm h (node_append node ''*'')"

definition node_rm :: "('a, 'w) aug_handle \<Rightarrow> string \<Rightarrow> ('a, unit) prog" where
  "node_rm h node = handle_rm h node"

definition node_clear :: "('a, 'w) aug_handle \<Rightarrow> string \<Rightarrow> ('a, unit) prog" where
  "node_clear h node = handle_clear h node"

definition node_match :: "('a, 'w) aug_handle \<Rightarrow> string \<Rightarrow> string \<Rightarrow> ('a, string list) prog" where
  "node_match h node pathx = handle_match h (node_append node pathx)"

definition node_extract ::
  "('a, 'w) aug_handle \<Rightarrow> string \<Rightarrow> resource \<Rightarrow> string \<Rightarrow> string \<Rightarrow> string option \<Rightarrow> ('a, resource) prog" where
  "node_extract h node r attr label deflt = bnd (node_at h node label) (\<lambda>v.
     case v of
       Some t \<Rightarrow> lift (res_set r attr (VStr t))
     | None \<Rightarrow> (case deflt of Some d \<Rightarrow> lift (res_set r attr (VStr d)) | None \<Rightarrow> ret r))"

fun node_values :: "('a, 'w) aug_handle \<Rightarrow> string list \<Rightarrow> ('a, string list) prog" where
  "node_values h [] = ret []"
| "node_values h (m # ms) = bnd (handle_get h m) (\<lambda>v. bnd (node_values h ms) (\<lambda>vs.
     ret (case v of Some t \<Rightarrow> t # vs | None \<Rightarrow> vs)))"

definition node_extract_array :: "('a, 'w) aug_handle \<Rightarrow> string \<Rightarrow> resource \<Rightarrow> string \<Rightarrow> string \<Rightarrow> ('a, resource) prog" where
  "node_extract_array h node r attr label =
     bnd (node_match h node label) (\<lambda>ms. bnd (node_values h ms) (\<lambda>ary.
       if ary \<noteq> [] then lift (res_set r attr (VArr ary)) else ret r))"

definition node_resolve :: "('a, 'w) aug_handle \<Rightarrow> string \<Rightarrow> ('a, string) prog" where
  "node_resolve h node = bnd (handle_match h node) (\<lambda>ms.
     if length ms \<noteq> 1
     then fail (''Expected '' @ node @ '' to match exactly one node, but it matched '' @ show_nat (length ms))
     else ret (hd ms))"

subsection \<open>Saving\<close>

text \<open>The dereferences in \<open>save\<close>: \<open>operator*\<close> of a result is \<open>ok\<close>, which throws on an error; that of
  an empty optional is undefined.\<close>

definition opt_deref :: "'b option \<Rightarrow> 'b outcome" where
  "opt_deref v = (case v of None \<Rightarrow> Exn (Undefined ''value of an empty optional'') | Some a \<Rightarrow> Ok a)"

definition has_value :: "'b option outcome \<Rightarrow> bool" where
  "has_value r = (case r of Ok (Some _) \<Rightarrow> True | _ \<Rightarrow> False)"

text \<open>The position of the last occurrence of a text.\<close>

definition rfind :: "string \<Rightarrow> string \<Rightarrow> nat option" where
  "rfind s p = (case filter (\<lambda>i. starts_with (drop i s) p) (rev [0..<Suc (length s)]) of [] \<Rightarrow> None | i # _ \<Rightarrow> Some i)"

definition error_filename :: "string \<Rightarrow> string" where
  "error_filename path = (let f = drop (length ''/augeas/files'') path in
     case rfind f ''/error'' of None \<Rightarrow> f | Some pos \<Rightarrow> take pos f)"

definition opt_line :: "string \<Rightarrow> string option outcome \<Rightarrow> string \<Rightarrow> string" where
  "opt_line prefix r suffix = (case r of Ok (Some t) \<Rightarrow> prefix @ t @ suffix @ [CHR 0x0A] | _ \<Rightarrow> [])"

definition save_error_text :: "string \<Rightarrow> string option outcome \<Rightarrow> string option outcome \<Rightarrow> string option outcome \<Rightarrow>
    string option outcome \<Rightarrow> string option outcome \<Rightarrow> string option outcome \<Rightarrow> string option outcome \<Rightarrow>
    string option \<Rightarrow> string outcome" where
  "save_error_text filename line char_pos lens lastm nextm msg path kind =
     obind (if has_value line
            then obind (obind (res_ok line) opt_deref) (\<lambda>l. obind (obind (res_ok char_pos) opt_deref) (\<lambda>c.
                 obind (opt_deref kind) (\<lambda>k.
                   Ok (''Error in '' @ filename @ '':'' @ l @ ''.'' @ c @ '' ('' @ k @ '')''))))
            else if has_value path
            then obind (obind (res_ok path) opt_deref) (\<lambda>p. obind (opt_deref kind) (\<lambda>k.
                   Ok (''Error in '' @ filename @ '' at node '' @ p @ '' ('' @ k @ '')'')))
            else obind (opt_deref kind) (\<lambda>k. Ok (''Error in '' @ filename @ '' ('' @ k @ '')''))) (\<lambda>first.
       Ok (first @ [CHR 0x0A] @ opt_line ''  '' msg [] @ opt_line ''  Lens: '' lens [] @
           opt_line ''    Last matched: '' lastm [CHR 0x0A] @ opt_line ''    Next (no match): '' nextm [CHR 0x0A]))"

definition save_error_entry :: "('a, 'w) aug_handle \<Rightarrow> string \<Rightarrow> ('a, string) prog" where
  "save_error_entry h e =
     bnd (attempt (node_at h e ''line'')) (\<lambda>line. bnd (attempt (node_at h e ''char'')) (\<lambda>char_pos.
     bnd (attempt (node_at h e ''lens'')) (\<lambda>lens. bnd (attempt (node_at h e ''lens/last_matched'')) (\<lambda>lastm.
     bnd (attempt (node_at h e ''lens/next_not_matched'')) (\<lambda>nextm. bnd (attempt (node_at h e ''message'')) (\<lambda>msg.
     bnd (attempt (node_at h e ''path'')) (\<lambda>path. bnd (attempt (handle_get h e)) (\<lambda>val.
     bnd (lift (res_ok val)) (\<lambda>kind.
       lift (save_error_text (error_filename e) line char_pos lens lastm nextm msg path kind))))))))))"

fun save_error_entries :: "('a, 'w) aug_handle \<Rightarrow> string list \<Rightarrow> ('a, string list) prog" where
  "save_error_entries h [] = ret []"
| "save_error_entries h (e # es) = bnd (save_error_entry h e) (\<lambda>t. bnd (save_error_entries h es) (\<lambda>ts. ret (t # ts)))"

definition handle_save :: "('a, 'w) aug_handle \<Rightarrow> (('a, 'w) aug_world, unit) prog" where
  "handle_save h = bnd (hd_writer h) (\<lambda>_. bnd (on_aug (\<lambda>a. (check_error (hd_ops h) a, a))) (\<lambda>_.
     bnd (on_aug (handle_match h ''/augeas/files//error'')) (\<lambda>es.
       if es \<noteq> [] then bnd (on_aug (save_error_entries h es)) (\<lambda>ts. fail (join [CHR 0x0A] ts)) else ret ())))"

subsection \<open>Opening a handle\<close>

definition local_augeas :: "'a aug_ops \<Rightarrow> (string \<times> string) list \<Rightarrow> (('a, 'w) aug_world, ('a, 'w) aug_handle) prog" where
  "local_augeas au xfms = bnd (handle_make au None None) (\<lambda>h.
     bnd (for_each (\<lambda>(lens, file). on_aug (handle_include h lens file)) xfms) (\<lambda>_.
     bnd (handle_load h) (\<lambda>_. ret h)))"

text \<open>On an ssh target the callbacks transfer the files.\<close>

definition read_one :: "'a aug_ops \<Rightarrow> 'w exe_ops \<Rightarrow> ssh_conf \<Rightarrow> string \<times> string \<Rightarrow> (('a, 'w ssh_state) aug_world, unit) prog" where
  "read_one au ex sc = (\<lambda>(lens, file). bnd (on_sys (attempt (ssh_read ex sc file))) (\<lambda>res.
     case res of
       Ok content \<Rightarrow>
         if content = [] then throw (Undefined ''back() of an empty string'')
         else on_aug (modify (\<lambda>a. au_text_store au lens (''/in'' @ file) (''/files'' @ file)
           (au_set au (''/in'' @ file) (Some (if last content \<noteq> CHR 0x0A then content @ [CHR 0x0A] else content)) a)))
     | _ \<Rightarrow> ret ()))"

definition ssh_reader :: "'a aug_ops \<Rightarrow> 'w exe_ops \<Rightarrow> ssh_conf \<Rightarrow> (string \<times> string) list \<Rightarrow> (('a, 'w ssh_state) aug_world, unit) prog" where
  "ssh_reader au ex sc = for_each (read_one au ex sc)"

text \<open>What augeas makes of the edited tree, next to the text that was read.\<close>

definition retrieve_texts :: "'a aug_ops \<Rightarrow> string \<Rightarrow> string \<Rightarrow> ('a, string option \<times> string option) prog" where
  "retrieve_texts au lens file a =
     (let a1 = au_text_retrieve au lens (''/in'' @ file) (''/files'' @ file) (''/out'' @ file) a;
          (text_in, a2) = au_get au (''/in'' @ file) a1;
          (text_out, a3) = au_get au (''/out'' @ file) a2
      in (Ok (text_in, text_out), a3))"

definition mark_error :: "'a aug_ops \<Rightarrow> string \<Rightarrow> string \<Rightarrow> 'a \<Rightarrow> 'a" where
  "mark_error au file detail a =
     (let err = ''/augeas/files'' @ file @ ''/error''
      in au_set au (err @ ''/message'') (Some detail) (au_set au err (Some ''write_failed'') a))"

definition write_one :: "'a aug_ops \<Rightarrow> 'w exe_ops \<Rightarrow> path_ops \<Rightarrow> ssh_conf \<Rightarrow> string \<times> string \<Rightarrow> (('a, 'w ssh_state) aug_world, unit) prog" where
  "write_one au ex pa sc = (\<lambda>(lens, file). bnd (on_aug (retrieve_texts au lens file)) (\<lambda>texts.
     case texts of
       (Some i, Some out) \<Rightarrow>
         if i \<noteq> out
         then bnd (on_sys (attempt (ssh_write ex pa sc out file))) (\<lambda>res.
           case res of Err e \<Rightarrow> on_aug (modify (mark_error au file e)) | _ \<Rightarrow> ret ())
         else ret ()
     | _ \<Rightarrow> ret ()))"

definition ssh_writer :: "'a aug_ops \<Rightarrow> 'w exe_ops \<Rightarrow> path_ops \<Rightarrow> ssh_conf \<Rightarrow> (string \<times> string) list \<Rightarrow>
    (('a, 'w ssh_state) aug_world, unit) prog" where
  "ssh_writer au ex pa sc = for_each (write_one au ex pa sc)"

definition ssh_augeas :: "'a aug_ops \<Rightarrow> 'w exe_ops \<Rightarrow> path_ops \<Rightarrow> ssh_conf \<Rightarrow> (string \<times> string) list \<Rightarrow>
    (('a, 'w ssh_state) aug_world, ('a, 'w ssh_state) aug_handle) prog" where
  "ssh_augeas au ex pa sc xfms =
     bnd (handle_make au (Some (ssh_reader au ex sc xfms)) (Some (ssh_writer au ex pa sc xfms))) (\<lambda>h.
     bnd (handle_load h) (\<lambda>_. ret h))"

text \<open>The text of a remote file is the trimmed output of a command, so a file of blanks makes the reader look at the last
  character of an empty string.\<close>

lemma ssh_augeas_empty_file:
  assumes "ssh_read ex sc file (aw_sys s) = (Ok [], t)"
  shows "fst (ssh_augeas au ex pa sc ((lens, file) # xfms) s) = Exn (Undefined ''back() of an empty string'')"
  by (simp add: ssh_augeas_def handle_make_def handle_load_def ssh_reader_def read_one_def bnd_def on_sys_def assms
      attempt_def throw_def)

subsection \<open>Saving to an ssh target\<close>

text \<open>What the program relies on when a remote write fails: the node it then creates below
  \<open>/augeas/files\<close> is among those that augeas finds when asked for error nodes.\<close>

definition error_visible :: "'a aug_ops \<Rightarrow> bool" where
  "error_visible au \<longleftrightarrow> (\<forall>file e a. fst (au_match au ''/augeas/files//error'' (mark_error au file e a)) \<noteq> [])"

lemma save_sys:
  assumes "hd_writer h s = (Ok (), t)"
  shows "aw_sys (snd (handle_save h s)) = aw_sys t"
  by (auto simp: handle_save_def assms bnd_def on_aug_def fail_def ret_def split: prod.split outcome.split)

lemma save_marked:
  assumes "hd_writer h s = (Ok (), t)" and "error_visible (hd_ops h)" and "aw_aug t = mark_error (hd_ops h) file e a"
  shows "\<not> is_Ok (fst (handle_save h s))"
proof -
  have "fst (handle_match h ''/augeas/files//error'' (aw_aug t)) \<noteq> Ok []"
    using assms(2) by (auto simp: handle_match_def assms(3) error_visible_def obind_Ok_iff split: prod.split) (metis fst_conv)
  then show ?thesis
    by (auto simp: handle_save_def assms(1) bnd_def on_aug_def fail_def ret_def split: prod.split outcome.split)
qed


text \<open>A tree that is the text of one file and the error nodes.\<close>

definition one_file :: "(string \<times> string list) aug_ops" where
  "one_file = \<lparr>au_init = (\<lambda>r. ([], [])), au_error = (\<lambda>a. None), au_match = (\<lambda>p a. (snd a, a)),
     au_set = (\<lambda>p v (t, es). if starts_with p ''/augeas'' then (t, p # es) else (t, es)), au_rm = (\<lambda>p a. a),
     au_get = (\<lambda>p (t, es). (Some (if starts_with p ''/in'' then ''old'' else t), (t, es))), au_transform = (\<lambda>l f a. a),
     au_text_store = (\<lambda>l i f a. a), au_text_retrieve = (\<lambda>l i f out a. a), au_load = id, au_save = id\<rparr>"

definition refusing_exe :: "nat exe_ops" where
  "refusing_exe = \<lparr>ex_execute = (\<lambda>f a i w. (\<lparr>cr_success = i = None, cr_output = ''/tmp/x'', cr_error = ''disk full'', cr_exit_code = 1\<rparr>, Suc w)),
     ex_each_line = (\<lambda>f a w. (([], \<lambda>_. True), w)), ex_which = (\<lambda>n w. []), ex_access_x = (\<lambda>f w. False)\<rparr>"


end
