(* ===== verification/Zoom.thy ===== *)
theory Zoom
  imports Prelude
begin

section \<open>Code that works on a part of the state\<close>

text \<open>
  The parts of the program keep states of their own (an augeas tree, a command object, the ssh
  session), which live side by side in one process. \<open>zoom\<close> runs code of one part in the whole;
  a \<open>view\<close> is a part that can be read and replaced, and two views are separate when
  replacing one does not show in the other.
\<close>

definition zoom :: "('s \<Rightarrow> 't) \<Rightarrow> ('t \<Rightarrow> 's \<Rightarrow> 's) \<Rightarrow> ('t, 'a) prog \<Rightarrow> ('s, 'a) prog" where
  "zoom get put m s = (case m (get s) of (r, t) \<Rightarrow> (r, put t s))"

locale view =
  fixes get :: "'s \<Rightarrow> 't" and put :: "'t \<Rightarrow> 's \<Rightarrow> 's"
  assumes get_put: "get (put t s) = t"
    and put_get: "put (get s) s = s"
    and put_put: "put t' (put t s) = put t' s"
begin

lemma zoom_value:
  "zoom get put (ret a) = ret a" "zoom get put (fail e) = fail e" "zoom get put (throw x) = throw x"
  "zoom get put (lift r) = lift r"
  by (rule ext; simp add: zoom_def ret_def fail_def throw_def lift_def put_get)+

lemma zoom_bnd: "zoom get put (bnd m f) = bnd (zoom get put m) (\<lambda>a. zoom get put (f a))"
  by (rule ext) (simp add: zoom_def bnd_def get_put put_put split: prod.split outcome.split)

lemma zoom_attempt: "zoom get put (attempt m) = attempt (zoom get put m)"
  by (rule ext) (simp add: zoom_def attempt_def split: prod.split outcome.split)

lemma zoom_for_each: "zoom get put (for_each f xs) = for_each (\<lambda>x. zoom get put (f x)) xs"
  by (induction xs) (simp_all add: zoom_value zoom_bnd)

lemma zoom_run: "m (get s) = (r, t) \<Longrightarrow> zoom get put m s = (r, put t s) \<and> get (put t s) = t"
  by (simp add: zoom_def get_put)

end

locale separate_views =
  one: view get put + other: view get' put'
  for get :: "'s \<Rightarrow> 't" and put :: "'t \<Rightarrow> 's \<Rightarrow> 's" and get' :: "'s \<Rightarrow> 'u" and put' :: "'u \<Rightarrow> 's \<Rightarrow> 's" +
  assumes put_other: "get' (put t s) = get' s"
begin

lemma zoom_other: "get' (snd (zoom get put m s)) = get' s"
  by (simp add: zoom_def put_other split: prod.split)

end

text \<open>Views compose.\<close>

lemma view_compose:
  assumes "view g p" and "view g' p'"
  shows "view (g' \<circ> g) (\<lambda>t s. p (p' t (g s)) s)"
  using assms by (simp add: view_def)

subsection \<open>Properties of the state that code preserves\<close>

definition preserves :: "('s \<Rightarrow> bool) \<Rightarrow> ('s, 'a) prog \<Rightarrow> bool" where
  "preserves P m \<longleftrightarrow> (\<forall>s. P s \<longrightarrow> P (snd (m s)))"

named_theorems preserves_intros "rules for preserves"

lemma preservesD: "preserves P m \<Longrightarrow> m s = (r, s') \<Longrightarrow> P s \<Longrightarrow> P s'"
  unfolding preserves_def by (metis snd_conv)

lemma preserves_bnd [preserves_intros]:
  assumes "preserves P m" and "\<And>a. preserves P (f a)"
  shows "preserves P (bnd m f)"
  unfolding preserves_def
proof (intro allI impI)
  fix s assume "P s"
  obtain r s' where m: "m s = (r, s')" by fastforce
  with preservesD [OF assms(1) m \<open>P s\<close>] assms(2) show "P (snd (bnd m f s))"
    by (cases r) (simp_all add: bnd_def preserves_def)
qed

lemma preserves_value [preserves_intros]:
  "preserves P (ret a)" "preserves P (fail e)" "preserves P (throw x)" "preserves P (lift r)"
  by (simp_all add: preserves_def ret_def fail_def throw_def lift_def)

lemma preserves_if [preserves_intros]:
  "(b \<Longrightarrow> preserves P m) \<Longrightarrow> (\<not> b \<Longrightarrow> preserves P m') \<Longrightarrow> preserves P (if b then m else m')"
  by simp

lemma preserves_option [preserves_intros]:
  "(x = None \<Longrightarrow> preserves P m) \<Longrightarrow> (\<And>a. x = Some a \<Longrightarrow> preserves P (f a)) \<Longrightarrow>
    preserves P (case x of None \<Rightarrow> m | Some a \<Rightarrow> f a)"
  by (cases x) simp_all

lemma preserves_modify: "(\<And>s. P s \<Longrightarrow> P (g s)) \<Longrightarrow> preserves P (modify g)"
  by (simp add: preserves_def modify_def)

text \<open>Code that runs in one part keeps what does not depend on the part.\<close>

lemma preserves_zoom: "(\<And>t s. P (put t s) = P s) \<Longrightarrow> preserves P (zoom get put m)"
  by (simp add: preserves_def zoom_def split: prod.split)

end
