(* ===== verification/Environment.thy ===== *)
theory Environment
  imports Augeas Interfaces Zoom
begin

section \<open>The environment of providers\<close>

text \<open>
  \<open>lib/inc/libral/environment.hpp\<close>, \<open>lib/src/environment.cc\<close>, \<open>lib/src/target.cc\<close> and the virtual
  operations of \<open>lib/inc/libral/target/base.hpp\<close>: what a provider's \<open>describe\<close> can ask for. An
  environment refers to the \<open>ral\<close> object and passes everything on to its target. Reading
  and writing local files is a parameter (\<open>file_io\<close>); a file that cannot be read is none.
\<close>

record 'w file_io =
  io_read :: "string \<Rightarrow> 'w \<Rightarrow> string option"
  io_write :: "string \<Rightarrow> string \<Rightarrow> 'w \<Rightarrow> 'w"

text \<open>The rest of the interface of a target.\<close>

record ('a, 'w) full_target = "'w target" +
  t_connect :: "('w, unit) prog"
  t_command :: "string \<Rightarrow> 'w \<Rightarrow> command option \<times> 'w"
  t_script :: "string \<Rightarrow> 'w \<Rightarrow> command option \<times> 'w"
  t_augeas :: "(string \<times> string) list \<Rightarrow> (('a, 'w) aug_world, ('a, 'w) aug_handle) prog"
  t_read :: "string \<Rightarrow> ('w, string) prog"
  t_write :: "string \<Rightarrow> string \<Rightarrow> ('w, unit) prog"

definition local_connect :: "('w, unit) prog" where
  "local_connect = ret ()"

text \<open>The streams are not tested, so neither operation ever reports an error.\<close>

definition local_read :: "'w file_io \<Rightarrow> string \<Rightarrow> ('w, string) prog" where
  "local_read io path w = (Ok (case io_read io path w of Some t \<Rightarrow> t | None \<Rightarrow> []), w)"

definition local_write :: "'w file_io \<Rightarrow> string \<Rightarrow> string \<Rightarrow> ('w, unit) prog" where
  "local_write io content path w = (Ok (), io_write io path content w)"

definition make_local :: "'a aug_ops \<Rightarrow> 'w exe_ops \<Rightarrow> 'w file_io \<Rightarrow> ('a, 'w) full_target" where
  "make_local au ex io = target.extend (local_target ex)
     (full_target.fields local_connect (local_command ex) (local_script ex) (local_augeas au) (local_read io) (local_write io))"

definition make_ssh :: "'a aug_ops \<Rightarrow> 'w exe_ops \<Rightarrow> path_ops \<Rightarrow> ssh_conf \<Rightarrow> ('a, 'w ssh_state) full_target" where
  "make_ssh au ex pa sc = target.extend (ssh_target ex pa sc)
     (full_target.fields (ssh_connect ex sc) (ssh_command ex sc) (\<lambda>cmd s. (ssh_script cmd, s)) (ssh_augeas au ex pa sc)
       (ssh_read ex sc) (ssh_write ex pa sc))"

subsection \<open>The environment\<close>

text \<open>The \<open>ral\<close> object; its target is the local one or the ssh target with this configuration.\<close>

record ral =
  ra_data_dirs :: "string list"
  ra_target :: "ssh_conf option"
  ra_local :: bool

record ('a, 'w) environment =
  en_ral :: ral
  en_target :: "('a, 'w) full_target"
  en_mrb :: mrb_ops

definition env_data_dirs :: "('a, 'w) environment \<Rightarrow> string list" where
  "env_data_dirs env = ra_data_dirs (en_ral env)"

definition env_command :: "('a, 'w) environment \<Rightarrow> string \<Rightarrow> 'w \<Rightarrow> command option \<times> 'w" where
  "env_command env cmd = t_command (en_target env) cmd"

definition env_script :: "('a, 'w) environment \<Rightarrow> string \<Rightarrow> 'w \<Rightarrow> command option \<times> 'w" where
  "env_script env cmd = t_script (en_target env) cmd"

definition env_which :: "('a, 'w) environment \<Rightarrow> 'w searcher" where
  "env_which env cmd = t_which (en_target env) cmd"

definition env_is_local :: "('a, 'w) environment \<Rightarrow> bool" where
  "env_is_local env = ra_local (en_ral env)"

definition env_augeas :: "('a, 'w) environment \<Rightarrow> (string \<times> string) list \<Rightarrow> (('a, 'w) aug_world, ('a, 'w) aug_handle) prog" where
  "env_augeas env xfms = t_augeas (en_target env) xfms"

definition env_parse_spec :: "('a, 'w) environment \<Rightarrow> string \<Rightarrow> string \<Rightarrow> bool \<Rightarrow> ('w, prov_spec) prog" where
  "env_parse_spec env name desc suitable = spec_read (en_mrb env) (env_which env) name desc suitable"

subsection \<open>The commands a provider looks up\<close>

text \<open>Command objects are kept in members of the provider; running one that was not found is a null pointer.\<close>

fun find_commands :: "('a, 'w) environment \<Rightarrow> string list \<Rightarrow> 'w \<Rightarrow> command option list \<times> 'w" where
  "find_commands env [] w = ([], w)"
| "find_commands env (n # ns) w = (case env_command env n w of (c, w1) \<Rightarrow>
     (case find_commands env ns w1 of (cs, w2) \<Rightarrow> (c # cs, w2)))"

definition run_member :: "('a, 'w) environment \<Rightarrow> command option \<Rightarrow> string list \<Rightarrow> ('w, unit) prog" where
  "run_member env c args = (case c of
      None \<Rightarrow> throw (Undefined ''null command'')
    | Some c \<Rightarrow> run_command (target.truncate (en_target env)) c args)"

text \<open>The account providers work on the local target only, and only if their commands are there.\<close>

definition account_commands :: "('a, 'w) environment \<Rightarrow> string list \<Rightarrow> 'w \<Rightarrow> (command option list \<times> bool) \<times> 'w" where
  "account_commands env names w =
     (if env_is_local env
      then (case find_commands env names w of (cs, w') \<Rightarrow> ((cs, None \<notin> set cs), w'))
      else ((map (\<lambda>_. None) names, False), w))"

lemma find_commands_length: "length (fst (find_commands env ns w)) = length ns"
  by (induction ns arbitrary: w) (auto split: prod.split, metis fst_conv)

lemma account_commands_remote: "\<not> env_is_local env \<Longrightarrow> account_commands env ns w = ((map (\<lambda>_. None) ns, False), w)"
  by (simp add: account_commands_def)

text \<open>On a remote system \<open>parse_spec\<close> with a false flag gives a specification that is never suitable.\<close>

lemma env_parse_spec_suitable:
  "env_parse_spec env n d suitable w = (Ok sp, w') \<Longrightarrow> ps_suitable sp \<Longrightarrow> suitable"
  unfolding env_parse_spec_def by (drule spec_read_suitable) simp

end
