(* ===== verification/File.thy ===== *)
theory File
  imports Environment "HOL-Library.Word"
begin

section \<open>The file provider\<close>

text \<open>
  \<open>lib/src/file.cc\<close>, \<open>lib/inc/libral/file.hpp\<close>: files, directories and symbolic links. The file
  system is reached through POSIX and Boost calls, which are the fields of \<open>fs_ops\<close>; a call
  that reports an error code gives the text of the error.
\<close>

datatype ftype =
    Status_error | File_not_found | Regular_file | Directory_file | Symlink_file | Block_file
  | Character_file | Fifo_file | Socket_file | Reparse_file | Type_unknown

record fdesc =
  fd_type :: ftype
  fd_ensure :: string
  fd_typ :: string

definition ftype_ensure :: "fdesc list" where
  "ftype_ensure =
    [\<lparr>fd_type = Type_unknown, fd_ensure = ''absent'', fd_typ = ''unknown''\<rparr>,
     \<lparr>fd_type = Status_error, fd_ensure = ''absent'', fd_typ = ''error''\<rparr>,
     \<lparr>fd_type = File_not_found, fd_ensure = ''absent'', fd_typ = ''absent''\<rparr>,
     \<lparr>fd_type = Regular_file, fd_ensure = ''file'', fd_typ = ''file''\<rparr>,
     \<lparr>fd_type = Regular_file, fd_ensure = ''present'', fd_typ = ''file''\<rparr>,
     \<lparr>fd_type = Directory_file, fd_ensure = ''directory'', fd_typ = ''directory''\<rparr>,
     \<lparr>fd_type = Symlink_file, fd_ensure = ''link'', fd_typ = ''link''\<rparr>,
     \<lparr>fd_type = Block_file, fd_ensure = ''present'', fd_typ = ''block''\<rparr>,
     \<lparr>fd_type = Character_file, fd_ensure = ''present'', fd_typ = ''char''\<rparr>,
     \<lparr>fd_type = Fifo_file, fd_ensure = ''present'', fd_typ = ''fifo''\<rparr>,
     \<lparr>fd_type = Socket_file, fd_ensure = ''present'', fd_typ = ''socket''\<rparr>]"

definition fdesc_from_ftype :: "ftype \<Rightarrow> fdesc" where
  "fdesc_from_ftype t = (case find (\<lambda>fd. t = fd_type fd) ftype_ensure of
      Some fd \<Rightarrow> fd | None \<Rightarrow> hd ftype_ensure)"

record 'w fs_ops =
  fo_absolute :: "string \<Rightarrow> 'w \<Rightarrow> string"
  fo_symlink_status :: "string \<Rightarrow> 'w \<Rightarrow> (ftype \<times> nat) option"
  fo_read_symlink :: "string \<Rightarrow> 'w \<Rightarrow> string outcome"
  fo_last_write_time :: "string \<Rightarrow> 'w \<Rightarrow> int outcome"
  fo_iso_time :: "int \<Rightarrow> string"
  fo_lstat :: "string \<Rightarrow> 'w \<Rightarrow> (int \<times> 32 word \<times> 32 word) option"
  fo_lchown :: "string \<Rightarrow> 32 word \<Rightarrow> 32 word \<Rightarrow> 'w \<Rightarrow> (int \<times> string) option \<times> 'w"
  fo_permissions :: "string \<Rightarrow> nat \<Rightarrow> 'w \<Rightarrow> string option \<times> 'w"
  fo_read_file :: "string \<Rightarrow> 'w \<Rightarrow> string option"
  fo_write_file :: "string \<Rightarrow> string \<Rightarrow> 'w \<Rightarrow> bool \<times> 'w"
  fo_create_symlink :: "string \<Rightarrow> string \<Rightarrow> 'w \<Rightarrow> string option \<times> 'w"
  fo_create_directory :: "string \<Rightarrow> 'w \<Rightarrow> string option \<times> 'w"
  fo_remove_all :: "string \<Rightarrow> 'w \<Rightarrow> string option \<times> 'w"

subsection \<open>Numbers in text\<close>

fun show_base :: "nat \<Rightarrow> nat \<Rightarrow> string" where
  "show_base b n = (if b < 2 \<or> n < b then [char_of (48 + n)]
     else show_base b (n div b) @ [char_of (48 + n mod b)])"

declare show_base.simps [simp del]

text \<open>A number in base 8 in a field of the given width, filled with zeros on the left.\<close>

definition octal_field :: "nat \<Rightarrow> nat \<Rightarrow> string" where
  "octal_field width n = (let t = show_base 8 n in replicate (width - length t) (CHR ''0'') @ t)"

definition digit_value :: "char \<Rightarrow> nat" where
  "digit_value c = of_char c - 48"

definition base_digit :: "nat \<Rightarrow> char \<Rightarrow> bool" where
  "base_digit b c \<longleftrightarrow> is_digit c \<and> digit_value c < b"

definition digits_value :: "nat \<Rightarrow> string \<Rightarrow> nat" where
  "digits_value b ds = foldl (\<lambda>n c. n * b + digit_value c) 0 ds"

text \<open>\<open>std::stoi\<close> in a base up to ten: white space, a sign, the longest run of digits; the value
  must fit an \<open>int\<close>. Also the number of characters read.\<close>

definition stoi :: "nat \<Rightarrow> string \<Rightarrow> (int \<times> nat) outcome" where
  "stoi b s =
     (let body = dropWhile is_space s;
          (neg, rest) = (case body of
             [] \<Rightarrow> (False, [])
           | c # cs \<Rightarrow> if c = CHR ''-'' then (True, cs) else if c = CHR ''+'' then (False, cs) else (False, body));
          ds = takeWhile (base_digit b) rest;
          n = (if neg then - int (digits_value b ds) else int (digits_value b ds))
      in if ds = [] then Exn (Invalid_argument ''stoi'')
         else if n < - (2 ^ 31) \<or> 2 ^ 31 \<le> n then Exn (Out_of_range ''stoi'')
         else Ok (n, length s - length (drop (length ds) rest)))"

fun exn_what :: "exn \<Rightarrow> string" where
  "exn_what (Logic_error m) = m"
| "exn_what (Invalid_argument m) = m"
| "exn_what (Out_of_range m) = m"
| "exn_what (Data_error m) = m"
| "exn_what (Runtime_error m) = m"
| "exn_what (Undefined m) = m"

definition owner_to_uid :: "string \<Rightarrow> 32 word outcome" where
  "owner_to_uid owner = (case stoi 10 owner of
      Ok (n, pos) \<Rightarrow> Ok (word_of_int n)
    | Err e \<Rightarrow> Err e
    | Exn x \<Rightarrow> Err (''failed to convert '' @ quoted owner @ '' into a uid ['' @ exn_what x @ '']''))"

definition group_to_gid :: "string \<Rightarrow> 32 word outcome" where
  "group_to_gid grp = (case stoi 10 grp of
      Ok (n, pos) \<Rightarrow> Ok (word_of_int n)
    | Err e \<Rightarrow> Err e
    | Exn x \<Rightarrow> Err (''failed to convert '' @ quoted grp @ '' into a gid ['' @ exn_what x @ '']''))"

text \<open>The mode of an update: an octal number within the permission mask.\<close>

definition perms_mask :: nat where
  "perms_mask = 4095"

definition parse_mode :: "string \<Rightarrow> nat outcome" where
  "parse_mode s = (case stoi 8 s of
      Exn x \<Rightarrow> Err (''failed to parse mode '' @ quoted s @ '': '' @ exn_what x)
    | Err e \<Rightarrow> Err e
    | Ok (n, pos) \<Rightarrow>
        if pos \<noteq> length s then Err (''mode '' @ quoted s @ '' is not a valid octal number'')
        else if n < 0 \<or> int perms_mask < n
        then Err (''mode '' @ quoted s @ '' sets bits outside of mask '' @ show_nat perms_mask)
        else Ok (nat n))"

subsection \<open>Reading the current state\<close>

definition find_from_stat :: "'w fs_ops \<Rightarrow> 'w \<Rightarrow> resource \<Rightarrow> resource" where
  "find_from_stat fo w r = (case fo_lstat fo (res_name r) w of
      None \<Rightarrow> r
    | Some (ctime, uid, gid) \<Rightarrow>
        put_attr ''group'' (VStr (show_nat (unat gid)))
          (put_attr ''owner'' (VStr (show_nat (unat uid)))
            (put_attr ''ctime'' (VStr (fo_iso_time fo ctime)) r)))"

definition file_load :: "'w fs_ops \<Rightarrow> 'w \<Rightarrow> resource \<Rightarrow> resource outcome" where
  "file_load fo w r = (case fo_symlink_status fo (res_name r) w of
      None \<Rightarrow> Ok (put_attr ''ensure'' (VStr ''absent'') r)
    | Some (t, perms) \<Rightarrow>
        (let fd = fdesc_from_ftype t;
             r1 = put_attr ''type'' (VStr (fd_typ fd)) (put_attr ''ensure'' (VStr (fd_ensure fd)) r)
         in obind (if t = Symlink_file
                   then obind (fo_read_symlink fo (res_name r) w) (\<lambda>target. Ok (put_attr ''target'' (VStr target) r1))
                   else Ok r1) (\<lambda>r2.
            let r3 = put_attr ''mode'' (VStr (octal_field (if perms > 511 then 5 else 4) perms)) r2
            in obind (fo_last_write_time fo (res_name r) w) (\<lambda>mtime.
               Ok (find_from_stat fo w
                 (put_attr ''checksum'' (VStr ''mtime'')
                 (put_attr ''checksum_value'' (VStr (show_int mtime))
                 (put_attr ''mtime'' (VStr (fo_iso_time fo mtime)) r3))))))))"

fun file_get_all :: "'w fs_ops \<Rightarrow> string list \<Rightarrow> 'w \<Rightarrow> resource list outcome" where
  "file_get_all fo [] w = Ok []"
| "file_get_all fo (n # ns) w =
     obind (file_load fo w (new_resource (fo_absolute fo n w))) (\<lambda>r.
       obind (file_get_all fo ns w) (\<lambda>rs. Ok (r # rs)))"

definition file_get :: "'w fs_ops \<Rightarrow> string list \<Rightarrow> ('w pst, resource list) prog" where
  "file_get fo names s =
     (if names = [] then Err ''the file provider does not support listing all files''
      else file_get_all fo names (p_world s), s)"

subsection \<open>Changing files\<close>

text \<open>A call with an error code, and recording changes for the file of an update.\<close>

definition fs_call :: "('w \<Rightarrow> 'e option \<times> 'w) \<Rightarrow> ('e \<Rightarrow> string) \<Rightarrow> ('w pst, unit) prog" where
  "fs_call f msg s = (case f (p_world s) of
      (None, w) \<Rightarrow> (Ok (), s\<lparr>p_world := w\<rparr>)
    | (Some e, w) \<Rightarrow> (Err (msg e), s\<lparr>p_world := w\<rparr>))"

definition record_changes :: "string \<Rightarrow> (changes \<Rightarrow> changes) \<Rightarrow> ('w pst, unit) prog" where
  "record_changes n g = modify (with_ctx (\<lambda>cx. set_changes n (g (changes_of cx n)) cx))"

definition file_remove :: "'w fs_ops \<Rightarrow> string \<Rightarrow> string \<Rightarrow> bool \<Rightarrow> ('w pst, unit) prog" where
  "file_remove fo path state force =
     (if state = ''absent'' then ret ()
      else if state = ''directory'' \<and> \<not> force
      then fail (''file '' @ quoted ''{1}'' @ '' is a directory. Can not remove that since force is not set to true'')
      else if state = ''directory'' \<or> state = ''file'' \<or> state = ''link''
      then fs_call (fo_remove_all fo path) (\<lambda>e. ''failed to remove '' @ quoted path @ '': '' @ e)
      else fail (''can not remove a '' @ quoted state @ '' - unknown file type''))"

definition create_file :: "'w fs_ops \<Rightarrow> string \<Rightarrow> ('w pst, unit) prog" where
  "create_file fo name s = (case fo_write_file fo name [] (p_world s) of (opened, w) \<Rightarrow>
     (if opened then Ok () else Err (''Could not create file '' @ quoted name), s\<lparr>p_world := w\<rparr>))"

definition create_directory :: "'w fs_ops \<Rightarrow> string \<Rightarrow> ('w pst, unit) prog" where
  "create_directory fo name =
     fs_call (fo_create_directory fo name) (\<lambda>e. ''failed to create directory '' @ quoted name @ '': '' @ e)"

text \<open>The owner and group part of \<open>update_metadata\<close>: an id that is not given is \<open>-1\<close>.\<close>

definition wanted_id :: "(string \<Rightarrow> 32 word outcome) \<Rightarrow> string option \<Rightarrow> 32 word outcome" where
  "wanted_id conv v = (case v of None \<Rightarrow> Ok (- 1) | Some t \<Rightarrow> conv t)"

definition update_owner :: "'w fs_ops \<Rightarrow> update \<Rightarrow> ('w pst, unit) prog" where
  "update_owner fo u =
     bnd (lift (wanted_id owner_to_uid (lookup_ptr as_string (upd_should u) ''owner''))) (\<lambda>uid.
     bnd (lift (wanted_id group_to_gid (lookup_ptr as_string (upd_should u) ''group''))) (\<lambda>gid.
     fs_call (fo_lchown fo (upd_name u) uid gid) (\<lambda>(errno, e). ''cannot set owner/group [lchown, errno='' @ show_int errno @ '']: '' @ e)))"

definition update_mode :: "'w fs_ops \<Rightarrow> update \<Rightarrow> ('w pst, unit) prog" where
  "update_mode fo u = (case lookup_ptr as_string (upd_should u) ''mode'' of
      None \<Rightarrow> fail (''internal error: should['' @ quoted ''mode'' @ ''] is not a string'')
    | Some t \<Rightarrow> bnd (lift (parse_mode t)) (\<lambda>mode.
        fs_call (fo_permissions fo (upd_name u) mode) (\<lambda>e. ''failed to change mode to '' @ quoted t @ '': '' @ e)))"

definition update_metadata :: "'w fs_ops \<Rightarrow> update \<Rightarrow> ('w pst, unit) prog" where
  "update_metadata fo u s0 =
     (let n = upd_name u; cx = changes_for n (p_ctx s0) in
      case changes_add_attrs [''owner'', ''group'', ''mode''] u (changes_of cx n) of
        Exn x \<Rightarrow> (Exn x, s0\<lparr>p_ctx := cx\<rparr>)
      | Err e \<Rightarrow> (Err e, s0\<lparr>p_ctx := cx\<rparr>)
      | Ok (_, chgs) \<Rightarrow>
          bnd (if changes_exists ''owner'' chgs \<or> changes_exists ''group'' chgs then update_owner fo u else ret ())
            (\<lambda>_. if changes_exists ''mode'' chgs then update_mode fo u else ret ())
            (s0\<lparr>p_ctx := set_changes n chgs cx\<rparr>))"

definition update_content :: "'w fs_ops \<Rightarrow> update \<Rightarrow> ('w pst, unit) prog" where
  "update_content fo u s =
     (case lookup_ptr as_string (upd_should u) ''content'' of
        None \<Rightarrow>
          if is_present (val_at (upd_should u) ''content'')
          then (Err (''illegal value for '' @ quoted ''content'' @ '': it must be a string''), s)
          else (Ok (), s)
      | Some content \<Rightarrow>
          (case fo_read_file fo (upd_name u) (p_world s) of
             None \<Rightarrow> (Err (''Could not open file '' @ quoted (upd_name u) @ '' for reading''), s)
           | Some buf \<Rightarrow>
               if buf = content then (Ok (), s)
               else (case fo_write_file fo (upd_name u) content (p_world s) of (opened, w) \<Rightarrow>
                  if \<not> opened then (Err (''Could not create file '' @ quoted (upd_name u)), s\<lparr>p_world := w\<rparr>)
                  else record_changes (upd_name u) (changes_add ''content'' (VStr content) (VStr buf))
                         (s\<lparr>p_world := w\<rparr>))))"

definition update_target :: "'w fs_ops \<Rightarrow> update \<Rightarrow> ('w pst, unit) prog" where
  "update_target fo u =
     (case lookup_ptr as_string (upd_should u) ''target'' of
        None \<Rightarrow> fail (''ensure for '' @ quoted (upd_name u) @ '' is '' @ quoted ''link'' @ '', but target is not set'')
      | Some target \<Rightarrow>
          (let state = lookup as_string (upd_is u) ''ensure'' ''absent'' in
           bnd (if state \<noteq> ''absent'' then file_remove fo (upd_name u) state False else ret ()) (\<lambda>_.
           bnd (fs_call (fo_create_symlink fo target (upd_name u))
                 (\<lambda>e. ''failed to create symlink '' @ quoted (upd_name u) @ '' with target '' @ quoted target @ '': '' @ e)) (\<lambda>_ s.
             let cx = changes_for (upd_name u) (p_ctx s) in
             case changes_add_upd ''target'' u (changes_of cx (upd_name u)) of
               Ok (_, chgs) \<Rightarrow> (Ok (), s\<lparr>p_ctx := set_changes (upd_name u) chgs cx\<rparr>)
             | Err e \<Rightarrow> (Err e, s\<lparr>p_ctx := cx\<rparr>)
             | Exn x \<Rightarrow> (Exn x, s\<lparr>p_ctx := cx\<rparr>)))))"

text \<open>The current state, with the type in the place of \<open>present\<close>; the desired state; \<open>force\<close>.\<close>

definition file_state :: "update \<Rightarrow> string" where
  "file_state u = (let state = lookup as_string (upd_is u) ''ensure'' ''absent'' in
     if state = ''present'' then lookup as_string (upd_is u) ''type'' ''file'' else state)"

definition file_ensure :: "update \<Rightarrow> string" where
  "file_ensure u = (let state = file_state u; ensure = lookup as_string (upd_should u) ''ensure'' state in
     if ensure = ''present'' then (if state = ''absent'' then ''file'' else state) else ensure)"

definition file_force :: "update \<Rightarrow> bool" where
  "file_force u \<longleftrightarrow> lookup as_string (upd_should u) ''force'' ''false'' = ''true''"

text \<open>The part of \<open>set\<close> that acts on the desired state, given the state after a removal.\<close>

definition file_realize :: "'w fs_ops \<Rightarrow> update \<Rightarrow> string \<Rightarrow> ('w pst, unit) prog" where
  "file_realize fo u state =
     (let ensure = file_ensure u in
      if ensure = ''file'' then
        bnd (if state = ''absent'' then create_file fo (upd_name u) else ret ()) (\<lambda>_.
        bnd (update_metadata fo u) (\<lambda>_. update_content fo u))
      else if ensure = ''directory'' then
        bnd (if state = ''absent'' then create_directory fo (upd_name u) else ret ()) (\<lambda>_. update_metadata fo u)
      else if ensure = ''link'' then
        bnd (update_target fo u) (\<lambda>_. update_metadata fo u)
      else if ensure = ''absent'' then file_remove fo (upd_name u) state (file_force u)
      else fail (''Illegal ensure value '' @ quoted ensure))"

definition file_set_one :: "'w fs_ops \<Rightarrow> update \<Rightarrow> ('w pst, unit) prog" where
  "file_set_one fo u =
     (let state = file_state u; ensure = file_ensure u; force = file_force u in
      if state = ''directory'' \<and> state \<noteq> ensure \<and> \<not> force
      then fail (''Cannot change file '' @ quoted (upd_name u) @ '' from directory to '' @ ensure)
      else if ensure \<noteq> state
      then bnd (if state \<noteq> ''absent'' then file_remove fo (upd_name u) state force else ret ()) (\<lambda>_.
           bnd (record_changes (upd_name u) (changes_add ''ensure'' (VStr ensure) (VStr ''absent''))) (\<lambda>_.
             file_realize fo u ''absent''))
      else file_realize fo u state)"

definition file_set :: "'w fs_ops \<Rightarrow> update list \<Rightarrow> ('w pst, unit) prog" where
  "file_set fo us = for_each (file_set_one fo) us"

definition file_provider :: "'w fs_ops \<Rightarrow> prov_spec option \<Rightarrow> 'w provider" where
  "file_provider fo sp = \<lparr>pv_spec = sp, pv_source = ''builtin'', pv_get = file_get fo, pv_set = file_set fo\<rparr>"

definition file_describe :: "('a, 'w) environment \<Rightarrow> 'w fs_ops \<Rightarrow> string \<Rightarrow> ('w, 'w provider \<times> prov_spec) prog" where
  "file_describe env fo desc =
     bnd (env_parse_spec env ''file'' desc (env_is_local env)) (\<lambda>sp. ret (file_provider fo None, sp))"

subsection \<open>Ids and modes as text\<close>

lemma digit_char:
  assumes "d < 10"
  shows "is_digit (char_of (48 + d))" "digit_value (char_of (48 + d)) = d"
proof -
  from assms have "d \<in> {0, 1, 2, 3, 4, 5, 6, 7, 8, 9}" by auto
  then show "is_digit (char_of (48 + d))"
    by (auto simp: is_digit_def less_eq_char_def)
  show "digit_value (char_of (48 + d)) = d"
    using assms by (simp add: digit_value_def)
qed

lemma base_digit_char: "b \<le> 10 \<Longrightarrow> d < b \<Longrightarrow> base_digit b (char_of (48 + d))"
  using digit_char [of d] by (simp add: base_digit_def)

lemma digits_value_snoc: "digits_value b (ds @ [c]) = digits_value b ds * b + digit_value c"
  by (simp add: digits_value_def)

lemma show_base_digits:
  "2 \<le> b \<Longrightarrow> b \<le> 10 \<Longrightarrow>
    (\<forall>c \<in> set (show_base b n). base_digit b c) \<and> digits_value b (show_base b n) = n \<and> show_base b n \<noteq> []"
proof (induction b n rule: show_base.induct)
  case (1 b n)
  show ?case
  proof (cases "n < b")
    case True
    with "1.prems" show ?thesis
      using base_digit_char [of b n] digit_char [of n]
      by (simp add: show_base.simps [of b n] digits_value_def)
  next
    case False
    then have "\<not> (b < 2 \<or> n < b)" using "1.prems" by simp
    moreover have "n mod b < b" using "1.prems" by simp
    then have "n mod b < 10" using "1.prems" by linarith
    ultimately show ?thesis
      using "1.IH" "1.prems" base_digit_char [of b "n mod b"] digit_char [of "n mod b"]
      by (subst (1 2 3) show_base.simps) (auto simp: digits_value_snoc)
  qed
qed

lemma show_nat_base: "show_nat n = show_base 10 n"
  by (induction n rule: show_nat.induct) (subst show_nat.simps, subst show_base.simps, simp)

lemma digits_value_zeros: "digits_value b (replicate k (CHR ''0'') @ ds) = digits_value b ds"
proof (induction k)
  case (Suc k)
  then show ?case by (simp add: digits_value_def digit_value_def)
qed simp

lemma base_digit_head: "base_digit b c \<Longrightarrow> \<not> is_space c \<and> c \<noteq> CHR ''-'' \<and> c \<noteq> CHR ''+''"
  using digit_not_space [of c] by (auto simp: base_digit_def is_digit_def less_eq_char_def)

text \<open>A text of digits only is read whole; it fails exactly when its value does not fit.\<close>

lemma stoi_digits:
  assumes "ds \<noteq> []" and "\<And>c. c \<in> set ds \<Longrightarrow> base_digit b c"
  shows "stoi b ds = (if digits_value b ds < 2 ^ 31 then Ok (int (digits_value b ds), length ds)
    else Exn (Out_of_range ''stoi''))"
proof -
  obtain c cs where ds: "ds = c # cs" using assms(1) by (cases ds) auto
  have c: "\<not> is_space c" "c \<noteq> CHR ''-''" "c \<noteq> CHR ''+''"
    using base_digit_head [of b c] assms(2) [of c] by (auto simp: ds)
  have run: "takeWhile (base_digit b) ds = ds" using assms(2) by (simp add: takeWhile_eq_all_conv)
  have "dropWhile is_space ds = ds" using c by (simp add: ds)
  then show ?thesis
    using run c by (auto simp: stoi_def Let_def ds)
qed

text \<open>C35: the owner that the provider reports for a file can be given back as the desired owner
  only when its id is below 2 to the 31: ids are converted with \<open>std::stoi\<close>, so a larger one, which
  fits \<open>uid_t\<close>, is refused.\<close>

theorem owner_roundtrip:
  "owner_to_uid (show_nat (unat uid)) =
    (if unat uid < 2 ^ 31 then Ok uid
     else Err (''failed to convert '' @ quoted (show_nat (unat uid)) @ '' into a uid [stoi]''))"
proof -
  from show_base_digits [of 10 "unat uid"]
  have "show_nat (unat uid) \<noteq> []" "\<And>c. c \<in> set (show_nat (unat uid)) \<Longrightarrow> base_digit 10 c"
    "digits_value 10 (show_nat (unat uid)) = unat uid"
    by (simp_all add: show_nat_base)
  from stoi_digits [OF this(1,2)] this(3) show ?thesis
    by (simp add: owner_to_uid_def)
qed

text \<open>C36: the mode string that the provider reports for a file is accepted as a desired mode and
  means the same permission bits.\<close>

theorem mode_roundtrip:
  assumes "perms \<le> perms_mask"
  shows "parse_mode (octal_field (if perms > 511 then 5 else 4) perms) = Ok perms"
proof -
  let ?w = "if perms > 511 then 5 else 4 :: nat"
  let ?t = "octal_field ?w perms"
  have t: "?t = replicate (?w - length (show_base 8 perms)) (CHR ''0'') @ show_base 8 perms"
    by (simp add: octal_field_def Let_def)
  have "base_digit 8 (CHR ''0'')" by (simp add: base_digit_def is_digit_def digit_value_def less_eq_char_def)
  then have "\<And>c. c \<in> set ?t \<Longrightarrow> base_digit 8 c" and "?t \<noteq> []" and "digits_value 8 ?t = perms"
    using show_base_digits [of 8 perms] by (auto simp: t digits_value_zeros)
  from stoi_digits [OF this(2,1)] this(3) assms have "stoi 8 ?t = Ok (int perms, length ?t)"
    by (simp add: perms_mask_def)
  then show ?thesis using assms by (simp only: parse_mode_def) (simp add: perms_mask_def)
qed

theorem mode_roundtrip_witness: "parse_mode (octal_field 4 420) = Ok 420"
  using mode_roundtrip [of 420] by (simp add: perms_mask_def)

subsection \<open>Reading a file's state\<close>

definition fs_type :: "'w fs_ops \<Rightarrow> string \<Rightarrow> 'w \<Rightarrow> ftype option" where
  "fs_type fo p w = map_option fst (fo_symlink_status fo p w)"

text \<open>The file type that a value of \<open>ensure\<close> stands for.\<close>

definition ensure_type :: "string \<Rightarrow> ftype option" where
  "ensure_type e =
     (if e = ''file'' then Some Regular_file else if e = ''directory'' then Some Directory_file
      else if e = ''link'' then Some Symlink_file else None)"

definition managed_types :: "ftype option set" where
  "managed_types = {None, Some Regular_file, Some Directory_file, Some Symlink_file}"

lemma res_name_load: "file_load fo w r = Ok r' \<Longrightarrow> res_name r' = res_name r"
  by (auto simp: file_load_def find_from_stat_def Let_def obind_Ok_iff split: option.splits prod.splits if_splits)

lemma val_at_find_from_stat:
  "k \<notin> {''group'', ''owner'', ''ctime''} \<Longrightarrow> val_at (find_from_stat fo w r) k = val_at r k"
  by (auto simp: find_from_stat_def val_at_put split: option.split prod.split)

lemma file_load_Some:
  assumes "file_load fo w (new_resource n) = Ok r" and "fo_symlink_status fo n w = Some (t, perms)"
  shows "val_at r ''ensure'' = VStr (fd_ensure (fdesc_from_ftype t)) \<and>
    val_at r ''type'' = VStr (fd_typ (fdesc_from_ftype t)) \<and>
    (t = Symlink_file \<longrightarrow> (\<exists>p. fo_read_symlink fo n w = Ok p \<and> val_at r ''target'' = VStr p))"
  using assms by (cases "t = Symlink_file") (auto simp: file_load_def Let_def obind_Ok_iff val_at_find_from_stat val_at_put)

text \<open>A file whose state could be read is reported under its name with the \<open>ensure\<close> value of
  the type it has; a path whose status is an error counts as absent, and nothing else is
  reported for it.\<close>

theorem file_load_state:
  assumes "file_load fo w (new_resource n) = Ok r"
  shows "res_name r = n \<and>
    (case fs_type fo n w of
       None \<Rightarrow> attrs r = [(''ensure'', VStr ''absent'')]
     | Some t \<Rightarrow> val_at r ''ensure'' = VStr (fd_ensure (fdesc_from_ftype t)) \<and>
         val_at r ''type'' = VStr (fd_typ (fdesc_from_ftype t)) \<and>
         (t = Symlink_file \<longrightarrow> (\<exists>p. fo_read_symlink fo n w = Ok p \<and> val_at r ''target'' = VStr p)))"
proof (cases "fo_symlink_status fo n w")
  case None
  with assms have "r = put_attr ''ensure'' (VStr ''absent'') (new_resource n)" by (simp add: file_load_def)
  with None show ?thesis by (simp add: fs_type_def put_attr_def new_resource_def)
next
  case (Some tp)
  then show ?thesis
    using file_load_Some [OF assms, of "fst tp" "snd tp"] res_name_load [OF assms] by (simp add: fs_type_def)
qed

theorem file_load_state_witness:
  "\<exists>r. file_load \<lparr>fo_absolute = (\<lambda>p w. p), fo_symlink_status = (\<lambda>p w. None), fo_read_symlink = (\<lambda>p w. Ok []),
       fo_last_write_time = (\<lambda>p w. Ok 0), fo_iso_time = (\<lambda>t. []), fo_lstat = (\<lambda>p w. None), fo_lchown = (\<lambda>p u g w. (None, w)),
       fo_permissions = (\<lambda>p m w. (None, w)), fo_read_file = (\<lambda>p w. None), fo_write_file = (\<lambda>p c w. (True, w)),
       fo_create_symlink = (\<lambda>t p w. (None, w)), fo_create_directory = (\<lambda>p w. (None, w)), fo_remove_all = (\<lambda>p w. (None, w))\<rparr>
     () (new_resource ''/f'') = Ok r \<and> res_name r = ''/f'' \<and> attrs r = [(''ensure'', VStr ''absent'')]"
proof -
  let ?fo = "\<lparr>fo_absolute = (\<lambda>p w. p), fo_symlink_status = (\<lambda>p w. None), fo_read_symlink = (\<lambda>p w. Ok []),
       fo_last_write_time = (\<lambda>p w. Ok 0), fo_iso_time = (\<lambda>t. []), fo_lstat = (\<lambda>p w. None), fo_lchown = (\<lambda>p u g w. (None, w)),
       fo_permissions = (\<lambda>p m w. (None, w)), fo_read_file = (\<lambda>p w. None), fo_write_file = (\<lambda>p c w. (True, w)),
       fo_create_symlink = (\<lambda>t p w. (None, w)), fo_create_directory = (\<lambda>p w. (None, w)), fo_remove_all = (\<lambda>p w. (None, w))\<rparr>"
  obtain r where r: "file_load ?fo () (new_resource ''/f'') = Ok r" by (simp add: file_load_def)
  from file_load_state [OF r] r show ?thesis by (simp add: fs_type_def)
qed

subsection \<open>Reaching the desired state\<close>

text \<open>
  What the file system calls document, for calls that succeed: removal leaves nothing at the
  path, writing a file that is absent or regular leaves a regular file whose contents (if they can be
  read) are the text written, creating a directory or a link leaves one, and changing owner or mode
  changes neither type nor contents nor link target.
\<close>

definition same_file :: "'w fs_ops \<Rightarrow> string \<Rightarrow> 'w \<Rightarrow> 'w \<Rightarrow> bool" where
  "same_file fo p w w' \<longleftrightarrow> fs_type fo p w' = fs_type fo p w \<and> fo_read_file fo p w' = fo_read_file fo p w \<and>
     fo_read_symlink fo p w' = fo_read_symlink fo p w"

definition fs_laws :: "'w fs_ops \<Rightarrow> bool" where
  "fs_laws fo \<longleftrightarrow>
     (\<forall>p w w'. fo_remove_all fo p w = (None, w') \<longrightarrow> fs_type fo p w' = None) \<and>
     (\<forall>p c w w'. fo_write_file fo p c w = (True, w') \<and> fs_type fo p w \<in> {None, Some Regular_file} \<longrightarrow>
        fs_type fo p w' = Some Regular_file \<and> fo_read_file fo p w' \<in> {None, Some c}) \<and>
     (\<forall>p w w'. fo_create_directory fo p w = (None, w') \<and> fs_type fo p w = None \<longrightarrow>
        fs_type fo p w' = Some Directory_file) \<and>
     (\<forall>t p w w'. fo_create_symlink fo t p w = (None, w') \<longrightarrow>
        fs_type fo p w' = Some Symlink_file \<and> fo_read_symlink fo p w' = Ok t) \<and>
     (\<forall>p u g w w'. fo_lchown fo p u g w = (None, w') \<longrightarrow> same_file fo p w w') \<and>
     (\<forall>p m w w'. fo_permissions fo p m w = (None, w') \<longrightarrow> same_file fo p w w')"

lemma fs_law_removed: "fs_laws fo \<Longrightarrow> fo_remove_all fo p w = (None, w') \<Longrightarrow> fs_type fo p w' = None"
  by (simp add: fs_laws_def)

lemma fs_law_written:
  "fs_laws fo \<Longrightarrow> fo_write_file fo p c w = (True, w') \<Longrightarrow> fs_type fo p w \<in> {None, Some Regular_file} \<Longrightarrow>
    fs_type fo p w' = Some Regular_file \<and> fo_read_file fo p w' \<in> {None, Some c}"
  unfolding fs_laws_def by blast

lemma fs_law_directory:
  "fs_laws fo \<Longrightarrow> fo_create_directory fo p w = (None, w') \<Longrightarrow> fs_type fo p w = None \<Longrightarrow>
    fs_type fo p w' = Some Directory_file"
  unfolding fs_laws_def by blast

lemma fs_law_symlink:
  "fs_laws fo \<Longrightarrow> fo_create_symlink fo t p w = (None, w') \<Longrightarrow>
    fs_type fo p w' = Some Symlink_file \<and> fo_read_symlink fo p w' = Ok t"
  unfolding fs_laws_def by blast

lemma fs_law_lchown: "fs_laws fo \<Longrightarrow> fo_lchown fo p u g w = (None, w') \<Longrightarrow> same_file fo p w w'"
  unfolding fs_laws_def by blast

lemma fs_law_permissions: "fs_laws fo \<Longrightarrow> fo_permissions fo p m w = (None, w') \<Longrightarrow> same_file fo p w w'"
  unfolding fs_laws_def by blast

lemma fs_call_Ok: "fs_call f msg s = (Ok (), s') \<longleftrightarrow> (\<exists>w. f (p_world s) = (None, w) \<and> s' = s\<lparr>p_world := w\<rparr>)"
  by (auto simp: fs_call_def split: prod.splits option.splits)

lemma lift_Ok: "lift r s = (Ok a, s') \<longleftrightarrow> r = Ok a \<and> s' = s"
  by (auto simp: lift_def)

lemma same_file_refl [simp]: "same_file fo p w w"
  by (simp add: same_file_def)

lemma same_file_trans: "same_file fo p w w' \<Longrightarrow> same_file fo p w' w'' \<Longrightarrow> same_file fo p w w''"
  by (simp add: same_file_def)

lemma update_owner_same:
  assumes "fs_laws fo" and "update_owner fo u s = (Ok (), s')"
  shows "same_file fo (upd_name u) (p_world s) (p_world s')"
  using assms(2) fs_law_lchown [OF assms(1)] by (auto simp: update_owner_def bnd_Ok_iff lift_Ok fs_call_Ok)

lemma update_mode_same:
  assumes "fs_laws fo" and "update_mode fo u s = (Ok (), s')"
  shows "same_file fo (upd_name u) (p_world s) (p_world s')"
  using assms(2) fs_law_permissions [OF assms(1)]
  by (auto simp: update_mode_def bnd_Ok_iff lift_Ok fs_call_Ok fail_def split: option.splits)

lemma owner_or_skip_same:
  assumes "fs_laws fo" and "(if b then update_owner fo u else ret ()) s = (Ok (), s')"
  shows "same_file fo (upd_name u) (p_world s) (p_world s')"
  using assms update_owner_same by (auto simp: ret_def split: if_splits)

lemma mode_or_skip_same:
  assumes "fs_laws fo" and "(if b then update_mode fo u else ret ()) s = (Ok (), s')"
  shows "same_file fo (upd_name u) (p_world s) (p_world s')"
  using assms update_mode_same by (auto simp: ret_def split: if_splits)

lemma update_metadata_same:
  assumes "fs_laws fo" and "update_metadata fo u s = (Ok (), s')"
  shows "same_file fo (upd_name u) (p_world s) (p_world s')"
proof -
  obtain b chgs where "changes_add_attrs [''owner'', ''group'', ''mode''] u
      (changes_of (changes_for (upd_name u) (p_ctx s)) (upd_name u)) = Ok (b, chgs)"
    using changes_add_attrs_eq [of "[''owner'', ''group'', ''mode'']"] by simp
  with assms(2) obtain s1 where
      "(if changes_exists ''owner'' chgs \<or> changes_exists ''group'' chgs then update_owner fo u else ret ())
         (s\<lparr>p_ctx := set_changes (upd_name u) chgs (changes_for (upd_name u) (p_ctx s))\<rparr>) = (Ok (), s1)"
      "(if changes_exists ''mode'' chgs then update_mode fo u else ret ()) s1 = (Ok (), s')"
    by (auto simp: update_metadata_def Let_def bnd_Ok_iff)
  from owner_or_skip_same [OF assms(1) this(1)] mode_or_skip_same [OF assms(1) this(2)]
  show ?thesis by (auto intro: same_file_trans)
qed

lemma file_remove_gone:
  assumes "fs_laws fo" and "file_remove fo p state force s = (Ok (), s')" and "state \<noteq> ''absent''"
  shows "fs_type fo p (p_world s') = None"
  using assms(2,3) fs_law_removed [OF assms(1)] by (auto simp: file_remove_def fs_call_Ok fail_def split: if_splits)

lemma update_content_content:
  assumes "fs_laws fo" and "update_content fo u s = (Ok (), s')" and "fs_type fo (upd_name u) (p_world s) = Some Regular_file"
  shows "fs_type fo (upd_name u) (p_world s') = Some Regular_file \<and>
    (\<forall>c. val_at (upd_should u) ''content'' = VStr c \<longrightarrow> fo_read_file fo (upd_name u) (p_world s') \<in> {None, Some c})"
proof (cases "lookup_ptr as_string (upd_should u) ''content''")
  case None
  then have "val_at (upd_should u) ''content'' \<noteq> VStr c" for c
    by (metis lookup_ptr_string option.distinct(1))
  with None assms(2,3) show ?thesis by (auto simp: update_content_def split: if_splits)
next
  case (Some c)
  then have c: "val_at (upd_should u) ''content'' = VStr c" by (simp add: lookup_ptr_string)
  obtain buf where buf: "fo_read_file fo (upd_name u) (p_world s) = Some buf"
    using assms(2) Some by (auto simp: update_content_def split: option.splits)
  obtain opened w where wr: "fo_write_file fo (upd_name u) c (p_world s) = (opened, w)" by fastforce
  show ?thesis
    using assms(2,3) Some buf wr c fs_law_written [OF assms(1), of "upd_name u" c "p_world s" w]
    by (auto simp: update_content_def record_changes_def modify_def split: if_splits)
qed

lemma update_target_link:
  assumes "fs_laws fo" and "update_target fo u s = (Ok (), s')"
  shows "fs_type fo (upd_name u) (p_world s') = Some Symlink_file \<and>
    (\<exists>t. val_at (upd_should u) ''target'' = VStr t \<and> fo_read_symlink fo (upd_name u) (p_world s') = Ok t)"
proof -
  obtain t where t: "lookup_ptr as_string (upd_should u) ''target'' = Some t"
    using assms(2) by (auto simp: update_target_def fail_def split: option.splits)
  with assms(2) have "\<exists>w. fo_create_symlink fo t (upd_name u) w = (None, p_world s')"
    by (auto simp: update_target_def Let_def bnd_Ok_iff fs_call_Ok changes_add_upd_eq)
  with t fs_law_symlink [OF assms(1)] show ?thesis by (auto simp: lookup_ptr_string)
qed

text \<open>The parts of a successful run of \<open>set\<close>.\<close>

definition reflects :: "'w fs_ops \<Rightarrow> update \<Rightarrow> 'w \<Rightarrow> bool" where
  "reflects fo u w \<longleftrightarrow> (file_state u = ''absent'' \<longrightarrow> fs_type fo (upd_name u) w = None) \<and>
     (\<forall>t. ensure_type (file_state u) = Some t \<longrightarrow> fs_type fo (upd_name u) w = Some t)"

lemma file_realize_reaches:
  assumes laws: "fs_laws fo" and run: "file_realize fo u state s = (Ok (), s')"
    and state: "state = ''absent'' \<Longrightarrow> fs_type fo (upd_name u) (p_world s) = None"
    and same: "state \<noteq> ''absent'' \<Longrightarrow> state = file_ensure u \<and> fs_type fo (upd_name u) (p_world s) = ensure_type (file_ensure u)"
  shows "file_ensure u \<in> {''absent'', ''file'', ''directory'', ''link''} \<and>
    fs_type fo (upd_name u) (p_world s') = ensure_type (file_ensure u) \<and>
    (\<forall>c. file_ensure u = ''file'' \<and> val_at (upd_should u) ''content'' = VStr c \<longrightarrow>
       fo_read_file fo (upd_name u) (p_world s') \<in> {None, Some c}) \<and>
    (file_ensure u = ''link'' \<longrightarrow> (\<exists>t. val_at (upd_should u) ''target'' = VStr t \<and>
       fo_read_symlink fo (upd_name u) (p_world s') = Ok t))"
proof -
  consider "file_ensure u = ''file''" | "file_ensure u = ''directory''" | "file_ensure u = ''link''"
    | "file_ensure u = ''absent''"
    using run by (auto simp: file_realize_def Let_def fail_def split: if_splits)
  then show ?thesis
  proof cases
    case 1
    with run obtain s1 s2 where
        c: "(if state = ''absent'' then create_file fo (upd_name u) else ret ()) s = (Ok (), s1)"
        and m: "update_metadata fo u s1 = (Ok (), s2)" and t: "update_content fo u s2 = (Ok (), s')"
      by (auto simp: file_realize_def Let_def bnd_Ok_iff)
    have "fs_type fo (upd_name u) (p_world s1) = Some Regular_file"
      using c state same 1 fs_law_written [OF laws, of "upd_name u" "[]" "p_world s"]
      by (auto simp: create_file_def ret_def ensure_type_def split: if_splits prod.splits)
    with update_metadata_same [OF laws m] have "fs_type fo (upd_name u) (p_world s2) = Some Regular_file"
      by (simp add: same_file_def)
    from update_content_content [OF laws t this] 1 show ?thesis by (simp add: ensure_type_def)
  next
    case 2
    with run obtain s1 where
        c: "(if state = ''absent'' then create_directory fo (upd_name u) else ret ()) s = (Ok (), s1)"
        and m: "update_metadata fo u s1 = (Ok (), s')"
      by (auto simp: file_realize_def Let_def bnd_Ok_iff)
    have "fs_type fo (upd_name u) (p_world s1) = Some Directory_file"
      using c state same 2 fs_law_directory [OF laws, of "upd_name u" "p_world s"]
      by (auto simp: create_directory_def fs_call_Ok ret_def ensure_type_def split: if_splits)
    with update_metadata_same [OF laws m] 2 show ?thesis by (simp add: same_file_def ensure_type_def)
  next
    case 3
    with run obtain s1 where t: "update_target fo u s = (Ok (), s1)" and m: "update_metadata fo u s1 = (Ok (), s')"
      by (auto simp: file_realize_def Let_def bnd_Ok_iff)
    from update_target_link [OF laws t] update_metadata_same [OF laws m] 3
    show ?thesis by (auto simp: same_file_def ensure_type_def)
  next
    case 4
    then have rm: "file_remove fo (upd_name u) state (file_force u) s = (Ok (), s')"
      using run by (simp add: file_realize_def)
    have "fs_type fo (upd_name u) (p_world s') = None"
    proof (cases "state = ''absent''")
      case True
      with rm state show ?thesis by (simp add: file_remove_def ret_def)
    qed (rule file_remove_gone [OF laws rm])
    with 4 show ?thesis by (simp add: ensure_type_def)
  qed
qed

lemma file_set_one_reaches:
  assumes laws: "fs_laws fo" and run: "file_set_one fo u s = (Ok (), s')" and refl: "reflects fo u (p_world s)"
  shows "file_ensure u \<in> {''absent'', ''file'', ''directory'', ''link''} \<and>
    fs_type fo (upd_name u) (p_world s') = ensure_type (file_ensure u) \<and>
    (\<forall>c. file_ensure u = ''file'' \<and> val_at (upd_should u) ''content'' = VStr c \<longrightarrow>
       fo_read_file fo (upd_name u) (p_world s') \<in> {None, Some c}) \<and>
    (file_ensure u = ''link'' \<longrightarrow> (\<exists>t. val_at (upd_should u) ''target'' = VStr t \<and>
       fo_read_symlink fo (upd_name u) (p_world s') = Ok t))"
proof (cases "file_ensure u = file_state u")
  case True
  then have "file_realize fo u (file_state u) s = (Ok (), s')"
    using run by (simp add: file_set_one_def Let_def)
  moreover have "fs_type fo (upd_name u) (p_world s) = ensure_type (file_ensure u)" if "file_state u \<noteq> ''absent''"
    using calculation that refl True
    by (auto simp: reflects_def file_realize_def Let_def fail_def ensure_type_def split: if_splits)
  ultimately show ?thesis
    using refl True by (intro file_realize_reaches [OF laws]) (auto simp: reflects_def)
next
  case False
  then obtain s1 where
      rm: "(if file_state u \<noteq> ''absent'' then file_remove fo (upd_name u) (file_state u) (file_force u) else ret ()) s = (Ok (), s1)"
      and real: "file_realize fo u ''absent'' (snd (record_changes (upd_name u)
        (changes_add ''ensure'' (VStr (file_ensure u)) (VStr ''absent'')) s1)) = (Ok (), s')"
    using run by (auto simp: file_set_one_def Let_def fail_def bnd_Ok_iff record_changes_def modify_def split: if_splits)
  have "fs_type fo (upd_name u) (p_world s1) = None"
    using rm refl file_remove_gone [OF laws] by (auto simp: ret_def reflects_def split: if_splits)
  then show ?thesis
    by (intro file_realize_reaches [OF laws real]) (simp_all add: record_changes_def modify_def)
qed

text \<open>A small file system: a map from paths to nodes.\<close>

datatype node = File_node nat string | Dir_node nat | Link_node string

fun node_type :: "node \<Rightarrow> ftype \<times> nat" where
  "node_type (File_node m c) = (Regular_file, m)"
| "node_type (Dir_node m) = (Directory_file, m)"
| "node_type (Link_node t) = (Symlink_file, 511)"

fun node_chmod :: "nat \<Rightarrow> node \<Rightarrow> node" where
  "node_chmod m (File_node _ c) = File_node m c"
| "node_chmod m (Dir_node _) = Dir_node m"
| "node_chmod m (Link_node t) = Link_node t"

type_synonym demo_files = "string \<Rightarrow> node option"

definition demo_fs :: "demo_files fs_ops" where
  "demo_fs = \<lparr>fo_absolute = (\<lambda>p w. if starts_with p ''/'' then p else ''/'' @ p),
     fo_symlink_status = (\<lambda>p w. map_option node_type (w p)),
     fo_read_symlink = (\<lambda>p w. case w p of Some (Link_node t) \<Rightarrow> Ok t | _ \<Rightarrow> Exn (Logic_error ''read_symlink'')),
     fo_last_write_time = (\<lambda>p w. Ok 0), fo_iso_time = (\<lambda>t. ''1970''), fo_lstat = (\<lambda>p w. Some (0, 0, 0)),
     fo_lchown = (\<lambda>p u g w. (None, w)),
     fo_permissions = (\<lambda>p m w. (None, w(p := map_option (node_chmod m) (w p)))),
     fo_read_file = (\<lambda>p w. case w p of Some (File_node m c) \<Rightarrow> Some c | _ \<Rightarrow> None),
     fo_write_file = (\<lambda>p c w. case w p of
         None \<Rightarrow> (True, w(p \<mapsto> File_node 420 c))
       | Some (File_node m _) \<Rightarrow> (True, w(p \<mapsto> File_node m c))
       | Some _ \<Rightarrow> (False, w)),
     fo_create_symlink = (\<lambda>t p w. if w p = None then (None, w(p \<mapsto> Link_node t)) else (Some ''File exists'', w)),
     fo_create_directory = (\<lambda>p w. if w p = None then (None, w(p \<mapsto> Dir_node 493)) else (Some ''File exists'', w)),
     fo_remove_all = (\<lambda>p w. (None, w(p := None)))\<rparr>"

lemma demo_fs_simps [simp]:
  "fo_symlink_status demo_fs p w = map_option node_type (w p)"
  "fo_read_file demo_fs p w = (case w p of Some (File_node m c) \<Rightarrow> Some c | _ \<Rightarrow> None)"
  "fo_read_symlink demo_fs p w = (case w p of Some (Link_node t) \<Rightarrow> Ok t | _ \<Rightarrow> Exn (Logic_error ''read_symlink''))"
  "fo_last_write_time demo_fs p w = Ok 0" "fo_iso_time demo_fs tm = ''1970''" "fo_lstat demo_fs p w = Some (0, 0, 0)"
  "fo_lchown demo_fs p i g w = (None, w)"
  "fo_permissions demo_fs p m w = (None, w(p := map_option (node_chmod m) (w p)))"
  "fo_write_file demo_fs p c w = (case w p of
         None \<Rightarrow> (True, w(p \<mapsto> File_node 420 c))
       | Some (File_node m _) \<Rightarrow> (True, w(p \<mapsto> File_node m c))
       | Some _ \<Rightarrow> (False, w))"
  "fo_create_symlink demo_fs t p w = (if w p = None then (None, w(p \<mapsto> Link_node t)) else (Some ''File exists'', w))"
  "fo_create_directory demo_fs p w = (if w p = None then (None, w(p \<mapsto> Dir_node 493)) else (Some ''File exists'', w))"
  "fo_remove_all demo_fs p w = (None, w(p := None))"
  "fo_absolute demo_fs p w = (if starts_with p ''/'' then p else ''/'' @ p)"
  by (simp_all add: demo_fs_def)

lemma demo_fs_laws: "fs_laws demo_fs"
proof -
  have chmod: "fst (node_type (node_chmod m n)) = fst (node_type n)" for m n by (cases n) auto
  show ?thesis
    unfolding fs_laws_def
    by (auto simp: fs_type_def same_file_def chmod split: option.splits node.splits if_splits)
qed


definition demo_file_update :: update where
  "demo_file_update = \<lparr>upd_is = put_attr ''ensure'' (VStr ''link'') (new_resource ''/f''),
     upd_should = put_attr ''content'' (VStr ''hi'') (put_attr ''ensure'' (VStr ''file'') (new_resource ''/f''))\<rparr>"

lemma demo_file_values:
  "upd_name demo_file_update = ''/f''" "file_state demo_file_update = ''link''" "file_ensure demo_file_update = ''file''"
  "\<not> file_force demo_file_update" "lookup_ptr as_string (upd_should demo_file_update) ''content'' = Some ''hi''"
  "val_at (upd_should demo_file_update) ''content'' = VStr ''hi''"
  "\<not> differs demo_file_update ''owner''" "\<not> differs demo_file_update ''group''" "\<not> differs demo_file_update ''mode''"
  by (simp_all add: demo_file_update_def upd_name_def file_state_def file_ensure_def file_force_def Let_def
      lookup_val val_at_put lookup_ptr_string differs_def)

text \<open>Metadata that does not differ from the current state is not touched.\<close>

lemma update_metadata_quiet:
  assumes "\<not> differs u ''owner''" and "\<not> differs u ''group''" and "\<not> differs u ''mode''"
    and "ch_attr ` set (changes_of (p_ctx s) (upd_name u)) \<inter> {''owner'', ''group'', ''mode''} = {}"
  shows "update_metadata fo u s = (Ok (), s\<lparr>p_ctx := set_changes (upd_name u) (changes_of (p_ctx s) (upd_name u))
    (changes_for (upd_name u) (p_ctx s))\<rparr>)"
  using assms by (auto simp: update_metadata_def changes_add_upd_eq Let_def changes_exists_iff ret_def disjoint_iff image_iff bnd_def)

lemmas file_run_simps =
  file_set_one_def file_realize_def file_remove_def create_file_def create_directory_def update_content_def
  record_changes_def Let_def bnd_def fs_call_def ret_def fail_def modify_def changes_of_set changes_add_def


subsection \<open>Directories and force\<close>

text \<open>Without \<open>force\<close> a directory is never turned into anything else: the update is refused before
  anything is touched. The attribute \<open>force\<close> is declared boolean, and reading any text for a
  boolean attribute gives a boolean, while \<open>set\<close> looks for the string \<open>true\<close>; so no value of
  \<open>force\<close> that was read through the provider's own specification is ever honoured.\<close>

theorem file_force_never_honoured:
  assumes "as_data_type a = Boolean_type" and "spec_read_string a txt = Ok v"
    and "val_at (upd_should u) ''force'' = v \<or> val_at (upd_should u) ''force'' = VNone"
    and "file_state u = ''directory''" and "file_ensure u \<noteq> ''directory''"
  shows "file_set_one fo u s =
    (Err (''Cannot change file '' @ quoted (upd_name u) @ '' from directory to '' @ file_ensure u), s)"
proof -
  have "\<exists>b. v = VBool b"
    using assms(1,2) by (auto simp: spec_read_string_def obind_Ok_iff read_boolean_type_def Let_def split: if_splits)
  then have "\<not> file_force u" using assms(3) by (auto simp: file_force_def lookup_val)
  with assms(4,5) show ?thesis by (auto simp: file_set_one_def fail_def)
qed

definition demo_dir_update :: "value_base \<Rightarrow> string \<Rightarrow> update" where
  "demo_dir_update force ens = \<lparr>upd_is = put_attr ''ensure'' (VStr ''directory'') (new_resource ''/d''),
     upd_should = put_attr ''target'' (VStr ''/g'') (put_attr ''force'' force
       (put_attr ''ensure'' (VStr ens) (new_resource ''/d'')))\<rparr>"

lemma demo_dir_values [simp]:
  "upd_name (demo_dir_update f e) = ''/d''" "file_state (demo_dir_update f e) = ''directory''"
  "val_at (upd_should (demo_dir_update f e)) ''force'' = f"
  "val_at (upd_is (demo_dir_update f e)) ''ensure'' = VStr ''directory''"
  "e \<noteq> ''present'' \<Longrightarrow> file_ensure (demo_dir_update f e) = e"
  by (simp_all add: demo_dir_update_def upd_name_def file_state_def file_ensure_def Let_def lookup_val val_at_put)

theorem file_force_never_honoured_witness:
  "\<exists>m. file_set_one demo_fs (demo_dir_update (VBool True) ''absent'') \<lparr>p_ctx = new_context ''q'', p_world = [''/d'' \<mapsto> Dir_node 493]\<rparr> =
     (Err m, \<lparr>p_ctx = new_context ''q'', p_world = [''/d'' \<mapsto> Dir_node 493]\<rparr>)"
proof -
  have "spec_read_string \<lparr>as_name = ''force'', as_desc = [], as_data_type = Boolean_type, as_kind = Kind_w\<rparr> ''true'' = Ok (VBool True)"
    by (simp add: spec_read_string_def read_boolean_type_def iequals_def)
  from file_force_never_honoured [OF _ this, of "demo_dir_update (VBool True) ''absent''" demo_fs] show ?thesis by simp
qed

text \<open>Replacing a directory by a link fails even when \<open>force\<close> is the string \<open>true\<close>: the directory
  is removed first, and then \<open>update_target\<close> looks at the state from before and refuses to
  remove a directory without force. The system is left with the directory gone and no link.\<close>

theorem file_directory_to_link_fails:
  assumes "file_state u = ''directory''" and "val_at (upd_is u) ''ensure'' = VStr ''directory''"
    and "file_ensure u = ''link''" and "file_force u" and "fo_remove_all fo (upd_name u) (p_world s) = (None, w)"
    and "val_at (upd_should u) ''target'' = VStr t"
  shows "\<exists>m s'. file_set_one fo u s = (Err m, s') \<and> p_world s' = w \<and>
    changes_of (p_ctx s') (upd_name u) = changes_of (p_ctx s) (upd_name u) @ [mk_change ''ensure'' (VStr ''link'') (VStr ''absent'')]"
  using assms lookup_ptr_string [of "upd_should u" "''target''" t]
  by (simp add: file_run_simps update_target_def lookup_val)

theorem file_directory_to_link_fails_witness:
  "\<exists>m s'. file_set_one demo_fs (demo_dir_update (VStr ''true'') ''link'') \<lparr>p_ctx = new_context ''q'', p_world = [''/d'' \<mapsto> Dir_node 493]\<rparr> = (Err m, s') \<and>
     p_world s' ''/d'' = None"
proof -
  have "file_force (demo_dir_update (VStr ''true'') ''link'')" by (simp add: file_force_def lookup_val)
  moreover have "val_at (upd_should (demo_dir_update (VStr ''true'') ''link'')) ''target'' = VStr ''/g''"
    by (simp add: demo_dir_update_def val_at_put)
  ultimately show ?thesis
    using file_directory_to_link_fails [of "demo_dir_update (VStr ''true'') ''link''" demo_fs
        "\<lparr>p_ctx = new_context ''q'', p_world = [''/d'' \<mapsto> Dir_node 493]\<rparr>" "Map.empty" "''/g''"]
    by (auto simp: fun_eq_iff)
qed

text \<open>When a link or directory is replaced by a file, owner, group and mode are compared with
  those of the old object: if they were as desired there, they are not applied to the new file, which
  keeps what the system gave it. All that happens is removal, creation and the
  content; and the change of \<open>ensure\<close> is recorded with \<open>absent\<close> as its old value.\<close>

theorem file_replacement_skips_metadata:
  assumes "file_state u = ''link''" and "file_ensure u = ''file''" and "changes_of (p_ctx s) (upd_name u) = []"
    and "\<not> differs u ''owner''" and "\<not> differs u ''group''" and "\<not> differs u ''mode''"
    and "val_at (upd_should u) ''content'' = VNone"
    and "fo_remove_all fo (upd_name u) (p_world s) = (None, w1)" and "fo_write_file fo (upd_name u) [] w1 = (True, w2)"
  shows "\<exists>s'. file_set_one fo u s = (Ok (), s') \<and> p_world s' = w2 \<and>
    changes_of (p_ctx s') (upd_name u) = [mk_change ''ensure'' (VStr ''file'') (VStr ''absent'')]"
proof -
  have "lookup_ptr as_string (upd_should u) ''content'' = None"
    using assms(7) lookup_ptr_string [of "upd_should u" "''content''"] by (cases "lookup_ptr as_string (upd_should u) ''content''") auto
  with assms show ?thesis
    by (simp add: file_run_simps update_metadata_quiet mk_change_def)
qed

theorem file_replacement_skips_metadata_witness:
  "\<exists>s'. file_set_one demo_fs
     \<lparr>upd_is = put_attr ''mode'' (VStr ''0777'') (put_attr ''ensure'' (VStr ''link'') (new_resource ''/f'')),
      upd_should = put_attr ''mode'' (VStr ''0777'') (put_attr ''ensure'' (VStr ''file'') (new_resource ''/f''))\<rparr>
     \<lparr>p_ctx = new_context ''q'', p_world = [''/f'' \<mapsto> Link_node ''/g'']\<rparr> = (Ok (), s') \<and>
     p_world s' ''/f'' = Some (File_node 420 [])"
  using file_replacement_skips_metadata [of "\<lparr>upd_is = put_attr ''mode'' (VStr ''0777'') (put_attr ''ensure'' (VStr ''link'') (new_resource ''/f'')),
      upd_should = put_attr ''mode'' (VStr ''0777'') (put_attr ''ensure'' (VStr ''file'') (new_resource ''/f''))\<rparr>"
      "\<lparr>p_ctx = new_context ''q'', p_world = [''/f'' \<mapsto> Link_node ''/g'']\<rparr>" demo_fs Map.empty "[''/f'' \<mapsto> File_node 420 []]"]
  by (auto simp: file_state_def file_ensure_def Let_def lookup_val val_at_put upd_name_def differs_def fun_eq_iff)

text \<open>\<open>get\<close> reports files under their absolute names, and \<open>set\<close> pairs states by name, so a file
  given by a relative name is taken for absent: asking that it exist as a file empties it and
  reports it as newly created, whatever it holds.\<close>

theorem file_relative_name_truncates:
  assumes "fo_absolute fo n w \<noteq> n" and "file_load fo w (new_resource (fo_absolute fo n w)) = Ok r"
    and "fo_write_file fo n [] w = (True, w')"
  shows "provider_set (file_provider fo sp) [put_attr ''ensure'' (VStr ''file'') (new_resource n)] w =
    (Ok [(\<lparr>upd_is = new_resource n, upd_should = put_attr ''ensure'' (VStr ''file'') (new_resource n)\<rparr>,
          [mk_change ''ensure'' (VStr ''file'') (VStr ''absent'')])], w')"
proof -
  let ?sh = "put_attr ''ensure'' (VStr ''file'') (new_resource n)"
  let ?u = "\<lparr>upd_is = new_resource n, upd_should = ?sh\<rparr>"
  let ?s = "start (file_provider fo sp) w"
  have get: "pv_get (file_provider fo sp) (map res_name [?sh]) ?s = (Ok [r], ?s)"
    using assms(2) by (simp add: file_provider_def file_get_def start_def)
  have upds: "build_updates [?sh] [r] = [?u]"
    using res_name_load [OF assms(2)] assms(1) by simp
  have vals: "upd_name ?u = n" "file_state ?u = ''absent''" "file_ensure ?u = ''file''"
      "\<not> differs ?u ''owner''" "\<not> differs ?u ''group''" "\<not> differs ?u ''mode''"
      "val_at ?sh ''content'' = VNone"
    by (simp_all add: upd_name_def file_state_def file_ensure_def Let_def lookup_val val_at_put differs_def)
  moreover have "lookup_ptr as_string ?sh ''content'' = None" by (simp add: lookup_ptr_def)
  ultimately have "\<exists>s'. file_set_one fo ?u ?s = (Ok (), s') \<and> p_world s' = w' \<and>
      changes_of (p_ctx s') n = [mk_change ''ensure'' (VStr ''file'') (VStr ''absent'')]"
    using assms(3) by (simp add: file_run_simps update_metadata_quiet mk_change_def start_def)
  then show ?thesis
    using get upds vals(1) by (auto simp: provider_set_def file_provider_def file_set_def bnd_def ret_def)
qed

theorem file_relative_name_truncates_witness:
  "\<exists>us. provider_set (file_provider demo_fs None) [put_attr ''ensure'' (VStr ''file'') (new_resource ''f'')]
     [''f'' \<mapsto> File_node 420 ''data'', ''/f'' \<mapsto> File_node 420 ''data''] =
   (Ok us, [''f'' \<mapsto> File_node 420 [], ''/f'' \<mapsto> File_node 420 ''data''])"
proof -
  let ?w = "[''f'' \<mapsto> File_node 420 ''data'', ''/f'' \<mapsto> File_node 420 ''data'']"
  obtain r where "file_load demo_fs ?w (new_resource (fo_absolute demo_fs ''f'' ?w)) = Ok r"
    by (simp add: file_load_def fdesc_from_ftype_def ftype_ensure_def Let_def)
  with file_relative_name_truncates [of demo_fs "''f''" ?w r "?w(''f'' \<mapsto> File_node 420 [])" None]
  show ?thesis by (auto simp: fun_upd_twist)
qed

subsection \<open>The contracts\<close>

lemma keeps_fs_call [keeps_intros]: "keeps_changes n (fs_call f msg)"
  by (auto simp: keeps_changes_def fs_call_def split: prod.split option.split)

lemma keeps_record [keeps_intros]: "n \<noteq> m \<Longrightarrow> keeps_changes n (record_changes m g)"
  by (simp add: keeps_changes_def record_changes_def modify_def changes_of_set)

lemma keeps_remove [keeps_intros]: "keeps_changes n (file_remove fo p state force)"
  unfolding file_remove_def by (intro keeps_intros)

lemma keeps_create_file [keeps_intros]: "keeps_changes n (create_file fo p)"
  by (simp add: keeps_changes_def create_file_def split: prod.split)

lemma keeps_create_directory [keeps_intros]: "keeps_changes n (create_directory fo p)"
  unfolding create_directory_def by (intro keeps_intros)

lemma keeps_update_owner [keeps_intros]: "keeps_changes n (update_owner fo u)"
  unfolding update_owner_def by (intro keeps_intros)

lemma keeps_update_mode [keeps_intros]: "keeps_changes n (update_mode fo u)"
  unfolding update_mode_def by (intro keeps_intros)

lemma keeps_update_metadata [keeps_intros]:
  fixes fo :: "'a fs_ops"
  assumes "n \<noteq> upd_name u"
  shows "keeps_changes n (update_metadata fo u)"
  unfolding keeps_changes_def
proof
  fix s :: "'a pst"
  let ?cx = "changes_for (upd_name u) (p_ctx s)"
  obtain b chgs where add: "changes_add_attrs [''owner'', ''group'', ''mode''] u (changes_of ?cx (upd_name u)) = Ok (b, chgs)"
    using changes_add_attrs_eq [of "[''owner'', ''group'', ''mode'']"] by simp
  let ?m = "bnd (if changes_exists ''owner'' chgs \<or> changes_exists ''group'' chgs then update_owner fo u else ret ())
            (\<lambda>_. if changes_exists ''mode'' chgs then update_mode fo u else ret ())"
  have "keeps_changes n ?m" by (intro keeps_intros)
  then show "changes_of (p_ctx (snd (update_metadata fo u s))) n = changes_of (p_ctx s) n"
    unfolding update_metadata_def Let_def add keeps_changes_def using assms by (simp add: changes_of_set)
qed

lemma keeps_update_content [keeps_intros]: "n \<noteq> upd_name u \<Longrightarrow> keeps_changes n (update_content fo u)"
  by (auto simp: keeps_changes_def update_content_def record_changes_def modify_def changes_of_set split: option.split prod.split)

lemma keeps_update_target [keeps_intros]: "n \<noteq> upd_name u \<Longrightarrow> keeps_changes n (update_target fo u)"
  unfolding update_target_def Let_def
  by (intro keeps_intros) (simp add: keeps_changes_def changes_add_upd_eq changes_of_set)

lemma keeps_file_realize [keeps_intros]: "n \<noteq> upd_name u \<Longrightarrow> keeps_changes n (file_realize fo u state)"
  unfolding file_realize_def Let_def by (intro keeps_intros)

lemma file_set_one_keeps: "n \<noteq> upd_name u \<Longrightarrow> keeps_changes n (file_set_one fo u)"
  unfolding file_set_one_def Let_def by (intro keeps_intros) auto

text \<open>An existing file or directory with nothing to change, and no contents given.\<close>

definition file_settled :: "update \<Rightarrow> bool" where
  "file_settled u \<longleftrightarrow> file_ensure u = file_state u \<and> file_state u \<in> {''file'', ''directory''} \<and>
     \<not> differs u ''owner'' \<and> \<not> differs u ''group'' \<and> \<not> differs u ''mode'' \<and>
     val_at (upd_should u) ''content'' = VNone"

lemma file_settled_set_one:
  assumes "file_settled u" and "changes_of (p_ctx s) (upd_name u) = []"
  shows "\<exists>s'. file_set_one fo u s = (Ok (), s') \<and> p_world s' = p_world s \<and>
    changes_of (p_ctx s') = changes_of (p_ctx s)"
proof -
  have "lookup_ptr as_string (upd_should u) ''content'' = None"
    using assms(1) lookup_ptr_string [of "upd_should u" "''content''"]
    by (cases "lookup_ptr as_string (upd_should u) ''content''") (auto simp: file_settled_def)
  with assms show ?thesis
    by (auto simp: file_settled_def file_run_simps update_metadata_quiet fun_upd_idem)
qed

interpretation file_update: settled_provider "file_set_one fo" file_settled for fo
  by unfold_locales (auto intro: keeps_changesD [OF file_set_one_keeps] file_settled_set_one)

text \<open>Applying file updates that are all settled (same type, owner, group and mode, no contents
  given) leaves the file system as it is and records no change.\<close>

theorem file_set_idempotent:
  assumes "\<forall>u \<in> set us. file_settled u" and "\<forall>u \<in> set us. changes_of (p_ctx s) (upd_name u) = []"
  shows "\<exists>s'. file_set fo us s = (Ok (), s') \<and> p_world s' = p_world s \<and> changes_of (p_ctx s') = changes_of (p_ctx s)"
  using file_update.set_all_settled [of us s fo] assms by (simp add: file_set_def)

theorem file_set_idempotent_witness:
  "\<exists>s'. file_set demo_fs [\<lparr>upd_is = put_attr ''ensure'' (VStr ''directory'') (new_resource ''/d''), upd_should = new_resource ''/d''\<rparr>]
     \<lparr>p_ctx = new_context ''q'', p_world = [''/d'' \<mapsto> Dir_node 493]\<rparr> = (Ok (), s') \<and> p_world s' = [''/d'' \<mapsto> Dir_node 493]"
proof -
  have "file_settled \<lparr>upd_is = put_attr ''ensure'' (VStr ''directory'') (new_resource ''/d''), upd_should = new_resource ''/d''\<rparr>"
    by (simp add: file_settled_def file_state_def file_ensure_def Let_def lookup_val val_at_put differs_def)
  then show ?thesis
    using file_set_idempotent [of "[\<lparr>upd_is = put_attr ''ensure'' (VStr ''directory'') (new_resource ''/d''), upd_should = new_resource ''/d''\<rparr>]"
        "\<lparr>p_ctx = new_context ''q'', p_world = [''/d'' \<mapsto> Dir_node 493]\<rparr>" demo_fs] by auto
qed

end
