(* ===== verification/FileRuns.thy ===== *)
theory FileRuns
  imports File
begin

section \<open>Setting a file twice\<close>

text \<open>
  What \<open>provider::set\<close> does with one file, from \<open>get\<close> to the recorded changes, when it is done again right after: the
  state that the second \<open>get\<close> reads is the one the first run reached, and there is nothing left to do. This puts
  together reading (\<open>file_load\<close>), pairing (\<open>build_updates\<close>) and changing (\<open>file_set_one\<close>).
\<close>

subsection \<open>One file through the base class\<close>

definition one_update :: "resource \<Rightarrow> resource \<Rightarrow> update" where
  "one_update is should = \<lparr>upd_is = is, upd_should = should\<rparr>"

lemma one_update_sel [simp]: "upd_is (one_update r sh) = r" "upd_should (one_update r sh) = sh" "upd_name (one_update r sh) = res_name r"
  by (simp_all add: one_update_def upd_name_def)

lemma set_one_file:
  assumes "fo_absolute fo n w = n" and "res_name sh = n"
  shows "provider_set (file_provider fo sp) [sh] w = (case file_load fo w (new_resource n) of
      Ok r \<Rightarrow> (case file_set_one fo (one_update r sh) (start (file_provider fo sp) w) of
          (Ok _, s) \<Rightarrow> (Ok [(one_update r sh, changes_of (p_ctx s) n)], p_world s)
        | (Err e, s) \<Rightarrow> (Err e, p_world s)
        | (Exn x, s) \<Rightarrow> (Exn x, p_world s))
    | Err e \<Rightarrow> (Err e, w)
    | Exn x \<Rightarrow> (Exn x, w))"
proof (cases "file_load fo w (new_resource n)")
  case (Ok r)
  have name: "res_name r = n" using res_name_load [OF Ok] by simp
  with Ok assms show ?thesis
    by (simp add: provider_set_def file_provider_def file_get_def file_set_def start_def Let_def bnd_def ret_def one_update_def upd_name_def
        split: prod.split outcome.split)
qed (use assms in \<open>simp_all add: provider_set_def file_provider_def file_get_def start_def\<close>)

subsection \<open>What get read is what set works on\<close>

lemma load_ensure:
  assumes "file_load fo w (new_resource n) = Ok r" and "fs_type fo n w \<in> managed_types"
  shows "val_at r ''ensure'' = VStr (case fs_type fo n w of
      Some Regular_file \<Rightarrow> ''file'' | Some Directory_file \<Rightarrow> ''directory'' | Some Symlink_file \<Rightarrow> ''link'' | _ \<Rightarrow> ''absent'')"
proof (cases "fs_type fo n w")
  case None
  then have "r = put_attr ''ensure'' (VStr ''absent'') (new_resource n)"
    using assms(1) by (simp add: fs_type_def file_load_def)
  with None show ?thesis by (simp add: val_at_put)
next
  case (Some t)
  then obtain perms where "fo_symlink_status fo n w = Some (t, perms)" by (auto simp: fs_type_def)
  from file_load_Some [OF assms(1) this] Some assms(2) show ?thesis
    by (auto simp: managed_types_def fdesc_from_ftype_def ftype_ensure_def)
qed

lemma load_state:
  assumes "file_load fo w (new_resource n) = Ok r" and "fs_type fo n w = ensure_type e"
    and "e \<in> {''absent'', ''file'', ''directory'', ''link''}"
  shows "file_state (one_update r sh) = e"
proof -
  have "fs_type fo n w \<in> managed_types" using assms(2,3) by (auto simp: managed_types_def ensure_type_def)
  from load_ensure [OF assms(1) this] have "val_at r ''ensure'' = VStr e"
    using assms(2,3) by (auto simp: ensure_type_def)
  with assms(3) show ?thesis by (auto simp: file_state_def lookup_val)
qed

lemma load_reflects:
  assumes "file_load fo w (new_resource n) = Ok r" and "fs_type fo n w \<in> managed_types"
  shows "reflects fo (one_update r sh) w"
proof -
  have "res_name r = n" using res_name_load [OF assms(1)] by simp
  moreover have "\<exists>e \<in> {''absent'', ''file'', ''directory'', ''link''}. fs_type fo n w = ensure_type e"
    using assms(2) by (auto simp: managed_types_def ensure_type_def)
  then obtain e where "fs_type fo n w = ensure_type e" "e \<in> {''absent'', ''file'', ''directory'', ''link''}" by blast
  moreover from load_state [OF assms(1) this] have "file_state (one_update r sh) = e" .
  ultimately show ?thesis by (auto simp: reflects_def ensure_type_def)
qed

subsection \<open>A state with nothing left to do\<close>

definition no_metadata :: "resource \<Rightarrow> bool" where
  "no_metadata sh \<longleftrightarrow> val_at sh ''owner'' = VNone \<and> val_at sh ''group'' = VNone \<and> val_at sh ''mode'' = VNone"

lemma no_metadata_quiet:
  "no_metadata sh \<Longrightarrow> changes_of (p_ctx s) (res_name r) = [] \<Longrightarrow>
    \<exists>s'. update_metadata fo (one_update r sh) s = (Ok (), s') \<and> p_world s' = p_world s \<and> changes_of (p_ctx s') (res_name r) = []"
  by (simp add: update_metadata_quiet differs_def no_metadata_def changes_of_set)

lemma content_quiet:
  assumes "val_at sh ''content'' = VNone \<or> (\<exists>c. val_at sh ''content'' = VStr c \<and> fo_read_file fo (res_name r) (p_world s) = Some c)"
  shows "update_content fo (one_update r sh) s = (Ok (), s)"
  using assms
proof
  assume none: "val_at sh ''content'' = VNone"
  then have "lookup_ptr as_string sh ''content'' = None"
    using lookup_ptr_string [of sh "''content''"] by (cases "lookup_ptr as_string sh ''content''") auto
  with none show ?thesis by (simp add: update_content_def)
next
  assume "\<exists>c. val_at sh ''content'' = VStr c \<and> fo_read_file fo (res_name r) (p_world s) = Some c"
  then obtain c where c: "val_at sh ''content'' = VStr c" "fo_read_file fo (res_name r) (p_world s) = Some c" by blast
  then have "lookup_ptr as_string sh ''content'' = Some c" by (simp add: lookup_ptr_string)
  with c show ?thesis by (simp add: update_content_def)
qed

lemma second_set_quiet:
  assumes state: "file_state (one_update r sh) = e" and ens: "file_ensure (one_update r sh) = e"
    and e: "e \<in> {''absent'', ''file'', ''directory''}" and "no_metadata sh" and "changes_of (p_ctx s) (res_name r) = []"
    and "e = ''file'' \<Longrightarrow> val_at sh ''content'' = VNone \<or>
      (\<exists>c. val_at sh ''content'' = VStr c \<and> fo_read_file fo (res_name r) (p_world s) = Some c)"
  shows "\<exists>s'. file_set_one fo (one_update r sh) s = (Ok (), s') \<and> p_world s' = p_world s \<and> changes_of (p_ctx s') (res_name r) = []"
proof -
  obtain s1 where quiet: "update_metadata fo (one_update r sh) s = (Ok (), s1)" "p_world s1 = p_world s"
      "changes_of (p_ctx s1) (res_name r) = []"
    using no_metadata_quiet [OF assms(4,5)] by blast
  have "e = ''file'' \<Longrightarrow> update_content fo (one_update r sh) s1 = (Ok (), s1)"
    using assms(6) quiet(2) by (intro content_quiet) simp
  with quiet e assms(5) show ?thesis
    by (auto simp: file_set_one_def file_realize_def file_remove_def Let_def state ens bnd_def ret_def)
qed

lemma ensure_from_should:
  "val_at sh ''ensure'' = VStr e \<Longrightarrow> e \<noteq> ''present'' \<Longrightarrow> file_ensure (one_update r sh) = e"
  by (simp add: file_ensure_def Let_def lookup_val)

lemma content_given:
  assumes "file_set_one fo u s = (Ok (), s')" and "file_ensure u = ''file''"
  shows "val_at (upd_should u) ''content'' = VNone \<or> (\<exists>c. val_at (upd_should u) ''content'' = VStr c)"
proof -
  obtain st t where "file_realize fo u st t = (Ok (), s')"
    using assms(1) by (auto simp: file_set_one_def Let_def bnd_Ok_iff fail_def split: if_splits)
  with assms(2) obtain t1 where "update_content fo u t1 = (Ok (), s')"
    by (auto simp: file_realize_def Let_def bnd_Ok_iff)
  then show ?thesis
    using lookup_ptr_string [of "upd_should u" "''content''"]
    by (cases "lookup_ptr as_string (upd_should u) ''content''") (auto simp: update_content_def split: if_splits)
qed


definition demo_wanted :: resource where
  "demo_wanted = put_attr ''content'' (VStr ''hi'') (put_attr ''ensure'' (VStr ''file'') (new_resource ''/f''))"

lemma demo_first_run:
  "case provider_set (file_provider demo_fs None) [demo_wanted] Map.empty of
     (Ok us, w') \<Rightarrow> (case file_load demo_fs w' (new_resource ''/f'') of Ok r \<Rightarrow> fo_read_file demo_fs ''/f'' w' \<noteq> None | _ \<Rightarrow> False)
   | _ \<Rightarrow> False"
  by code_simp


subsection \<open>What is done again every time\<close>

text \<open>A link that already has the desired target is removed and made again; when making it fails, it is gone.\<close>

lemma link_made_again:
  assumes "file_state u = ''link''" and "file_ensure u = ''link''" and "val_at (upd_is u) ''ensure'' = VStr ''link''"
    and "val_at (upd_should u) ''target'' = VStr t" and "fo_remove_all fo (upd_name u) (p_world s) = (None, w1)"
    and "fo_create_symlink fo t (upd_name u) w1 = (Some e, w2)"
  shows "\<exists>m s'. file_set_one fo u s = (Err m, s') \<and> p_world s' = w2"
  using assms lookup_ptr_string [of "upd_should u" "''target''" t]
  by (simp add: file_run_simps update_target_def lookup_val)

text \<open>Modes are compared as texts, but set as numbers: without the leading zero that \<open>get\<close> writes, the same mode is a
  change every time.\<close>

lemma mode_text_compared:
  "parse_mode ''644'' = parse_mode ''0644'' \<and>
    differs (one_update (put_attr ''mode'' (VStr ''0644'') r) (put_attr ''mode'' (VStr ''644'') sh)) ''mode''"
proof -
  have "parse_mode ''644'' = parse_mode ''0644''" by code_simp
  then show ?thesis by (simp add: differs_def val_at_put)
qed

end
