(* ===== verification/Host.thy ===== *)
theory Host
  imports Environment
begin

section \<open>The host provider\<close>

text \<open>
  \<open>lib/src/host.cc\<close>: entries of \<open>/etc/hosts\<close>, read and written through an augeas handle.
\<close>

type_synonym ('a, 'w) aug_prov = "('a, 'w) aug_world pst"

text \<open>Running a handle operation from a provider.\<close>

definition with_aug :: "('a, 'r) prog \<Rightarrow> (('a, 'w) aug_prov, 'r) prog" where
  "with_aug m = on_world (on_aug m)"

definition host_base :: "('a, 'w) aug_handle \<Rightarrow> update \<Rightarrow> (('a, 'w) aug_prov, string) prog" where
  "host_base h u =
     bnd (with_aug (handle_match h (''/files/etc/hosts/*[canonical = '' @ quoted (upd_name u) @ '']''))) (\<lambda>nodes.
       if length nodes = 1 then ret (nodes ! 0)
       else if length nodes = 0 then on_world (make_node_seq_next ''/files/etc/hosts'')
       else fail (''multiple entries with hostname '' @ quoted (upd_name u)))"

definition host_make :: "('a, 'w) aug_handle \<Rightarrow> string \<Rightarrow> string \<Rightarrow> string \<Rightarrow> ('a, resource) prog" where
  "host_make h name base ens =
     bnd (node_extract h base (new_resource name) ''ip'' ''ipaddr'' None) (\<lambda>r1.
     bnd (node_extract_array h base r1 ''host_aliases'' ''alias'') (\<lambda>r2.
     bnd (node_extract h base r2 ''comment'' ''#comment'' None) (\<lambda>r3.
       ret (put_attr ''target'' (VStr ''/etc/hosts'') (put_attr ''ensure'' (VStr ens) r3)))))"

fun host_entries :: "('a, 'w) aug_handle \<Rightarrow> string list \<Rightarrow> ('a, resource list) prog" where
  "host_entries h [] = ret []"
| "host_entries h (n # ns) = bnd (node_at h n ''canonical'') (\<lambda>name.
     case name of
       Some c \<Rightarrow> bnd (host_make h c n ''present'') (\<lambda>r. bnd (host_entries h ns) (\<lambda>rs. ret (r # rs)))
     | None \<Rightarrow> fail ''Missing canonical host name'')"

definition host_get :: "('a, 'w) aug_handle \<Rightarrow> string list \<Rightarrow> (('a, 'w) aug_prov, resource list) prog" where
  "host_get h names =
     bnd (with_aug (handle_match h (''/files/etc/hosts/*[label() != '' @ quoted ''#comment'' @ '']''))) (\<lambda>nodes.
     bnd (with_aug (host_entries h nodes)) (\<lambda>rs. ret (add_absent rs names)))"

fun host_aliases :: "('a, 'w) aug_handle \<Rightarrow> string \<Rightarrow> string list \<Rightarrow> ('a, unit) prog" where
  "host_aliases h bs [] = ret ()"
| "host_aliases h bs (x # xs) = bnd (node_set h bs ''alias[last()+1]'' (VStr x)) (\<lambda>_. host_aliases h bs xs)"

definition host_update_base :: "('a, 'w) aug_handle \<Rightarrow> update \<Rightarrow> (('a, 'w) aug_prov, unit) prog" where
  "host_update_base h u = bnd (host_base h u) (\<lambda>bs.
     bnd (with_aug (node_erase h bs)) (\<lambda>_.
     bnd (lift (upd_at u ''ip'')) (\<lambda>ip.
     bnd (with_aug (node_set h bs ''ipaddr'' ip)) (\<lambda>_.
     bnd (with_aug (node_set h bs ''canonical'' (VStr (upd_name u)))) (\<lambda>_.
     bnd (lift (upd_at u ''host_aliases'')) (\<lambda>al.
     bnd (with_aug (host_aliases h bs (case as_array al of Some xs \<Rightarrow> xs | None \<Rightarrow> []))) (\<lambda>_.
     bnd (lift (upd_at u ''comment'')) (\<lambda>cm.
       with_aug (node_set h bs ''#comment'' cm)))))))))"

text \<open>Recording changes through \<open>add\<close>.\<close>

definition add_changes :: "string list \<Rightarrow> update \<Rightarrow> ('w pst, unit) prog" where
  "add_changes as u s =
     (let n = upd_name u; cx = changes_for n (p_ctx s) in
      case changes_add_attrs as u (changes_of cx n) of
        Ok (_, chgs) \<Rightarrow> (Ok (), s\<lparr>p_ctx := set_changes n chgs cx\<rparr>)
      | Err e \<Rightarrow> (Err e, s\<lparr>p_ctx := cx\<rparr>)
      | Exn x \<Rightarrow> (Exn x, s\<lparr>p_ctx := cx\<rparr>))"

definition host_set_one :: "('a, 'w) aug_handle \<Rightarrow> update \<Rightarrow> (('a, 'w) aug_prov, unit) prog" where
  "host_set_one h u =
     (let state = lookup as_string (upd_is u) ''ensure'' ''absent'';
          ensure = lookup as_string (upd_should u) ''ensure'' state in
      bnd (add_changes [''ensure''] u) (\<lambda>_.
        if ensure = ''present''
        then bnd (add_changes [''ip'', ''host_aliases'', ''comment''] u) (\<lambda>_. host_update_base h u)
        else if ensure = ''absent''
        then bnd (attempt (host_base h u)) (\<lambda>r. bnd (lift (res_ok r)) (\<lambda>n. with_aug (node_rm h n)))
        else fail (''ensure has illegal value '' @ quoted ensure)))"

definition host_set :: "('a, 'w) aug_handle \<Rightarrow> update list \<Rightarrow> (('a, 'w) aug_prov, unit) prog" where
  "host_set h us = bnd (for_each (host_set_one h) us) (\<lambda>_. on_world (handle_save h))"

definition host_provider :: "('a, 'w) aug_handle \<Rightarrow> prov_spec option \<Rightarrow> ('a, 'w) aug_world provider" where
  "host_provider h sp = \<lparr>pv_spec = sp, pv_source = ''builtin'', pv_get = host_get h, pv_set = host_set h\<rparr>"

definition host_describe :: "('a, 'w) environment \<Rightarrow> string \<Rightarrow> (('a, 'w) aug_world, ('a, 'w) aug_world provider \<times> prov_spec) prog" where
  "host_describe env desc =
     bnd (env_augeas env [(''Hosts.lns'', ''/etc/hosts'')]) (\<lambda>h.
     bnd (on_sys (env_parse_spec env ''host'' desc True)) (\<lambda>sp. ret (host_provider h None, sp)))"

subsection \<open>Entries with the same name\<close>

lemma add_changes_run:
  "''name'' \<notin> set as \<Longrightarrow> add_changes as u s = (Ok (), s\<lparr>p_ctx := set_changes (upd_name u)
     (changes_of (p_ctx s) (upd_name u) @ map (diff_change u) (filter (differs u) as)) (changes_for (upd_name u) (p_ctx s))\<rparr>)"
  by (simp add: add_changes_def changes_add_attrs_eq Let_def)

lemma with_aug_world: "with_aug m s = (case m (aw_aug (p_world s)) of (r, a) \<Rightarrow> (r, s\<lparr>p_world := (p_world s)\<lparr>aw_aug := a\<rparr>\<rparr>))"
  by (simp add: with_aug_def on_world_def on_aug_def split: prod.split)

lemma with_aug_Ok: "with_aug m s = (Ok r, s') \<longleftrightarrow>
    (\<exists>a. m (aw_aug (p_world s)) = (Ok r, a) \<and> s' = s\<lparr>p_world := (p_world s)\<lparr>aw_aug := a\<rparr>\<rparr>)"
  by (auto simp: with_aug_world split: prod.splits)

definition host_query :: "string \<Rightarrow> string" where
  "host_query n = ''/files/etc/hosts/*[canonical = '' @ quoted n @ '']''"

lemma host_base_many:
  assumes "handle_match h (host_query (upd_name u)) (aw_aug (p_world s)) = (Ok nodes, a)" and "1 < length nodes"
  shows "host_base h u s = (Err (''multiple entries with hostname '' @ quoted (upd_name u)),
    s\<lparr>p_world := (p_world s)\<lparr>aw_aug := a\<rparr>\<rparr>)"
  using assms by (auto simp: host_base_def host_query_def bnd_def with_aug_world fail_def)

text \<open>When \<open>/etc/hosts\<close> has several entries for one name, setting that host does not modify any of
  them, but only the present case reports an error: removing such a host calls \<open>ok()\<close> on
  the error and leaves by a \<open>logic_error\<close>, so no result reaches the caller. (The comment in the
  code says that \<open>set\<close> is never called then; \<open>provider::set\<close> does call it.)\<close>

theorem host_duplicate_entries:
  assumes "\<And>a. handle_match h (host_query (upd_name u)) a = (Ok nodes, a)" and "1 < length nodes"
    and "lookup as_string (upd_should u) ''ensure'' (lookup as_string (upd_is u) ''ensure'' ''absent'') = ens"
  shows "(ens = ''present'' \<longrightarrow> fst (host_set_one h u s) = Err (''multiple entries with hostname '' @ quoted (upd_name u))) \<and>
    (ens = ''absent'' \<longrightarrow> (\<exists>m. fst (host_set_one h u s) = Exn (Logic_error m))) \<and>
    p_world (snd (host_set_one h u s)) = p_world s"
proof -
  have base: "host_base h u t = (Err (''multiple entries with hostname '' @ quoted (upd_name u)), t)" for t :: "('a, 'b) aug_prov"
    using host_base_many [of h u t nodes "aw_aug (p_world t)"] assms(1,2) by simp
  show ?thesis
    using assms(3)
    by (auto simp: host_set_one_def Let_def add_changes_run bnd_def attempt_def base host_update_base_def lift_def
        fail_def)
qed

text \<open>A tree that only answers queries: every pattern matches the given nodes, every node reads as its path.\<close>

definition fixed_aug :: "string list \<Rightarrow> unit aug_ops" where
  "fixed_aug ns = \<lparr>au_init = (\<lambda>r. ()), au_error = (\<lambda>a. None), au_match = (\<lambda>p a. (ns, a)), au_set = (\<lambda>p v a. a), au_rm = (\<lambda>p a. a),
     au_get = (\<lambda>p a. (Some p, a)), au_transform = (\<lambda>l f a. a), au_text_store = (\<lambda>l i f a. a),
     au_text_retrieve = (\<lambda>l i f out a. a), au_load = id, au_save = id\<rparr>"

lemma fixed_aug_match [simp]: "handle_match (default_handle (fixed_aug ns)) p a = (Ok ns, a)"
  by (simp add: handle_match_def default_handle_def fixed_aug_def check_error_def)

theorem host_duplicate_entries_witness:
  "\<exists>m. fst (host_set_one (default_handle (fixed_aug [''/files/etc/hosts/1'', ''/files/etc/hosts/2'']))
     \<lparr>upd_is = put_attr ''ensure'' (VStr ''present'') (new_resource ''web''),
      upd_should = put_attr ''ensure'' (VStr ''absent'') (new_resource ''web'')\<rparr>
     \<lparr>p_ctx = new_context ''host::aug'', p_world = \<lparr>aw_aug = (), aw_seq = 0, aw_sys = ()\<rparr>\<rparr>) = Exn (Logic_error m)"
  using host_duplicate_entries [of "default_handle (fixed_aug [''/files/etc/hosts/1'', ''/files/etc/hosts/2''])"
      "\<lparr>upd_is = put_attr ''ensure'' (VStr ''present'') (new_resource ''web''),
        upd_should = put_attr ''ensure'' (VStr ''absent'') (new_resource ''web'')\<rparr>"
      "[''/files/etc/hosts/1'', ''/files/etc/hosts/2'']" "''absent''"
      "\<lparr>p_ctx = new_context ''host::aug'', p_world = \<lparr>aw_aug = (), aw_seq = 0, aw_sys = ()\<rparr>\<rparr>"]
  by (simp add: lookup_val val_at_put)

subsection \<open>The contracts\<close>

lemma host_get_covers: "host_get h ns s = (Ok rs, s') \<Longrightarrow> set ns \<subseteq> res_name ` set rs"
  using add_absent_covers by (fastforce simp: host_get_def bnd_Ok_iff ret_def)

lemma keeps_with_aug [keeps_intros]: "keeps_changes n (with_aug m)"
  unfolding with_aug_def by (intro keeps_intros)

lemma keeps_add_changes [keeps_intros]: "n \<noteq> upd_name u \<Longrightarrow> keeps_changes n (add_changes as u)"
  by (auto simp: keeps_changes_def add_changes_def Let_def changes_of_set split: outcome.split prod.split)

lemma keeps_attempt [keeps_intros]: "keeps_changes n m \<Longrightarrow> keeps_changes n (attempt m)"
  by (auto simp: keeps_changes_def attempt_def split: prod.splits outcome.splits dest: spec) (metis snd_conv)+

lemma keeps_host_base [keeps_intros]: "keeps_changes n (host_base h u)"
  unfolding host_base_def by (intro keeps_intros)

lemma keeps_host_update_base [keeps_intros]: "keeps_changes n (host_update_base h u)"
  unfolding host_update_base_def by (intro keeps_intros)

lemma host_set_one_keeps: "n \<noteq> upd_name u \<Longrightarrow> keeps_changes n (host_set_one h u)"
  unfolding host_set_one_def Let_def by (intro keeps_intros)

lemma ctx_with_aug [simp]: "p_ctx (snd (with_aug m s)) = p_ctx s"
  by (simp add: with_aug_def)

lemma host_get_ctx: "host_get h ns s = (r, s') \<Longrightarrow> p_ctx s' = p_ctx s"
  by (auto simp: host_get_def bnd_def with_aug_def on_world_def ret_def split: prod.splits outcome.splits)

interpretation host_lookup: lookup_provider "host_get h" for h
  by unfold_locales (auto dest: host_get_covers host_get_ctx)

interpretation host_update: update_provider "host_set_one h" for h
  by unfold_locales (auto intro: keeps_changesD [OF host_set_one_keeps])

text \<open>Looking up a host never comes back empty-handed: when the lookup succeeds, there is a resource
  of that name, present or marked absent.\<close>

theorem host_find_found:
  assumes "provider_find (host_provider h sp) n w = (Ok res, w')"
  shows "\<exists>r. res = Some r \<and> res_name r = n"
  using host_lookup.find_found [of "host_provider h sp" h n w res w'] assms by (simp add: host_provider_def)

theorem host_find_found_witness:
  "\<exists>r w'. provider_find (host_provider (default_handle (fixed_aug [])) None) ''web'' \<lparr>aw_aug = (), aw_seq = 0, aw_sys = ()\<rparr> =
     (Ok (Some r), w') \<and> res_name r = ''web''"
proof -
  obtain res w' where f: "provider_find (host_provider (default_handle (fixed_aug [])) None) ''web''
      \<lparr>aw_aug = (), aw_seq = 0, aw_sys = ()\<rparr> = (Ok res, w')"
    by (simp add: provider_find_def provider_get_def host_provider_def host_get_def with_aug_world bnd_def start_def ret_def)
  from host_find_found [OF f] f show ?thesis by auto
qed

end
