(* ===== verification/AugTable.thy ===== *)
theory AugTable
  imports Host
begin

section \<open>Tables of entries in the augeas tree\<close>

text \<open>
  A file of entries in the tree, seen as a table from the paths of its entries to entries. The theory states
  what the augeas library documents for the calls by which the host and the mount providers read and edit such a
  file (\<open>edit_view\<close> and \<open>read_view\<close>), and lifts the operations on nodes to tables, once for all kinds of
  entries (the locale \<open>entry_kind\<close>).
\<close>

subsection \<open>Tables and their updates\<close>

type_synonym 'e table = "(string \<times> 'e) list"

text \<open>
  A kind of entries: the directory of the tree that holds them, the child that names an entry, the entry without
  children, the texts of the children with a label, setting a child, and the labels that are read and set.
\<close>

record 'e entry_desc =
  ed_dir :: string
  ed_field :: string
  ed_empty :: 'e
  ed_children :: "string \<Rightarrow> 'e \<Rightarrow> string list"
  ed_put :: "string \<Rightarrow> string \<Rightarrow> 'e \<Rightarrow> 'e"
  ed_reads :: "string list"
  ed_writes :: "string list"

definition entry_at :: "'e entry_desc \<Rightarrow> string \<Rightarrow> 'e table \<Rightarrow> 'e" where
  "entry_at d p t = (case map_of t p of None \<Rightarrow> ed_empty d | Some e \<Rightarrow> e)"

definition named :: "'e entry_desc \<Rightarrow> string \<Rightarrow> 'e \<Rightarrow> bool" where
  "named d n e \<longleftrightarrow> n \<in> set (ed_children d (ed_field d) e)"

definition entries_of :: "'e entry_desc \<Rightarrow> string \<Rightarrow> 'e table \<Rightarrow> string list" where
  "entries_of d n t = map fst (filter (\<lambda>(p, e). named d n e) t)"

text \<open>An entry is replaced where it stands; a new one comes last.\<close>

definition put_entry :: "string \<Rightarrow> 'e \<Rightarrow> 'e table \<Rightarrow> 'e table" where
  "put_entry p e t = (if p \<in> fst ` set t then map (\<lambda>(q, d). (q, if q = p then e else d)) t else t @ [(p, e)])"

definition drop_entry :: "string \<Rightarrow> 'e table \<Rightarrow> 'e table" where
  "drop_entry p t = filter (\<lambda>(q, d). q \<noteq> p) t"

text \<open>Emptying and removing all entries of a name.\<close>

definition clear_named :: "'e entry_desc \<Rightarrow> string \<Rightarrow> 'e table \<Rightarrow> 'e table" where
  "clear_named d n t = map (\<lambda>(p, e). (p, if named d n e then ed_empty d else e)) t"

definition drop_named :: "'e entry_desc \<Rightarrow> string \<Rightarrow> 'e table \<Rightarrow> 'e table" where
  "drop_named d n t = filter (\<lambda>(p, e). \<not> named d n e) t"

lemma put_put [simp]: "put_entry p e (put_entry p d t) = put_entry p e t"
proof (cases "p \<in> fst ` set t")
  case True
  then have "p \<in> fst ` set (map (\<lambda>(q, d'). (q, if q = p then d else d')) t)" by (force simp: image_iff)
  with True show ?thesis by (auto simp: put_entry_def)
next
  case False
  then have "map (\<lambda>(q, d'). (q, if q = p then e else d')) t = t" by (intro map_idI) force
  with False show ?thesis by (simp add: put_entry_def)
qed

lemma map_of_put [simp]: "map_of (put_entry p e t) = (map_of t)(p \<mapsto> e)"
proof (cases "p \<in> fst ` set t")
  case True
  have step: "map_of (map (\<lambda>(q, d). (q, if q = p then e else d)) xs) q = map_option (\<lambda>d. if q = p then e else d) (map_of xs q)" for xs q
    by (induction xs) auto
  from True obtain d where "map_of t p = Some d" by (metis map_of_eq_None_iff not_Some_eq)
  then show ?thesis using True by (auto simp: put_entry_def step fun_eq_iff option.map_ident)
next
  case False
  then have "map_of t p = None" by (simp add: map_of_eq_None_iff)
  with False show ?thesis by (simp add: put_entry_def fun_eq_iff map_add_def split: option.split)
qed

lemma entry_put [simp]: "entry_at d p (put_entry p e t) = e" "q \<noteq> p \<Longrightarrow> entry_at d q (put_entry p e t) = entry_at d q t"
  by (simp_all add: entry_at_def)

lemma paths_put: "map fst (put_entry p e t) = (if p \<in> fst ` set t then map fst t else map fst t @ [p])"
  by (simp add: put_entry_def comp_def split_def)

lemma put_fresh: "p \<notin> fst ` set t \<Longrightarrow> put_entry p e t = t @ [(p, e)]"
  by (simp add: put_entry_def)

lemma drop_fresh: "p \<notin> fst ` set t \<Longrightarrow> drop_entry p t = t"
  by (force simp: drop_entry_def filter_id_conv)

lemma entries_of_path: "entries_of d n t = p # ps \<Longrightarrow> p \<in> fst ` set t"
  by (auto simp: entries_of_def dest!: filter_eq_ConsD)

lemma entry_at_row: "distinct (map fst t) \<Longrightarrow> (p, e) \<in> set t \<Longrightarrow> entry_at d p t = e"
  by (simp add: entry_at_def)

lemma rows_by_path: "distinct (map fst t) \<Longrightarrow> map (\<lambda>p. entry_at d p t) (map fst t) = map snd t"
  by (auto simp: entry_at_row)

lemma no_entries: "entries_of d n t = [] \<longleftrightarrow> (\<forall>(p, e) \<in> set t. \<not> named d n e)"
  by (auto simp: entries_of_def filter_empty_conv)

text \<open>Rows with a name after an entry was replaced, added or removed.\<close>

lemma filter_snd: "filter Q (map snd t) = map snd (filter (\<lambda>(p, e). Q e) t)"
  by (simp add: filter_map comp_def split_def)

lemma only_entry:
  assumes "distinct (map fst t)" and "entries_of d n t = [p]" and row: "(q, f) \<in> set t"
  shows "named d n f \<longleftrightarrow> q = p"
proof -
  obtain x where x: "filter (\<lambda>(p, e). named d n e) t = [(p, x)]" using assms(2) by (auto simp: entries_of_def)
  then have in_t: "(p, x) \<in> set t" "named d n x" by (auto dest!: filter_eq_ConsD)
  show ?thesis
  proof
    assume "named d n f"
    with row have "(q, f) \<in> set (filter (\<lambda>(p, e). named d n e) t)" by simp
    then show "q = p" unfolding x by simp
  next
    assume "q = p"
    with in_t assms(1) row show "named d n f" by (metis eq_key_imp_eq_value)
  qed
qed

lemma drop_only: "distinct (map fst t) \<Longrightarrow> entries_of d n t = [p] \<Longrightarrow> drop_entry p t = drop_named d n t"
  using only_entry [of t d n p] by (auto simp: drop_entry_def drop_named_def intro!: filter_cong)

lemma named_after_put:
  assumes "distinct (map fst t)" and "entries_of d n t = [p]" and "named d n e"
  shows "filter (named d n) (map snd (put_entry p e t)) = [e]"
proof -
  obtain x where x: "filter (\<lambda>(p, e). named d n e) t = [(p, x)]" using assms(2) by (auto simp: entries_of_def)
  have p: "p \<in> fst ` set t" by (rule entries_of_path [OF assms(2)])
  have "filter (\<lambda>(p, e). named d n e) (map (\<lambda>(q, f). (q, if q = p then e else f)) t) =
      map (\<lambda>(q, f). (q, if q = p then e else f)) (filter (\<lambda>(q, f). named d n (if q = p then e else f)) t)"
    by (simp add: filter_map comp_def split_def)
  also have "filter (\<lambda>(q, f). named d n (if q = p then e else f)) t = filter (\<lambda>(q, f). named d n f) t"
    using only_entry [OF assms(1,2)] assms(3) by (intro filter_cong) (auto split: if_splits)
  finally show ?thesis using p unfolding filter_snd by (simp add: put_entry_def x)
qed

lemma named_none: "entries_of d n t = [] \<Longrightarrow> filter (named d n) (map snd t) = []"
  by (auto simp: no_entries filter_empty_conv)

lemma named_after_add: "entries_of d n t = [] \<Longrightarrow> named d n e \<Longrightarrow> filter (named d n) (map snd (t @ [(p, e)])) = [e]"
  by (simp add: named_none del: filter_map)

lemma named_after_drop:
  assumes "entries_of d n t = [p]"
  shows "filter (named d n) (map snd (drop_entry p t)) = []"
proof -
  have "q = p" if "(q, e) \<in> set t" "named d n e" for q e
  proof -
    from that have "q \<in> set (entries_of d n t)" by (force simp: entries_of_def)
    with assms show ?thesis by simp
  qed
  then show ?thesis by (auto simp: drop_entry_def filter_empty_conv)
qed

subsection \<open>What an update asks for\<close>

text \<open>Attributes that are not given keep their current values.\<close>

definition wanted_value :: "update \<Rightarrow> string \<Rightarrow> value_base" where
  "wanted_value u k = (if val_at (upd_should u) k \<noteq> VNone then val_at (upd_should u) k else val_at (upd_is u) k)"

definition text_of :: "value_base \<Rightarrow> string option" where
  "text_of v = (if v = VNone then None else Some (to_string v))"

definition wanted_ensure :: "update \<Rightarrow> string" where
  "wanted_ensure u = lookup as_string (upd_should u) ''ensure'' (lookup as_string (upd_is u) ''ensure'' ''absent'')"

abbreviation tree :: "('a, 'w) aug_prov \<Rightarrow> 'a" where
  "tree s \<equiv> aw_aug (p_world s)"

definition opt_list :: "'x option \<Rightarrow> 'x list" where
  "opt_list v = (case v of None \<Rightarrow> [] | Some x \<Rightarrow> [x])"

definition opt_attr :: "string \<Rightarrow> string option \<Rightarrow> resource \<Rightarrow> resource" where
  "opt_attr k v r = (case v of None \<Rightarrow> r | Some t \<Rightarrow> put_attr k (VStr t) r)"

lemma opt_list_simps [simp]:
  "length (opt_list v) \<le> Suc 0" "(case opt_list v of [] \<Rightarrow> a | x # xs \<Rightarrow> f x xs) = (case v of None \<Rightarrow> a | Some x \<Rightarrow> f x [])"
  by (simp_all add: opt_list_def split: option.split)

subsection \<open>Paths\<close>

definition after_prefix :: "string \<Rightarrow> string \<Rightarrow> string option" where
  "after_prefix pre t = (if take (length pre) t = pre then Some (drop (length pre) t) else None)"

lemma after_prefix_iff: "after_prefix pre t = Some r \<longleftrightarrow> t = pre @ r"
  by (auto simp: after_prefix_def) (metis append_take_drop_id)

definition label_char :: "char \<Rightarrow> bool" where
  "label_char c \<longleftrightarrow> is_digit c \<or> c = CHR ''-''"

definition entry_path :: "'e entry_desc \<Rightarrow> string \<Rightarrow> bool" where
  "entry_path d p \<longleftrightarrow> (case after_prefix (ed_dir d) p of Some l \<Rightarrow> l \<noteq> [] \<and> list_all label_char l | None \<Rightarrow> False)"

lemma entry_path_iff: "entry_path d p \<longleftrightarrow> (\<exists>l. p = ed_dir d @ l \<and> l \<noteq> [] \<and> list_all label_char l)"
proof (cases "after_prefix (ed_dir d) p")
  case None
  then have "p \<noteq> ed_dir d @ l" for l using after_prefix_iff [of "ed_dir d" p l] by simp
  with None show ?thesis by (simp add: entry_path_def)
next
  case (Some m)
  then have "p = ed_dir d @ m" by (simp only: after_prefix_iff)
  with Some show ?thesis by (simp add: entry_path_def)
qed

lemma label_char_plain: "label_char c \<Longrightarrow> c \<noteq> CHR ''/'' \<and> c \<noteq> CHR ''*''"
  by (cases "c = CHR ''/''"; cases "c = CHR ''*''") (simp_all add: label_char_def is_digit_def less_eq_char_def)

definition query :: "'e entry_desc \<Rightarrow> string \<Rightarrow> string" where
  "query d n = ed_dir d @ ''*['' @ ed_field d @ '' = '' @ quoted n @ '']''"

definition listing :: "'e entry_desc \<Rightarrow> string" where
  "listing d = ed_dir d @ ''*[label() != '' @ quoted ''#comment'' @ '']''"

definition new_path :: "'e entry_desc \<Rightarrow> int \<Rightarrow> string" where
  "new_path d i = ed_dir d @ ''0'' @ show_int i"

definition plain_name :: "string \<Rightarrow> bool" where
  "plain_name n \<longleftrightarrow> CHR 0x27 \<notin> set n"

lemma digit_label: "k < 10 \<Longrightarrow> label_char (char_of (48 + k :: nat))"
  by (simp add: label_char_def is_digit_def less_eq_char_def)

lemma show_nat_label: "list_all label_char (show_nat n)"
proof (induction n rule: show_nat.induct)
  case (1 n)
  have "n mod 10 < 10" by simp
  with 1 digit_label [of n] digit_label [of "n mod 10"] show ?case
    by (subst show_nat.simps) auto
qed

lemma new_path: "entry_path d (new_path d i)"
proof -
  have "label_char (CHR ''0'')" "label_char (CHR ''-'')" by (simp_all add: label_char_def is_digit_def less_eq_char_def)
  then have "list_all label_char (''0'' @ show_int i)" by (simp add: show_int_def show_nat_label)
  then show ?thesis unfolding entry_path_iff new_path_def by (intro exI [of _ "''0'' @ show_int i"]) simp
qed

text \<open>Numerals determine their numbers, so the paths of new nodes differ.\<close>

definition digits_nat :: "string \<Rightarrow> nat" where
  "digits_nat ds = fold (\<lambda>c n. 10 * n + (of_char c - 48)) ds 0"

lemma digits_show: "digits_nat (show_nat n) = n"
proof (induction n rule: show_nat.induct)
  case (1 n)
  then show ?case by (subst show_nat.simps) (simp add: digits_nat_def)
qed

lemma show_nat_digits: "hd (show_nat n) \<noteq> CHR ''-''" "show_nat n \<noteq> []"
proof (induction n rule: show_nat.induct)
  case (1 n)
  have "char_of (48 + k) \<noteq> CHR ''-''" if "k < 10" for k :: nat
  proof
    assume "char_of (48 + k) = CHR ''-''"
    then have "of_char (char_of (48 + k) :: char) = (of_char (CHR ''-'') :: nat)" by simp
    with that show False by simp
  qed
  with 1 show "hd (show_nat n) \<noteq> CHR ''-''" "show_nat n \<noteq> []"
    by (auto simp: show_nat.simps [of n])
qed

lemma show_int_inj: "show_int i = show_int j \<Longrightarrow> i = j"
proof -
  assume eq: "show_int i = show_int j"
  have nat: "show_nat m = show_nat n \<Longrightarrow> m = n" for m n using digits_show by metis
  from eq show_nat_digits have "i < 0 \<longleftrightarrow> j < 0" by (auto simp: show_int_def split: if_splits) (metis list.sel(1))+
  with eq nat show ?thesis by (fastforce simp: show_int_def split: if_splits)
qed

lemma new_path_inj: "new_path d i = new_path d j \<Longrightarrow> i = j"
  by (auto simp: new_path_def intro: show_int_inj)

lemma entry_path_append: "entry_path d p \<Longrightarrow> l \<noteq> [] \<Longrightarrow> hd l \<noteq> CHR ''/'' \<Longrightarrow> node_append p l = p @ ''/'' @ l"
proof -
  assume "entry_path d p" and l: "l \<noteq> []" "hd l \<noteq> CHR ''/''"
  then obtain m where p: "p = ed_dir d @ m" "m \<noteq> []" "list_all label_char m" by (auto simp: entry_path_iff)
  then have "last p = last m" by (simp add: last_append)
  moreover have "last m \<noteq> CHR ''/''" using p(2,3) label_char_plain by (metis last_in_set list_all_iff)
  ultimately show ?thesis using l by (simp add: node_append_def)
qed

lemma query_append: "l \<noteq> [] \<Longrightarrow> hd l \<noteq> CHR ''/'' \<Longrightarrow> node_append (query d n) l = query d n @ ''/'' @ l"
  by (simp add: node_append_def query_def last_append)

subsection \<open>What the library documents\<close>

text \<open>
  Editing. The paths of the entries are children of the directory. A query by name finds the entries with that
  name (for names without quotes, which would end the name in the query); removing an entry's children empties it;
  setting a child makes the entry's node when it is not there; removing a path removes that entry. A path may be
  a query: then removing acts on every entry of the name, and setting a child makes no node when there is none.
  All this holds for calls after which the library reports no error.
\<close>

definition finds_entries :: "'a aug_ops \<Rightarrow> 'e entry_desc \<Rightarrow> ('a \<Rightarrow> 'e table) \<Rightarrow> bool" where
  "finds_entries au d tab \<longleftrightarrow>
     (\<forall>a. \<forall>p \<in> fst ` set (tab a). entry_path d p) \<and>
     (\<forall>n a ms a'. plain_name n \<longrightarrow> au_match au (query d n) a = (ms, a') \<longrightarrow> au_error au a' = None \<longrightarrow>
        ms = entries_of d n (tab a) \<and> tab a' = tab a)"

definition edits_entries :: "'a aug_ops \<Rightarrow> 'e entry_desc \<Rightarrow> ('a \<Rightarrow> 'e table) \<Rightarrow> bool" where
  "edits_entries au d tab \<longleftrightarrow>
     (\<forall>p a. entry_path d p \<longrightarrow> au_error au (au_rm au (p @ ''/*'') a) = None \<longrightarrow>
        tab (au_rm au (p @ ''/*'') a) = (if p \<in> fst ` set (tab a) then put_entry p (ed_empty d) (tab a) else tab a)) \<and>
     (\<forall>p a. entry_path d p \<longrightarrow> au_error au (au_rm au p a) = None \<longrightarrow> tab (au_rm au p a) = drop_entry p (tab a)) \<and>
     (\<forall>p l v a. entry_path d p \<longrightarrow> l \<in> set (ed_writes d) \<longrightarrow> au_error au (au_set au (p @ ''/'' @ l) (Some v) a) = None \<longrightarrow>
        tab (au_set au (p @ ''/'' @ l) (Some v) a) = put_entry p (ed_put d l v (entry_at d p (tab a))) (tab a))"

definition edits_by_query :: "'a aug_ops \<Rightarrow> 'e entry_desc \<Rightarrow> ('a \<Rightarrow> 'e table) \<Rightarrow> bool" where
  "edits_by_query au d tab \<longleftrightarrow>
     (\<forall>n a. plain_name n \<longrightarrow> au_error au (au_rm au (query d n @ ''/*'') a) = None \<longrightarrow>
        tab (au_rm au (query d n @ ''/*'') a) = clear_named d n (tab a)) \<and>
     (\<forall>n a. plain_name n \<longrightarrow> au_error au (au_rm au (query d n) a) = None \<longrightarrow> tab (au_rm au (query d n) a) = drop_named d n (tab a)) \<and>
     (\<forall>n l v a. plain_name n \<longrightarrow> l \<in> set (ed_writes d) \<longrightarrow> entries_of d n (tab a) = [] \<longrightarrow>
        au_error au (au_set au (query d n @ ''/'' @ l) (Some v) a) = None \<longrightarrow>
        tab (au_set au (query d n @ ''/'' @ l) (Some v) a) = tab a)"

text \<open>
  Reading. The listing finds the entries in order; reading a child gives its text if there is one, and the paths that
  a label matches below an entry read as the texts of the children with that label, in order. Reading
  does not change the table.
\<close>

definition reads_entries :: "'a aug_ops \<Rightarrow> 'e entry_desc \<Rightarrow> ('a \<Rightarrow> 'e table) \<Rightarrow> bool" where
  "reads_entries au d tab \<longleftrightarrow>
     (\<forall>a ms a'. au_match au (listing d) a = (ms, a') \<longrightarrow> au_error au a' = None \<longrightarrow> ms = map fst (tab a) \<and> tab a' = tab a) \<and>
     (\<forall>p l a v a'. entry_path d p \<longrightarrow> l \<in> set (ed_reads d) \<longrightarrow> au_get au (p @ ''/'' @ l) a = (v, a') \<longrightarrow> au_error au a' = None \<longrightarrow>
        length (ed_children d l (entry_at d p (tab a))) \<le> 1 \<longrightarrow>
        tab a' = tab a \<and> v = (case ed_children d l (entry_at d p (tab a)) of [] \<Rightarrow> None | x # _ \<Rightarrow> Some x)) \<and>
     (\<forall>p l a ms a'. entry_path d p \<longrightarrow> l \<in> set (ed_reads d) \<longrightarrow> au_match au (p @ ''/'' @ l) a = (ms, a') \<longrightarrow> au_error au a' = None \<longrightarrow>
        tab a' = tab a \<and> list_all2 (\<lambda>m x. \<forall>b v b'. tab b = tab a \<longrightarrow> au_get au m b = (v, b') \<longrightarrow> au_error au b' = None \<longrightarrow>
          v = Some x \<and> tab b' = tab b) ms (ed_children d l (entry_at d p (tab a))))"

lemma finds_path: "finds_entries au d tab \<Longrightarrow> p \<in> fst ` set (tab a) \<Longrightarrow> entry_path d p"
  unfolding finds_entries_def by blast

lemma finds_match:
  "finds_entries au d tab \<Longrightarrow> plain_name n \<Longrightarrow> au_match au (query d n) a = (ms, a') \<Longrightarrow> au_error au a' = None \<Longrightarrow>
    ms = entries_of d n (tab a) \<and> tab a' = tab a"
  unfolding finds_entries_def by blast

lemma edits_erase:
  "edits_entries au d tab \<Longrightarrow> entry_path d p \<Longrightarrow> au_error au (au_rm au (p @ ''/*'') a) = None \<Longrightarrow>
    tab (au_rm au (p @ ''/*'') a) = (if p \<in> fst ` set (tab a) then put_entry p (ed_empty d) (tab a) else tab a)"
  unfolding edits_entries_def by blast

lemma edits_rm:
  "edits_entries au d tab \<Longrightarrow> entry_path d p \<Longrightarrow> au_error au (au_rm au p a) = None \<Longrightarrow> tab (au_rm au p a) = drop_entry p (tab a)"
  unfolding edits_entries_def by blast

lemma edits_set:
  "edits_entries au d tab \<Longrightarrow> entry_path d p \<Longrightarrow> l \<in> set (ed_writes d) \<Longrightarrow> au_error au (au_set au (p @ ''/'' @ l) (Some v) a) = None \<Longrightarrow>
    tab (au_set au (p @ ''/'' @ l) (Some v) a) = put_entry p (ed_put d l v (entry_at d p (tab a))) (tab a)"
  unfolding edits_entries_def by blast

lemma edits_query:
  "edits_by_query au d tab \<Longrightarrow> plain_name n \<Longrightarrow> au_error au (au_rm au (query d n @ ''/*'') a) = None \<Longrightarrow>
    tab (au_rm au (query d n @ ''/*'') a) = clear_named d n (tab a)"
  "edits_by_query au d tab \<Longrightarrow> plain_name n \<Longrightarrow> au_error au (au_rm au (query d n) a) = None \<Longrightarrow>
    tab (au_rm au (query d n) a) = drop_named d n (tab a)"
  "edits_by_query au d tab \<Longrightarrow> plain_name n \<Longrightarrow> l \<in> set (ed_writes d) \<Longrightarrow> entries_of d n (tab a) = [] \<Longrightarrow>
    au_error au (au_set au (query d n @ ''/'' @ l) (Some v) a) = None \<Longrightarrow> tab (au_set au (query d n @ ''/'' @ l) (Some v) a) = tab a"
  unfolding edits_by_query_def by blast+

lemma reads_list:
  "reads_entries au d tab \<Longrightarrow> au_match au (listing d) a = (ms, a') \<Longrightarrow> au_error au a' = None \<Longrightarrow> ms = map fst (tab a) \<and> tab a' = tab a"
  unfolding reads_entries_def by blast

lemma reads_child:
  "reads_entries au d tab \<Longrightarrow> entry_path d p \<Longrightarrow> l \<in> set (ed_reads d) \<Longrightarrow> au_get au (p @ ''/'' @ l) a = (v, a') \<Longrightarrow> au_error au a' = None \<Longrightarrow>
    length (ed_children d l (entry_at d p (tab a))) \<le> 1 \<Longrightarrow>
    tab a' = tab a \<and> v = (case ed_children d l (entry_at d p (tab a)) of [] \<Rightarrow> None | x # _ \<Rightarrow> Some x)"
  unfolding reads_entries_def by blast

lemma reads_children:
  "reads_entries au d tab \<Longrightarrow> entry_path d p \<Longrightarrow> l \<in> set (ed_reads d) \<Longrightarrow> au_match au (p @ ''/'' @ l) a = (ms, a') \<Longrightarrow> au_error au a' = None \<Longrightarrow>
    tab a' = tab a \<and> list_all2 (\<lambda>m x. \<forall>b v b'. tab b = tab a \<longrightarrow> au_get au m b = (v, b') \<longrightarrow> au_error au b' = None \<longrightarrow>
      v = Some x \<and> tab b' = tab b) ms (ed_children d l (entry_at d p (tab a)))"
  unfolding reads_entries_def by blast

subsection \<open>The operations on nodes\<close>

lemma check_error_Ok: "check_error au a = Ok x \<longleftrightarrow> au_error au a = None"
  by (auto simp: check_error_def split: option.splits)

lemma handle_match_Ok: "handle_match h p a = (Ok ms, a') \<longleftrightarrow> au_match (hd_ops h) p a = (ms, a') \<and> au_error (hd_ops h) a' = None"
  by (auto simp: handle_match_def obind_Ok_iff check_error_Ok split: prod.splits)

lemma handle_get_Ok: "handle_get h p a = (Ok v, a') \<longleftrightarrow> au_get (hd_ops h) p a = (v, a') \<and> au_error (hd_ops h) a' = None"
  by (auto simp: handle_get_def obind_Ok_iff check_error_Ok split: prod.splits)

lemma handle_rm_Ok: "handle_rm h p a = (Ok x, a') \<longleftrightarrow> a' = au_rm (hd_ops h) p a \<and> au_error (hd_ops h) a' = None"
  by (auto simp: handle_rm_def Let_def check_error_Ok)

lemma handle_set_Ok: "handle_set h p v a = (Ok x, a') \<longleftrightarrow> a' = au_set (hd_ops h) p (Some v) a \<and> au_error (hd_ops h) a' = None"
  by (auto simp: handle_set_def Let_def check_error_Ok)

subsection \<open>Saving\<close>

text \<open>
  Queries do not change the table, and a query by a name without quotes is well-formed, so it raises no error. Writing
  the tables to their files does not change them in the tree.
\<close>

definition matches_safe :: "'a aug_ops \<Rightarrow> ('a \<Rightarrow> 't) \<Rightarrow> bool" where
  "matches_safe au tab \<longleftrightarrow> (\<forall>p a. tab (snd (au_match au p a)) = tab a)"

definition queries_safe :: "'a aug_ops \<Rightarrow> 'e entry_desc \<Rightarrow> ('a \<Rightarrow> 'e table) \<Rightarrow> bool" where
  "queries_safe au d tab \<longleftrightarrow> matches_safe au tab \<and>
     (\<forall>n a. plain_name n \<longrightarrow> au_error au (snd (au_match au (query d n) a)) = None)"

definition same_table :: "('a \<Rightarrow> 't) \<Rightarrow> ('a, 'w) aug_world \<Rightarrow> ('a, 'w) aug_world \<Rightarrow> bool" where
  "same_table tab s t \<longleftrightarrow> tab (aw_aug t) = tab (aw_aug s) \<and> aw_seq t = aw_seq s"

definition writer_keeps :: "('a, 'w) aug_handle \<Rightarrow> ('a \<Rightarrow> 't) \<Rightarrow> bool" where
  "writer_keeps h tab \<longleftrightarrow> (\<forall>s. same_table tab s (snd (hd_writer h s)))"

lemma same_table_trans [trans]: "same_table tab s t \<Longrightarrow> same_table tab t u \<Longrightarrow> same_table tab s u"
  by (simp add: same_table_def)

lemma default_writer_keeps: "(\<And>a. tab (au_save au a) = tab a) \<Longrightarrow> writer_keeps (default_handle au) tab"
  by (simp add: writer_keeps_def default_handle_def on_aug_def modify_def same_table_def)

lemma on_aug_Ok: "on_aug m s = (Ok r, s') \<longleftrightarrow> (\<exists>a. m (aw_aug s) = (Ok r, a) \<and> s' = s\<lparr>aw_aug := a\<rparr>)"
  by (auto simp: on_aug_def split: prod.splits)

lemma queries_safe_matches: "queries_safe au d tab \<Longrightarrow> matches_safe au tab"
  by (simp add: queries_safe_def)

lemma save_keeps:
  assumes "matches_safe (hd_ops h) tab" and "writer_keeps h tab" and "handle_save h s = (Ok x, s')"
  shows "same_table tab s s'"
proof -
  obtain y t es a where w: "hd_writer h s = (Ok y, t)" and m: "handle_match h ''/augeas/files//error'' (aw_aug t) = (Ok es, a)"
      and s': "s' = t\<lparr>aw_aug := a\<rparr>"
    using assms(3) by (auto simp: handle_save_def bnd_Ok_iff on_aug_Ok ret_def fail_def split: if_splits)
  from assms(2) have "same_table tab s (snd (hd_writer h s))" by (simp add: writer_keeps_def)
  moreover from assms(1) have "tab (snd (au_match (hd_ops h) ''/augeas/files//error'' (aw_aug t))) = tab (aw_aug t)"
    by (simp add: matches_safe_def)
  then have "tab a = tab (aw_aug t)" using m by (auto simp: handle_match_Ok)
  ultimately show ?thesis using w s' by (simp add: same_table_def)
qed

subsection \<open>Operations on the nodes of entries\<close>

text \<open>Being in the middle of rewriting an entry: what it holds by now, or that its node is not there yet.\<close>

definition rewriting :: "'e entry_desc \<Rightarrow> string \<Rightarrow> 'e \<Rightarrow> 'e table \<Rightarrow> 'e table \<Rightarrow> bool" where
  "rewriting d p e t0 t \<longleftrightarrow> t = put_entry p e t0 \<or> e = ed_empty d \<and> p \<notin> fst ` set t0 \<and> t = t0"

lemma rewriting_put: "rewriting d p e t0 t \<Longrightarrow> entry_at d p t = e \<and> put_entry p f t = put_entry p f t0"
  by (auto simp: rewriting_def entry_at_def map_of_eq_None_iff [THEN iffD2])

text \<open>What a kind of entries has to satisfy.\<close>

locale entry_kind =
  fixes d :: "'e entry_desc"
  assumes empty_children: "ed_children d l (ed_empty d) = []"
    and plain_labels: "l \<in> set (ed_reads d) \<union> set (ed_writes d) \<Longrightarrow> l \<noteq> [] \<and> CHR ''/'' \<notin> set l"
begin

lemma label_path: "l \<in> set (ed_reads d) \<union> set (ed_writes d) \<Longrightarrow> entry_path d p \<Longrightarrow> node_append p l = p @ ''/'' @ l"
  using plain_labels [of l] by (intro entry_path_append) (auto dest: hd_in_set)

lemma label_query: "l \<in> set (ed_writes d) \<Longrightarrow> node_append (query d n) l = query d n @ ''/'' @ l"
  using plain_labels [of l] by (intro query_append) (auto dest: hd_in_set)

lemma erase_step:
  assumes "edits_entries (hd_ops h) d tab" and "entry_path d p" and "node_erase h p a = (Ok x, a')"
  shows "rewriting d p (ed_empty d) (tab a) (tab a')"
proof -
  have "a' = au_rm (hd_ops h) (p @ ''/*'') a" "au_error (hd_ops h) a' = None"
    using assms(3) by (auto simp: node_erase_def handle_rm_Ok entry_path_append [OF assms(2)])
  with edits_erase [OF assms(1,2)] show ?thesis by (simp add: rewriting_def)
qed

lemma put_step:
  assumes "edits_entries (hd_ops h) d tab" and "entry_path d p" and "l \<in> set (ed_writes d)"
    and "handle_set h (node_append p l) v a = (Ok x, a')" and "rewriting d p e t0 (tab a)"
  shows "rewriting d p (ed_put d l v e) t0 (tab a')"
  using assms(4) edits_set [OF assms(1-3), of v a] rewriting_put [OF assms(5)] assms(2,3)
  by (auto simp: handle_set_Ok label_path rewriting_def)

lemma set_step:
  assumes "edits_entries (hd_ops h) d tab" and "entry_path d p" and "l \<in> set (ed_writes d)"
    and "node_set h p l v a = (Ok x, a')" and "rewriting d p e t0 (tab a)"
  shows "rewriting d p (if v = VNone then e else ed_put d l (to_string v) e) t0 (tab a')"
  using assms(4,5) put_step [OF assms(1-3)] by (auto simp: node_set_def ret_def)

lemma set_default_step:
  assumes "edits_entries (hd_ops h) d tab" and "entry_path d p" and "l \<in> set (ed_writes d)"
    and "node_set_default h p l v c a = (Ok x, a')" and "rewriting d p e t0 (tab a)"
  shows "rewriting d p (ed_put d l (if v = VNone then c else to_string v) e) t0 (tab a')"
  using assms(4,5) put_step [OF assms(1-3)] by (auto simp: node_set_default_def)

lemma rm_step:
  "edits_entries (hd_ops h) d tab \<Longrightarrow> entry_path d p \<Longrightarrow> node_rm h p a = (Ok x, a') \<Longrightarrow> tab a' = drop_entry p (tab a)"
  using edits_rm by (auto simp: node_rm_def handle_rm_Ok)

text \<open>The same with a query for a path.\<close>

lemma cleared_none: "entries_of d n (clear_named d n t) = []"
  by (auto simp: no_entries clear_named_def named_def empty_children split: if_splits)

lemma erase_query:
  "edits_by_query (hd_ops h) d tab \<Longrightarrow> plain_name n \<Longrightarrow> node_erase h (query d n) a = (Ok x, a') \<Longrightarrow> tab a' = clear_named d n (tab a)"
  using edits_query(1) by (auto simp: node_erase_def handle_rm_Ok query_append)

lemma rm_query:
  "edits_by_query (hd_ops h) d tab \<Longrightarrow> plain_name n \<Longrightarrow> node_rm h (query d n) a = (Ok x, a') \<Longrightarrow> tab a' = drop_named d n (tab a)"
  using edits_query(2) by (auto simp: node_rm_def handle_rm_Ok)

lemma put_query:
  assumes "edits_by_query (hd_ops h) d tab" and "plain_name n" and "l \<in> set (ed_writes d)" and "entries_of d n (tab a) = []"
    and "handle_set h (node_append (query d n) l) v a = (Ok x, a')"
  shows "tab a' = tab a"
  using edits_query(3) [OF assms(1-4)] assms(5) by (auto simp: handle_set_Ok label_query [OF assms(3)])

lemma set_query:
  assumes "edits_by_query (hd_ops h) d tab" and "plain_name n" and "l \<in> set (ed_writes d)" and "entries_of d n (tab a) = []"
    and "node_set h (query d n) l v a = (Ok x, a')"
  shows "tab a' = tab a"
  using assms(5) put_query [OF assms(1-4)] by (auto simp: node_set_def ret_def split: if_splits)

lemma set_default_query:
  assumes "edits_by_query (hd_ops h) d tab" and "plain_name n" and "l \<in> set (ed_writes d)" and "entries_of d n (tab a) = []"
    and "node_set_default h (query d n) l v c a = (Ok x, a')"
  shows "tab a' = tab a"
  using assms(5) put_query [OF assms(1-4)] by (auto simp: node_set_default_def)

text \<open>Reading.\<close>

lemma at_step:
  assumes "reads_entries (hd_ops h) d tab" and "entry_path d p" and "l \<in> set (ed_reads d)" and "node_at h p l a = (Ok v, a')"
    and "length (ed_children d l (entry_at d p (tab a))) \<le> 1"
  shows "tab a' = tab a \<and> v = (case ed_children d l (entry_at d p (tab a)) of [] \<Rightarrow> None | x # _ \<Rightarrow> Some x)"
  using assms(2-4) reads_child [OF assms(1-3) _ _ assms(5), of v a'] by (auto simp: node_at_def handle_get_Ok label_path)

lemma values_step:
  assumes "list_all2 (\<lambda>m x. \<forall>b v b'. tab b = t \<longrightarrow> au_get (hd_ops h) m b = (v, b') \<longrightarrow> au_error (hd_ops h) b' = None \<longrightarrow>
      v = Some x \<and> tab b' = tab b) ms xs"
    and "node_values h ms a = (Ok vs, a')" and "tab a = t"
  shows "vs = xs \<and> tab a' = t"
  using assms
proof (induction ms xs arbitrary: a vs rule: list_all2_induct)
  case (Cons m ms x xs)
  then obtain v b ws where get: "handle_get h m a = (Ok v, b)" and rest: "node_values h ms b = (Ok ws, a')"
      and vs: "vs = (case v of Some t \<Rightarrow> t # ws | None \<Rightarrow> ws)"
    by (auto simp: bnd_Ok_iff ret_def)
  from get Cons.hyps(1) Cons.prems have "v = Some x" "tab b = t" by (auto simp: handle_get_Ok)
  with vs Cons.IH [OF rest] show ?case by simp
qed (simp add: ret_def)

lemma array_step:
  assumes "reads_entries (hd_ops h) d tab" and "entry_path d p" and "l \<in> set (ed_reads d)"
    and "node_extract_array h p r k l a = (Ok r', a')" and "k \<noteq> ''name''"
  shows "tab a' = tab a \<and> r' = (let xs = ed_children d l (entry_at d p (tab a)) in if xs = [] then r else put_attr k (VArr xs) r)"
proof -
  obtain ms b vs where m: "handle_match h (p @ ''/'' @ l) a = (Ok ms, b)" and v: "node_values h ms b = (Ok vs, a')"
      and r': "r' = (if vs = [] then r else put_attr k (VArr vs) r)"
    using assms(2-5) by (auto simp: node_extract_array_def node_match_def bnd_Ok_iff lift_def ret_def res_set_Ok label_path split: if_splits)
  from reads_children [OF assms(1-3)] m have "tab b = tab a"
    and all: "list_all2 (\<lambda>m x. \<forall>b v b'. tab b = tab a \<longrightarrow> au_get (hd_ops h) m b = (v, b') \<longrightarrow> au_error (hd_ops h) b' = None \<longrightarrow>
      v = Some x \<and> tab b' = tab b) ms (ed_children d l (entry_at d p (tab a)))" by (auto simp: handle_match_Ok)
  with values_step [OF all v] r' show ?thesis by (auto simp: Let_def)
qed

lemma extract_step:
  assumes "reads_entries (hd_ops h) d tab" and "entry_path d p" and "l \<in> set (ed_reads d)"
    and "node_extract h p r k l c a = (Ok r', a')" and "k \<noteq> ''name''"
    and "length (ed_children d l (entry_at d p (tab a))) \<le> 1"
  shows "tab a' = tab a \<and> r' = (case ed_children d l (entry_at d p (tab a)) of
      [] \<Rightarrow> (case c of None \<Rightarrow> r | Some x \<Rightarrow> put_attr k (VStr x) r)
    | x # _ \<Rightarrow> put_attr k (VStr x) r)"
proof -
  obtain v b where "node_at h p l a = (Ok v, b)"
      and "(case v of Some t \<Rightarrow> lift (res_set r k (VStr t)) | None \<Rightarrow> (case c of Some x \<Rightarrow> lift (res_set r k (VStr x)) | None \<Rightarrow> ret r)) b = (Ok r', a')"
    using assms(4) by (auto simp: node_extract_def bnd_Ok_iff)
  with at_step [OF assms(1-3) _ assms(6)] assms(5) show ?thesis
    by (fastforce simp: lift_def ret_def res_set_Ok split: option.splits list.splits)
qed

lemma extract_opt:
  assumes "reads_entries (hd_ops h) d tab" and "entry_path d p" and "l \<in> set (ed_reads d)"
    and "node_extract h p r k l None a = (Ok r', a')" and "k \<noteq> ''name''"
    and "ed_children d l (entry_at d p (tab a)) = opt_list v"
  shows "tab a' = tab a \<and> r' = opt_attr k v r"
  using extract_step [OF assms(1-5)] assms(6) by (cases v) (simp_all add: opt_attr_def opt_list_def)

lemma extract_default:
  assumes "reads_entries (hd_ops h) d tab" and "entry_path d p" and "l \<in> set (ed_reads d)"
    and "node_extract h p r k l (Some c) a = (Ok r', a')" and "k \<noteq> ''name''"
    and "ed_children d l (entry_at d p (tab a)) = opt_list v"
  shows "tab a' = tab a \<and> r' = put_attr k (VStr (case v of None \<Rightarrow> c | Some x \<Rightarrow> x)) r"
  using extract_step [OF assms(1-5)] assms(6) by (cases v) (simp_all add: opt_list_def)

end

text \<open>Code that only reads leaves every table alone.\<close>

named_theorems reads_only_intros "rules for reads_only"

definition gets_safe :: "'a aug_ops \<Rightarrow> ('a \<Rightarrow> 't) \<Rightarrow> bool" where
  "gets_safe au tab \<longleftrightarrow> (\<forall>p a. tab (snd (au_match au p a)) = tab a \<and> tab (snd (au_get au p a)) = tab a)"

definition reads_only :: "('a \<Rightarrow> 't) \<Rightarrow> ('a, 'r) prog \<Rightarrow> bool" where
  "reads_only tab m \<longleftrightarrow> (\<forall>a. tab (snd (m a)) = tab a)"

lemma reads_onlyD: "reads_only tab m \<Longrightarrow> m a = (r, a') \<Longrightarrow> tab a' = tab a"
  by (metis reads_only_def snd_conv)

lemma reads_only_bnd [reads_only_intros]: "reads_only tab m \<Longrightarrow> (\<And>x. reads_only tab (f x)) \<Longrightarrow> reads_only tab (bnd m f)"
  by (auto simp: reads_only_def bnd_def split: prod.splits outcome.splits) (metis snd_conv)+

lemma reads_only_simple [reads_only_intros]: "reads_only tab (ret x)" "reads_only tab (fail e)" "reads_only tab (lift r)"
  by (simp_all add: reads_only_def ret_def fail_def lift_def)

lemma reads_only_option [reads_only_intros]:
  "reads_only tab m \<Longrightarrow> (\<And>a. reads_only tab (f a)) \<Longrightarrow> reads_only tab (case x of None \<Rightarrow> m | Some a \<Rightarrow> f a)"
  by (cases x) simp_all

lemma reads_only_handle [reads_only_intros]:
  "gets_safe (hd_ops h) tab \<Longrightarrow> reads_only tab (handle_match h p)"
  "gets_safe (hd_ops h) tab \<Longrightarrow> reads_only tab (handle_get h p)"
  by (auto simp: reads_only_def gets_safe_def handle_match_def handle_get_def split: prod.split) (metis snd_conv)+

lemma reads_only_node [reads_only_intros]:
  "gets_safe (hd_ops h) tab \<Longrightarrow> reads_only tab (node_at h p l)"
  "gets_safe (hd_ops h) tab \<Longrightarrow> reads_only tab (node_extract h p r k l c)"
  unfolding node_extract_def node_at_def by (assumption | intro reads_only_intros)+

subsection \<open>A library that keeps only the table\<close>

text \<open>The path before the last slash, the label after it, and the name in a query.\<close>

definition last_label :: "string \<Rightarrow> string" where
  "last_label p = rev (takeWhile (\<lambda>c. c \<noteq> CHR ''/'') (rev p))"

definition parent_path :: "string \<Rightarrow> string" where
  "parent_path p = take (length p - length (last_label p) - 1) p"

definition query_name :: "'e entry_desc \<Rightarrow> string \<Rightarrow> string option" where
  "query_name d p = (case after_prefix (ed_dir d @ ''*['' @ ed_field d @ '' = '') p of
      Some q \<Rightarrow> Some (takeWhile (\<lambda>c. c \<noteq> CHR 0x27) (tl q))
    | None \<Rightarrow> None)"

definition visible :: "'e entry_desc \<Rightarrow> 'e table \<Rightarrow> 'e table" where
  "visible d t = filter (\<lambda>(p, e). entry_path d p) t"

text \<open>The \<open>i\<close>th child with a label is found under the label followed by \<open>i\<close> plus signs.\<close>

definition table_aug :: "'e entry_desc \<Rightarrow> 'e table aug_ops" where
  "table_aug d = \<lparr>au_init = (\<lambda>r. []), au_error = (\<lambda>t. None),
     au_match = (\<lambda>p t. (case query_name d p of
         Some n \<Rightarrow> entries_of d n (visible d t)
       | None \<Rightarrow> if p = listing d then map fst (visible d t)
           else map (\<lambda>i. p @ replicate i CHR ''+'') [0..<length (ed_children d (last_label p) (entry_at d (parent_path p) (visible d t)))], t)),
     au_set = (\<lambda>p v t. case (query_name d p, v) of
         (None, Some x) \<Rightarrow> put_entry (parent_path p) (ed_put d (last_label p) x (entry_at d (parent_path p) t)) t
       | _ \<Rightarrow> t),
     au_rm = (\<lambda>p t. case query_name d p of
         Some n \<Rightarrow> if last_label p = ''*'' then clear_named d n t else drop_named d n t
       | None \<Rightarrow> if last_label p = ''*''
           then (if parent_path p \<in> fst ` set t then put_entry (parent_path p) (ed_empty d) t else t)
           else drop_entry p t),
     au_get = (\<lambda>p t. (let l = takeWhile (\<lambda>c. c \<noteq> CHR ''+'') (last_label p);
           xs = ed_children d l (entry_at d (parent_path p) (visible d t)); i = length (last_label p) - length l
         in if i < length xs then Some (xs ! i) else None, t)),
     au_transform = (\<lambda>l f t. t), au_text_store = (\<lambda>l i f t. t), au_text_retrieve = (\<lambda>l i f out t. t), au_load = id, au_save = id\<rparr>"

lemma labels_split:
  assumes "CHR ''/'' \<notin> set l"
  shows "last_label (p @ CHR ''/'' # l) = l" "parent_path (p @ CHR ''/'' # l) = p"
proof -
  have "takeWhile (\<lambda>c. c \<noteq> CHR ''/'') (rev l @ CHR ''/'' # rev p) = rev l"
    using assms by (subst takeWhile_append2) auto
  then show "last_label (p @ CHR ''/'' # l) = l" by (simp add: last_label_def)
  then show "parent_path (p @ CHR ''/'' # l) = p" by (simp add: parent_path_def)
qed

lemma query_name_query: "plain_name n \<Longrightarrow> query_name d (query d n @ r) = Some n"
proof -
  assume n: "plain_name n"
  have "query d n @ r = (ed_dir d @ ''*['' @ ed_field d @ '' = '') @ (CHR 0x27 # n @ CHR 0x27 # '']'' @ r)"
    by (simp add: query_def quoted_def)
  then have "after_prefix (ed_dir d @ ''*['' @ ed_field d @ '' = '') (query d n @ r) = Some (CHR 0x27 # n @ CHR 0x27 # '']'' @ r)"
    by (simp only: after_prefix_iff)
  moreover have "takeWhile (\<lambda>c. c \<noteq> CHR 0x27) (n @ CHR 0x27 # q) = n" for q
    using n by (subst takeWhile_append2) (auto simp: plain_name_def)
  ultimately show ?thesis by (simp add: query_name_def)
qed

lemma query_name_path:
  assumes "entry_path d p"
  shows "query_name d (p @ r) = None"
proof -
  obtain c m where p: "p = ed_dir d @ c # m" and c: "label_char c"
    using assms by (auto simp: entry_path_iff neq_Nil_conv)
  have "p @ r \<noteq> (ed_dir d @ ''*['' @ ed_field d @ '' = '') @ q" for q using p label_char_plain [OF c] by auto
  then have "after_prefix (ed_dir d @ ''*['' @ ed_field d @ '' = '') (p @ r) = None"
    using after_prefix_iff [of _ "p @ r"] by (metis not_Some_eq)
  then show ?thesis by (simp add: query_name_def)
qed

lemma listing_path: "entry_path d p \<Longrightarrow> p @ r \<noteq> listing d"
  using label_char_plain by (fastforce simp: entry_path_iff listing_def neq_Nil_conv)

lemma last_label_path:
  assumes "entry_path d p"
  shows "last_label p \<noteq> ''*''"
proof
  assume star: "last_label p = ''*''"
  obtain m where m: "p = ed_dir d @ m" "m \<noteq> []" "list_all label_char m" using assms by (auto simp: entry_path_iff)
  then have "last p \<noteq> CHR ''/'' \<and> last p \<noteq> CHR ''*''" using label_char_plain [of "last m"] by (auto simp: list_all_iff)
  moreover have "p \<noteq> []" using m(1,2) by simp
  then obtain q c where q: "p = q @ [c]" by (cases p rule: rev_cases) simp_all
  ultimately show False using star unfolding q by (auto simp: last_label_def)
qed

lemma last_label_query: "last_label (query d n) \<noteq> ''*''"
  by (simp add: last_label_def query_def)

lemma visible_simps:
  "entry_path d p \<Longrightarrow> p \<in> fst ` set (visible d t) \<longleftrightarrow> p \<in> fst ` set t"
  "entry_path d p \<Longrightarrow> visible d (put_entry p e t) = put_entry p e (visible d t)"
  "visible d (drop_entry p t) = drop_entry p (visible d t)"
  "entry_path d p \<Longrightarrow> entry_at d p (visible d t) = entry_at d p t"
  "visible d (clear_named d n t) = clear_named d n (visible d t)"
  "visible d (drop_named d n t) = drop_named d n (visible d t)"
proof -
  show one: "p \<in> fst ` set (visible d t) \<longleftrightarrow> p \<in> fst ` set t" if "entry_path d p"
    using that by (force simp: visible_def)
  have "filter (\<lambda>(p, e). entry_path d p) (map (\<lambda>(q, f). (q, if q = p then e else f)) t) =
      map (\<lambda>(q, f). (q, if q = p then e else f)) (filter (\<lambda>(p, e). entry_path d p) t)"
    by (simp add: filter_map comp_def split_def)
  then show "visible d (put_entry p e t) = put_entry p e (visible d t)" if "entry_path d p"
    using that one [OF that] by (auto simp: put_entry_def visible_def)
  show "visible d (drop_entry p t) = drop_entry p (visible d t)"
    by (simp add: visible_def drop_entry_def) (meson filter_cong)
  have "map_of (filter (\<lambda>(p, e). entry_path d p) t) p = map_of t p" if "entry_path d p"
    using that by (induction t) auto
  then show "entry_at d p (visible d t) = entry_at d p t" if "entry_path d p"
    using that by (simp add: entry_at_def visible_def)
  show "visible d (clear_named d n t) = clear_named d n (visible d t)"
    by (simp add: visible_def clear_named_def filter_map comp_def split_def)
  show "visible d (drop_named d n t) = drop_named d n (visible d t)"
    by (simp add: visible_def drop_named_def) (meson filter_cong)
qed

lemma table_finds: "finds_entries (table_aug d) d (visible d)"
  unfolding finds_entries_def
  using query_name_query [of _ d "[]"] by (auto simp: visible_def table_aug_def)

context entry_kind begin

lemma write_path: "l \<in> set (ed_writes d) \<Longrightarrow> last_label (p @ CHR ''/'' # l) = l \<and> parent_path (p @ CHR ''/'' # l) = p"
  using plain_labels [of l] by (simp add: labels_split)

lemma table_edits: "edits_entries (table_aug d) d (visible d)"
  unfolding edits_entries_def
proof (intro conjI allI impI)
  fix p and t :: "'e table" assume p: "entry_path d p"
  show "visible d (au_rm (table_aug d) (p @ ''/*'') t) =
      (if p \<in> fst ` set (visible d t) then put_entry p (ed_empty d) (visible d t) else visible d t)"
    by (simp add: table_aug_def query_name_path [OF p] labels_split visible_simps p)
  show "visible d (au_rm (table_aug d) p t) = drop_entry p (visible d t)"
    using query_name_path [OF p, of "[]"] last_label_path [OF p] by (simp add: table_aug_def visible_simps)
next
  fix p l v and t :: "'e table" assume p: "entry_path d p" and "l \<in> set (ed_writes d)"
  with write_path show "visible d (au_set (table_aug d) (p @ ''/'' @ l) (Some v) t) =
      put_entry p (ed_put d l v (entry_at d p (visible d t))) (visible d t)"
    by (simp add: table_aug_def query_name_path [OF p] visible_simps p)
qed

lemma table_edits_query: "edits_by_query (table_aug d) d (visible d)"
  unfolding edits_by_query_def
proof (intro conjI allI impI)
  fix n and t :: "'e table" assume n: "plain_name n"
  show "visible d (au_rm (table_aug d) (query d n @ ''/*'') t) = clear_named d n (visible d t)"
    by (simp add: table_aug_def query_name_query [OF n] labels_split visible_simps)
  show "visible d (au_rm (table_aug d) (query d n) t) = drop_named d n (visible d t)"
    using query_name_query [OF n, of d "[]"] by (simp add: table_aug_def last_label_query visible_simps)
next
  fix n l v and t :: "'e table" assume "plain_name n"
  then show "visible d (au_set (table_aug d) (query d n @ ''/'' @ l) (Some v) t) = visible d t"
    by (simp add: table_aug_def query_name_query)
qed

lemma table_reads:
  assumes "query_name d (listing d) = None" and "\<And>l. l \<in> set (ed_reads d) \<Longrightarrow> CHR ''+'' \<notin> set l"
  shows "reads_entries (table_aug d) d (visible d)"
proof -
  have get: "au_get (table_aug d) (p @ CHR ''/'' # l @ replicate i CHR ''+'') t =
      (let xs = ed_children d l (entry_at d p (visible d t)) in if i < length xs then Some (xs ! i) else None, t)"
    if l: "l \<in> set (ed_reads d)" for p l i and t :: "'e table"
  proof -
    have "last_label (p @ CHR ''/'' # l @ replicate i CHR ''+'') = l @ replicate i CHR ''+''"
        "parent_path (p @ CHR ''/'' # l @ replicate i CHR ''+'') = p"
      using plain_labels [of l] l labels_split [of "l @ replicate i CHR ''+''" p] by auto
    moreover have "takeWhile (\<lambda>c. c \<noteq> CHR ''+'') (l @ replicate i CHR ''+'') = l"
      using assms(2) [OF l] by (subst takeWhile_append2) (auto simp: takeWhile_eq_Nil_iff)
    ultimately show ?thesis by (simp add: table_aug_def)
  qed
  have match: "au_match (table_aug d) (p @ CHR ''/'' # l) t =
      (map (\<lambda>i. p @ CHR ''/'' # l @ replicate i CHR ''+'') [0..<length (ed_children d l (entry_at d p (visible d t)))], t)"
    if "l \<in> set (ed_reads d)" "entry_path d p" for p l and t :: "'e table"
    using that plain_labels [of l] listing_path [of d p] query_name_path [of d p] by (simp add: table_aug_def labels_split)
  show ?thesis
    unfolding reads_entries_def
  proof (intro conjI allI impI)
    fix ms and t t' :: "'e table" assume "au_match (table_aug d) (listing d) t = (ms, t')"
    then show "ms = map fst (visible d t)" "visible d t' = visible d t" by (auto simp: table_aug_def assms(1))
  next
    fix p l v and t t' :: "'e table"
    assume "l \<in> set (ed_reads d)" "au_get (table_aug d) (p @ ''/'' @ l) t = (v, t')"
    then show "visible d t' = visible d t" "v = (case ed_children d l (entry_at d p (visible d t)) of [] \<Rightarrow> None | x # _ \<Rightarrow> Some x)"
      using get [of l p 0 t] by (auto split: list.splits)
  next
    fix p l ms and t t' :: "'e table"
    assume "l \<in> set (ed_reads d)" "entry_path d p" "au_match (table_aug d) (p @ ''/'' @ l) t = (ms, t')"
    then show "visible d t' = visible d t"
      "list_all2 (\<lambda>m x. \<forall>b v b'. visible d b = visible d t \<longrightarrow> au_get (table_aug d) m b = (v, b') \<longrightarrow>
          au_error (table_aug d) b' = None \<longrightarrow> v = Some x \<and> visible d b' = visible d b) ms (ed_children d l (entry_at d p (visible d t)))"
      using match [of l p t] get [of l p] by (auto simp: list_all2_conv_all_nth)
  qed
qed

end

end
