(* ===== verification/HostTable.thy ===== *)
theory HostTable
  imports AugTable
begin

section \<open>The table of hosts\<close>

text \<open>
  What the host provider promises, without the tree it edits: \<open>/etc/hosts\<close> is a table from the paths of entries to entries,
  and an update replaces the entry of its host, or adds or removes one. The theory shows that \<open>host_set_one\<close>, with all
  its calls, does on the tree what the specification does on the table, that \<open>host_get\<close> reports the table, and so
  that a host that was set is reported as it was asked for.
\<close>

subsection \<open>Entries\<close>

record host_entry =
  he_ip :: "string option"
  he_canonical :: "string option"
  he_aliases :: "string list"
  he_comment :: "string option"

type_synonym host_table = "host_entry table"

definition no_host :: host_entry where
  "no_host = \<lparr>he_ip = None, he_canonical = None, he_aliases = [], he_comment = None\<rparr>"

definition host_children :: "string \<Rightarrow> host_entry \<Rightarrow> string list" where
  "host_children l e =
     (if l = ''ipaddr'' then opt_list (he_ip e)
      else if l = ''canonical'' then opt_list (he_canonical e)
      else if l = ''alias'' then he_aliases e
      else if l = ''#comment'' then opt_list (he_comment e) else [])"

definition alias_path :: string where
  "alias_path = ''alias[last()+1]''"

definition host_put :: "string \<Rightarrow> string \<Rightarrow> host_entry \<Rightarrow> host_entry" where
  "host_put l v e =
     (if l = ''ipaddr'' then e\<lparr>he_ip := Some v\<rparr>
      else if l = ''canonical'' then e\<lparr>he_canonical := Some v\<rparr>
      else if l = alias_path then e\<lparr>he_aliases := he_aliases e @ [v]\<rparr>
      else e\<lparr>he_comment := Some v\<rparr>)"

definition hosts :: "host_entry entry_desc" where
  "hosts = \<lparr>ed_dir = ''/files/etc/hosts/'', ed_field = ''canonical'', ed_empty = no_host,
     ed_children = host_children, ed_put = host_put,
     ed_reads = [''ipaddr'', ''canonical'', ''alias'', ''#comment''], ed_writes = [''ipaddr'', ''canonical'', alias_path, ''#comment'']\<rparr>"

interpretation hosts: entry_kind hosts
  by unfold_locales (auto simp: hosts_def host_children_def no_host_def alias_path_def opt_list_def)

lemma hosts_simps [simp]:
  "ed_empty hosts = no_host" "ed_children hosts = host_children" "ed_put hosts = host_put"
  "set (ed_reads hosts) = {''ipaddr'', ''canonical'', ''alias'', ''#comment''}"
  "set (ed_writes hosts) = {''ipaddr'', ''canonical'', alias_path, ''#comment''}"
  by (simp_all add: hosts_def)

lemma named_host: "named hosts n e \<longleftrightarrow> he_canonical e = Some n"
  by (auto simp: named_def hosts_def host_children_def opt_list_def split: option.splits)

lemma host_query: "query hosts n = host_query n"
  by (simp add: query_def host_query_def hosts_def)

subsection \<open>The specification\<close>

text \<open>The entry that an update asks for: attributes that are not given keep their current values.\<close>

definition wanted_host :: "update \<Rightarrow> host_entry" where
  "wanted_host u = \<lparr>he_ip = text_of (wanted_value u ''ip''), he_canonical = Some (upd_name u),
     he_aliases = (case as_array (wanted_value u ''host_aliases'') of Some xs \<Rightarrow> xs | None \<Rightarrow> []),
     he_comment = text_of (wanted_value u ''comment'')\<rparr>"

definition host_spec :: "string \<Rightarrow> update \<Rightarrow> host_table \<Rightarrow> host_table" where
  "host_spec new u t = (case entries_of hosts (upd_name u) t of
      [] \<Rightarrow> if wanted_ensure u = ''present'' then t @ [(new, wanted_host u)] else t
    | p # _ \<Rightarrow> if wanted_ensure u = ''present'' then put_entry p (wanted_host u) t else drop_entry p t)"

subsection \<open>An update on the tree and on the table\<close>

lemma aliases_step:
  assumes "edits_entries (hd_ops h) hosts tab" and "entry_path hosts p" and "host_aliases h p xs a = (Ok x, a')"
    and "rewriting hosts p e t0 (tab a)"
  shows "rewriting hosts p (e\<lparr>he_aliases := he_aliases e @ xs\<rparr>) t0 (tab a')"
  using assms(3,4)
proof (induction xs arbitrary: a e)
  case (Cons y ys)
  then obtain u a1 where one: "node_set h p alias_path (VStr y) a = (Ok u, a1)" and rest: "host_aliases h p ys a1 = (Ok x, a')"
    by (auto simp: bnd_Ok_iff alias_path_def)
  from hosts.set_step [OF assms(1,2) _ one Cons.prems(2)]
  have "rewriting hosts p (e\<lparr>he_aliases := he_aliases e @ [y]\<rparr>) t0 (tab a1)" by (simp add: host_put_def alias_path_def)
  from Cons.IH [OF rest this] show ?case by simp
qed (simp add: ret_def)

lemma update_base_table:
  assumes view: "edits_entries (hd_ops h) hosts tab" and p: "entry_path hosts p" and base: "host_base h u s = (Ok p, s1)"
    and run: "host_update_base h u s = (Ok x, s')"
  shows "tab (tree s') = put_entry p (wanted_host u) (tab (tree s1))"
proof -
  let ?t = "tab (tree s1)"
  obtain a1 a2 a3 a4 x1 x2 x3 x4 x5 where
      erase: "node_erase h p (tree s1) = (Ok x1, a1)"
      and ip: "node_set h p ''ipaddr'' (wanted_value u ''ip'') a1 = (Ok x2, a2)"
      and canonical: "node_set h p ''canonical'' (VStr (upd_name u)) a2 = (Ok x3, a3)"
      and aliases: "host_aliases h p (he_aliases (wanted_host u)) a3 = (Ok x4, a4)"
      and comment: "node_set h p ''#comment'' (wanted_value u ''comment'') a4 = (Ok x5, tree s')"
    using base run
    by (auto simp: host_update_base_def bnd_Ok_iff with_aug_Ok lift_def wanted_value_def wanted_host_def)
  note step = hosts.set_step [OF view p, rotated]
  from step [OF ip hosts.erase_step [OF view p erase]]
  have "rewriting hosts p (no_host\<lparr>he_ip := text_of (wanted_value u ''ip'')\<rparr>) ?t (tab a2)"
    by (cases "wanted_value u ''ip'' = VNone") (simp_all add: host_put_def no_host_def text_of_def)
  from step [OF canonical this]
  have "rewriting hosts p (no_host\<lparr>he_ip := text_of (wanted_value u ''ip''), he_canonical := Some (upd_name u)\<rparr>) ?t (tab a3)"
    by (simp add: host_put_def)
  from step [OF comment aliases_step [OF view p aliases this]]
  have "rewriting hosts p (wanted_host u) ?t (tab (tree s'))"
    by (cases "wanted_value u ''comment'' = VNone") (simp_all add: host_put_def no_host_def wanted_host_def text_of_def alias_path_def)
  moreover have "wanted_host u \<noteq> no_host" by (simp add: wanted_host_def no_host_def)
  ultimately show ?thesis by (simp add: rewriting_def)
qed

lemma update_base_seq:
  "host_base h u s = (Ok p, s1) \<Longrightarrow> host_update_base h u s = (Ok x, s') \<Longrightarrow> aw_seq (p_world s') = aw_seq (p_world s1)"
  by (auto simp: host_update_base_def bnd_Ok_iff with_aug_Ok lift_def)

lemma base_table:
  assumes view: "finds_entries (hd_ops h) hosts tab" and "plain_name (upd_name u)" and run: "host_base h u s = (Ok p, s1)"
  shows "tab (tree s1) = tab (tree s) \<and> entry_path hosts p \<and>
    (entries_of hosts (upd_name u) (tab (tree s)) = [p] \<and> aw_seq (p_world s1) = aw_seq (p_world s) \<or>
     entries_of hosts (upd_name u) (tab (tree s)) = [] \<and> p = new_path hosts (aw_seq (p_world s) + 1) \<and>
       aw_seq (p_world s1) = aw_seq (p_world s) + 1)"
proof -
  obtain nodes a where m: "handle_match h (host_query (upd_name u)) (tree s) = (Ok nodes, a)"
      and pick: "(if length nodes = 1 then ret (nodes ! 0)
         else if length nodes = 0 then on_world (make_node_seq_next ''/files/etc/hosts'')
         else fail (''multiple entries with hostname '' @ quoted (upd_name u))) (s\<lparr>p_world := (p_world s)\<lparr>aw_aug := a\<rparr>\<rparr>) = (Ok p, s1)"
    using run by (auto simp: host_base_def host_query_def bnd_Ok_iff with_aug_Ok)
  from finds_match [OF view assms(2)] m
  have nodes: "nodes = entries_of hosts (upd_name u) (tab (tree s))" and same: "tab a = tab (tree s)"
    unfolding handle_match_Ok host_query by blast+
  consider "length nodes = 1" | "nodes = []" using pick by (auto simp: fail_def split: if_splits)
  then show ?thesis
  proof cases
    case 1
    with pick have p: "nodes = [p]" "s1 = s\<lparr>p_world := (p_world s)\<lparr>aw_aug := a\<rparr>\<rparr>"
      by (auto simp: ret_def length_Suc_conv)
    have "p \<in> fst ` set (tab (tree s))" by (rule entries_of_path) (use p(1) nodes in simp)
    with finds_path [OF view] p nodes same show ?thesis by auto
  next
    case 2
    with pick have "p = new_path hosts (aw_seq (p_world s) + 1)" "tree s1 = a" "aw_seq (p_world s1) = aw_seq (p_world s) + 1"
      by (auto simp: on_world_def make_node_seq_next_def new_path_def hosts_def split: if_splits)
    with 2 nodes same new_path show ?thesis by auto
  qed
qed

lemma host_set_one_cases:
  assumes "host_set_one h u s = (Ok (), s')"
  obtains (present) s0 where "wanted_ensure u = ''present''" "p_world s0 = p_world s" "host_update_base h u s0 = (Ok (), s')"
  | (absent) s0 p s1 where "wanted_ensure u = ''absent''" "p_world s0 = p_world s" "host_base h u s0 = (Ok p, s1)"
      "with_aug (node_rm h p) s1 = (Ok (), s')"
proof -
  obtain x t where add: "add_changes [''ensure''] u s = (Ok x, t)"
    and run: "(if wanted_ensure u = ''present'' then bnd (add_changes [''ip'', ''host_aliases'', ''comment''] u) (\<lambda>_. host_update_base h u)
      else if wanted_ensure u = ''absent'' then bnd (attempt (host_base h u)) (\<lambda>r. bnd (lift (res_ok r)) (\<lambda>n. with_aug (node_rm h n)))
      else fail (''ensure has illegal value '' @ quoted (wanted_ensure u))) t = (Ok (), s')"
    using assms unfolding host_set_one_def Let_def wanted_ensure_def [symmetric] bnd_Ok_iff by blast
  from add have world: "p_world t = p_world s" by (auto simp: add_changes_run)
  consider "wanted_ensure u = ''present''" | "wanted_ensure u = ''absent''" using run by (auto simp: fail_def split: if_splits)
  then show ?thesis
  proof cases
    case 1
    with run have "bnd (add_changes [''ip'', ''host_aliases'', ''comment''] u) (\<lambda>_. host_update_base h u) t = (Ok (), s')" by simp
    then obtain y s0 where more: "add_changes [''ip'', ''host_aliases'', ''comment''] u t = (Ok y, s0)"
        and "host_update_base h u s0 = (Ok (), s')" unfolding bnd_Ok_iff by blast
    moreover have "p_world s0 = p_world s" using more world by (auto simp: add_changes_run)
    ultimately show ?thesis using 1 by (intro that(1)) simp_all
  next
    case 2
    with run obtain r p s1 where "attempt (host_base h u) t = (Ok r, s1)" "res_ok r = Ok p" "with_aug (node_rm h p) s1 = (Ok (), s')"
      by (auto simp: bnd_Ok_iff lift_def)
    moreover from this have "host_base h u t = (Ok p, s1)"
      by (auto simp: attempt_def res_ok_iff split: prod.splits outcome.splits)
    ultimately show ?thesis using 2 world by (intro that(2) [of t]) simp_all
  qed
qed

lemma host_update_table:
  assumes finds: "finds_entries (hd_ops h) hosts tab" and edits: "edits_entries (hd_ops h) hosts tab"
    and plain: "plain_name (upd_name u)" and run: "host_set_one h u s = (Ok (), s')"
    and fresh: "new_path hosts (aw_seq (p_world s) + 1) \<notin> fst ` set (tab (aw_aug (p_world s)))"
  shows "wanted_ensure u \<in> {''present'', ''absent''} \<and> length (entries_of hosts (upd_name u) (tab (aw_aug (p_world s)))) \<le> 1 \<and>
    tab (aw_aug (p_world s')) = host_spec (new_path hosts (aw_seq (p_world s) + 1)) u (tab (aw_aug (p_world s))) \<and>
    aw_seq (p_world s') = (if entries_of hosts (upd_name u) (tab (aw_aug (p_world s))) = [] then aw_seq (p_world s) + 1 else aw_seq (p_world s))"
  using run
proof (cases rule: host_set_one_cases)
  case (present s0)
  then obtain p s1 where base: "host_base h u s0 = (Ok p, s1)" by (auto simp: host_update_base_def bnd_Ok_iff)
  from base_table [OF finds plain base] have "entry_path hosts p" by blast
  from update_base_table [OF edits this base present(3)] update_base_seq [OF base present(3)] base_table [OF finds plain base] present(1,2) fresh
  show ?thesis by (auto simp: host_spec_def put_fresh)
next
  case (absent s0 p s1)
  from base_table [OF finds plain absent(3)] have p: "entry_path hosts p" by blast
  from absent(4) hosts.rm_step [OF edits p] have "tab (tree s') = drop_entry p (tab (tree s1))" "aw_seq (p_world s') = aw_seq (p_world s1)"
    by (auto simp: with_aug_Ok)
  with base_table [OF finds plain absent(3)] absent(1,2) fresh show ?thesis by (auto simp: host_spec_def drop_fresh)
qed

subsection \<open>What get reports\<close>

text \<open>The resource of an entry.\<close>

definition host_row :: "host_entry \<Rightarrow> resource" where
  "host_row e = put_attr ''target'' (VStr ''/etc/hosts'') (put_attr ''ensure'' (VStr ''present'')
     (opt_attr ''comment'' (he_comment e)
       (let r = opt_attr ''ip'' (he_ip e) (new_resource (case he_canonical e of Some n \<Rightarrow> n | None \<Rightarrow> []))
        in if he_aliases e = [] then r else put_attr ''host_aliases'' (VArr (he_aliases e)) r)))"

lemma host_children_simps [simp]:
  "host_children ''ipaddr'' e = opt_list (he_ip e)" "host_children ''canonical'' e = opt_list (he_canonical e)"
  "host_children ''alias'' e = he_aliases e" "host_children ''#comment'' e = opt_list (he_comment e)"
  by (simp_all add: host_children_def)

lemma host_make_row:
  assumes view: "reads_entries (hd_ops h) hosts tab" and p: "entry_path hosts p"
    and make: "host_make h n p ''present'' a = (Ok r, a')" and e: "he_canonical (entry_at hosts p (tab a)) = Some n"
  shows "tab a' = tab a \<and> r = host_row (entry_at hosts p (tab a))"
proof -
  obtain r1 a1 r2 a2 r3 where ip: "node_extract h p (new_resource n) ''ip'' ''ipaddr'' None a = (Ok r1, a1)"
      and al: "node_extract_array h p r1 ''host_aliases'' ''alias'' a1 = (Ok r2, a2)"
      and cm: "node_extract h p r2 ''comment'' ''#comment'' None a2 = (Ok r3, a')"
      and r: "r = put_attr ''target'' (VStr ''/etc/hosts'') (put_attr ''ensure'' (VStr ''present'') r3)"
    using make by (auto simp: host_make_def bnd_Ok_iff ret_def)
  from hosts.extract_opt [OF view p _ ip] have 1: "tab a1 = tab a" "r1 = opt_attr ''ip'' (he_ip (entry_at hosts p (tab a))) (new_resource n)"
    by simp_all
  from hosts.array_step [OF view p _ al] 1 have 2: "tab a2 = tab a" "r2 = (let xs = he_aliases (entry_at hosts p (tab a)) in
      if xs = [] then r1 else put_attr ''host_aliases'' (VArr xs) r1)" by simp_all
  from hosts.extract_opt [OF view p _ cm] 2 have "tab a' = tab a" "r3 = opt_attr ''comment'' (he_comment (entry_at hosts p (tab a))) r2"
    by simp_all
  with 1(2) 2(2) r e show ?thesis by (simp add: host_row_def Let_def)
qed

lemma host_entries_rows:
  assumes view: "reads_entries (hd_ops h) hosts tab" and "\<And>p. p \<in> set ps \<Longrightarrow> entry_path hosts p"
    and "host_entries h ps a = (Ok rs, a')"
  shows "tab a' = tab a \<and> rs = map (\<lambda>p. host_row (entry_at hosts p (tab a))) ps \<and>
    (\<forall>p \<in> set ps. he_canonical (entry_at hosts p (tab a)) \<noteq> None)"
  using assms(2,3)
proof (induction ps arbitrary: a rs)
  case (Cons p ps)
  then have p: "entry_path hosts p" by simp
  obtain v a1 where at: "node_at h p ''canonical'' a = (Ok v, a1)" using Cons.prems(2) by (auto simp: bnd_Ok_iff)
  from hosts.at_step [OF view p _ at] have "tab a1 = tab a" and v: "v = he_canonical (entry_at hosts p (tab a))"
    by (auto split: option.splits)
  moreover obtain n r a2 qs where n: "v = Some n" and make: "host_make h n p ''present'' a1 = (Ok r, a2)"
      and rest: "host_entries h ps a2 = (Ok qs, a')" and rs: "rs = r # qs"
    using Cons.prems(2) at by (cases v) (auto simp: bnd_Ok_iff ret_def fail_def)
  ultimately have "tab a2 = tab a" "r = host_row (entry_at hosts p (tab a))"
    using host_make_row [OF view p make] by simp_all
  moreover have "he_canonical (entry_at hosts p (tab a)) \<noteq> None" using n unfolding v by simp
  ultimately show ?case using Cons.IH [OF _ rest] Cons.prems(1) rs by simp
qed (simp add: ret_def)

lemma host_get_table:
  assumes "finds_entries (hd_ops h) hosts tab" and "reads_entries (hd_ops h) hosts tab" and "host_get h names s = (Ok rs, s')"
  shows "tab (tree s') = tab (tree s) \<and> (let t = tab (tree s) in (\<forall>p \<in> set (map fst t). he_canonical (entry_at hosts p t) \<noteq> None) \<and>
    rs = add_absent (map (\<lambda>p. host_row (entry_at hosts p t)) (map fst t)) names)"
proof -
  obtain ps a qs where m: "handle_match h (listing hosts) (tree s) = (Ok ps, a)" and es: "host_entries h ps a = (Ok qs, tree s')"
      and rs: "rs = add_absent qs names"
    using assms(3) by (auto simp: host_get_def bnd_Ok_iff with_aug_Ok ret_def listing_def hosts_def)
  from reads_list [OF assms(2)] m have a: "ps = map fst (tab (tree s))" "tab a = tab (tree s)" by (auto simp: handle_match_Ok)
  then have "\<And>p. p \<in> set ps \<Longrightarrow> entry_path hosts p" using finds_path [OF assms(1)] by auto
  from host_entries_rows [OF assms(2) this es] a rs show ?thesis by simp
qed

lemma host_get_rows:
  assumes "finds_entries (hd_ops h) hosts tab" and "reads_entries (hd_ops h) hosts tab" and "host_get h names s = (Ok rs, s')"
    and "distinct (map fst (tab (tree s)))"
  shows "rs = add_absent (map host_row (map snd (tab (tree s)))) names" and "\<And>e. e \<in> set (map snd (tab (tree s))) \<Longrightarrow> he_canonical e \<noteq> None"
proof -
  let ?t = "tab (tree s)"
  have rows: "map (\<lambda>p. f (entry_at hosts p ?t)) (map fst ?t) = map f (map snd ?t)" for f :: "host_entry \<Rightarrow> 'c"
    using arg_cong [OF rows_by_path [OF assms(4)], of "map f" hosts] by (simp add: comp_def)
  from host_get_table [OF assms(1-3)] show "rs = add_absent (map host_row (map snd ?t)) names"
    unfolding Let_def rows by blast
  fix e assume "e \<in> set (map snd ?t)"
  then obtain p where "(p, e) \<in> set ?t" by auto
  then have "p \<in> set (map fst ?t)" "entry_at hosts p ?t = e" using entry_at_row [OF assms(4)] by (force, simp)
  with host_get_table [OF assms(1-3)] show "he_canonical e \<noteq> None" unfolding Let_def by blast
qed

lemma res_name_opt [simp]: "res_name (opt_attr k v r) = res_name r"
  by (simp add: opt_attr_def split: option.split)

lemma host_row_name: "he_canonical e = Some n \<Longrightarrow> res_name (host_row e) = n"
  by (simp add: host_row_def Let_def)

lemma rows_of_name:
  "(\<And>e. e \<in> set es \<Longrightarrow> he_canonical e \<noteq> None) \<Longrightarrow> filter (\<lambda>r. res_name r = n) (map host_row es) = map host_row (filter (named hosts n) es)"
  by (induction es) (force simp: named_host host_row_name)+

lemma host_spec_rows:
  assumes "length (entries_of hosts (upd_name u) t) \<le> 1" and "distinct (new # map fst t)" and "wanted_ensure u \<in> {''present'', ''absent''}"
  shows "filter (named hosts (upd_name u)) (map snd (host_spec new u t)) = (if wanted_ensure u = ''present'' then [wanted_host u] else [])"
    and "distinct (map fst (host_spec new u t))"
proof -
  have wanted: "named hosts (upd_name u) (wanted_host u)" by (simp add: named_host wanted_host_def)
  consider "entries_of hosts (upd_name u) t = []" | p where "entries_of hosts (upd_name u) t = [p]"
    using assms(1) by (cases "entries_of hosts (upd_name u) t") auto
  then show "filter (named hosts (upd_name u)) (map snd (host_spec new u t)) = (if wanted_ensure u = ''present'' then [wanted_host u] else [])"
  proof cases
    case 1
    with named_after_add [OF 1 wanted] named_none [OF 1] show ?thesis by (simp add: host_spec_def)
  next
    case 2
    with named_after_put [OF _ 2 wanted] named_after_drop [OF 2] assms(2) show ?thesis by (simp add: host_spec_def)
  qed
  show "distinct (map fst (host_spec new u t))"
    using assms(2) by (auto simp: host_spec_def paths_put drop_entry_def distinct_map_filter split: list.split)
qed

lemma add_absent_of_name:
  "filter (\<lambda>r. res_name r = n) (add_absent rs ns) =
    (if filter (\<lambda>r. res_name r = n) rs = [] \<and> n \<in> set ns then [absent_resource n] else filter (\<lambda>r. res_name r = n) rs)"
proof -
  have "filter (\<lambda>r. res_name r = n) (map absent_resource ms) = (if n \<in> set ms then [absent_resource n] else [])" if "distinct ms" for ms
    using that by (induction ms) auto
  from this [OF missing_names_props(2)] show ?thesis
    by (auto simp: add_absent_eq missing_names_props(1) filter_empty_conv)
qed

text \<open>C4: an update of a host that reports no error does to the tree of \<open>/etc/hosts\<close> what the specification does to the
  table of hosts: there is at most one entry of the name; asked to be present, it is replaced in place, or added at the
  end, by an entry with the desired address, aliases and comment; asked to be absent, it is removed; and every
  other entry stays as it is and where it is.\<close>

theorem host_update_refines:
  assumes "finds_entries (hd_ops h) hosts tab" and "edits_entries (hd_ops h) hosts tab"
    and "plain_name (upd_name u)" and "host_set_one h u s = (Ok (), s')"
    and "new_path hosts (aw_seq (p_world s) + 1) \<notin> fst ` set (tab (aw_aug (p_world s)))"
  shows "wanted_ensure u \<in> {''present'', ''absent''} \<and> length (entries_of hosts (upd_name u) (tab (aw_aug (p_world s)))) \<le> 1 \<and>
    tab (aw_aug (p_world s')) = host_spec (new_path hosts (aw_seq (p_world s) + 1)) u (tab (aw_aug (p_world s)))"
  using host_update_table [OF assms] by blast

text \<open>After an update of a host that reports no error, \<open>get\<close> on the same tree reports that host exactly once, with the desired
  address, aliases and comment, if it was to be present, and as absent, if at all, if it was to be absent.\<close>

theorem host_read_back:
  assumes finds: "finds_entries (hd_ops h) hosts tab" and edits: "edits_entries (hd_ops h) hosts tab"
    and reads: "reads_entries (hd_ops h) hosts tab"
    and plain: "plain_name (upd_name u)" and run: "host_set_one h u s = (Ok (), s')" and get: "host_get h names s' = (Ok rs, s'')"
    and paths: "distinct (new_path hosts (aw_seq (p_world s) + 1) # map fst (tab (aw_aug (p_world s))))"
  shows "filter (\<lambda>r. res_name r = upd_name u) rs =
    (if wanted_ensure u = ''present'' then [host_row (wanted_host u)]
     else if upd_name u \<in> set names then [absent_resource (upd_name u)] else [])"
proof -
  let ?t = "host_spec (new_path hosts (aw_seq (p_world s) + 1)) u (tab (tree s))"
  from paths host_update_table [OF finds edits plain run]
  have upd: "wanted_ensure u \<in> {''present'', ''absent''}" "length (entries_of hosts (upd_name u) (tab (tree s))) \<le> 1" "tab (tree s') = ?t"
    by simp_all
  note spec = host_spec_rows [OF upd(2) paths upd(1)]
  have t: "distinct (map fst (tab (tree s')))" unfolding upd(3) by (rule spec(2))
  note rows = host_get_rows [OF finds reads get t, unfolded upd(3)]
  have "filter (\<lambda>r. res_name r = upd_name u) (map host_row (map snd ?t)) = (if wanted_ensure u = ''present'' then [host_row (wanted_host u)] else [])"
    by (subst rows_of_name) (use rows(2) spec(1) in \<open>simp_all del: map_map set_map\<close>)
  then show ?thesis unfolding rows(1) add_absent_of_name by simp
qed

subsection \<open>On a library that keeps only the table\<close>

definition demo_entry :: "string \<Rightarrow> string \<Rightarrow> host_entry" where
  "demo_entry ip n = \<lparr>he_ip = Some ip, he_canonical = Some n, he_aliases = [], he_comment = None\<rparr>"

definition demo_host_state :: "(host_table, unit) aug_prov" where
  "demo_host_state = \<lparr>p_ctx = new_context ''host::aug'', p_world = \<lparr>
     aw_aug = [(''/files/etc/hosts/1'', demo_entry ''10.0.0.1'' ''web'')],
     aw_seq = 0, aw_sys = ()\<rparr>\<rparr>"

definition demo_host_update :: update where
  "demo_host_update = \<lparr>upd_is = put_attr ''ip'' (VStr ''10.0.0.1'') (put_attr ''ensure'' (VStr ''present'') (new_resource ''web'')),
     upd_should = put_attr ''host_aliases'' (VArr [''www'']) (put_attr ''ip'' (VStr ''10.0.0.9'') (new_resource ''web''))\<rparr>"

lemma demo_host_run:
  "case host_set_one (default_handle (table_aug hosts)) demo_host_update demo_host_state of
     (Ok _, s) \<Rightarrow> is_Ok (fst (host_get (default_handle (table_aug hosts)) [] s))
   | _ \<Rightarrow> False"
  by code_simp

lemma demo_host_fresh:
  "new_path hosts (aw_seq (p_world demo_host_state) + 1) \<notin> fst ` set (visible hosts (aw_aug (p_world demo_host_state)))"
  by code_simp

lemma demo_hosts_view:
  "finds_entries (hd_ops (default_handle (table_aug hosts) :: (host_table, unit) aug_handle)) hosts (visible hosts)"
  "edits_entries (hd_ops (default_handle (table_aug hosts) :: (host_table, unit) aug_handle)) hosts (visible hosts)"
  "reads_entries (hd_ops (default_handle (table_aug hosts) :: (host_table, unit) aug_handle)) hosts (visible hosts)"
proof -
  have "query_name hosts (listing hosts) = None" by code_simp
  then have "reads_entries (table_aug hosts) hosts (visible hosts)" by (rule hosts.table_reads) auto
  then show "finds_entries (hd_ops (default_handle (table_aug hosts) :: (host_table, unit) aug_handle)) hosts (visible hosts)"
    "edits_entries (hd_ops (default_handle (table_aug hosts) :: (host_table, unit) aug_handle)) hosts (visible hosts)"
    "reads_entries (hd_ops (default_handle (table_aug hosts) :: (host_table, unit) aug_handle)) hosts (visible hosts)"
    by (simp_all add: default_handle_def table_finds hosts.table_edits)
qed

lemma demo_host_plain: "plain_name (upd_name demo_host_update)"
  by (simp add: demo_host_update_def upd_name_def plain_name_def)

theorem host_update_refines_witness:
  "\<exists>s'. host_set_one (default_handle (table_aug hosts)) demo_host_update demo_host_state = (Ok (), s') \<and>
     visible hosts (aw_aug (p_world s')) = host_spec (new_path hosts 1) demo_host_update (visible hosts (aw_aug (p_world demo_host_state)))"
proof -
  obtain s' where run: "host_set_one (default_handle (table_aug hosts) :: (host_table, unit) aug_handle) demo_host_update demo_host_state = (Ok (), s')"
    using demo_host_run by (auto split: prod.splits outcome.splits)
  from host_update_refines [OF demo_hosts_view(1,2) demo_host_plain run demo_host_fresh] run show ?thesis by (auto simp: demo_host_state_def)
qed

theorem host_read_back_witness:
  "\<exists>s' rs s''. host_set_one (default_handle (table_aug hosts)) demo_host_update demo_host_state = (Ok (), s') \<and>
     host_get (default_handle (table_aug hosts)) [] s' = (Ok rs, s'') \<and>
     filter (\<lambda>r. res_name r = ''web'') rs = [host_row (wanted_host demo_host_update)]"
proof -
  obtain s' where run: "host_set_one (default_handle (table_aug hosts) :: (host_table, unit) aug_handle) demo_host_update demo_host_state = (Ok (), s')"
    using demo_host_run by (auto split: prod.splits outcome.splits)
  with demo_host_run obtain rs s'' where get: "host_get (default_handle (table_aug hosts) :: (host_table, unit) aug_handle) [] s' = (Ok rs, s'')"
    by (cases "host_get (default_handle (table_aug hosts) :: (host_table, unit) aug_handle) [] s'") (auto elim!: is_Ok.elims)
  have "distinct (new_path hosts (aw_seq (p_world demo_host_state) + 1) # map fst (visible hosts (aw_aug (p_world demo_host_state))))"
    by code_simp
  from host_read_back [OF demo_hosts_view demo_host_plain run get this] have
    "filter (\<lambda>r. res_name r = ''web'') rs = [host_row (wanted_host demo_host_update)]"
    by (simp add: demo_host_update_def upd_name_def wanted_ensure_def lookup_val val_at_put)
  with run get show ?thesis by blast
qed

end
