(* ===== verification/HostRuns.thy ===== *)
theory HostRuns
  imports HostTable
begin

section \<open>Runs of the host provider\<close>

text \<open>
  What the operations of the base class and of the host provider (\<open>lib/src/provider.cc\<close>, \<open>lib/src/host.cc\<close>) give
  together: setting several hosts and saving brings each of them to its desired state and leaves the others alone,
  and doing the same once more changes nothing.
\<close>

subsection \<open>The entries of a name\<close>

text \<open>The table as a map from names to entries, which forgets the paths.\<close>

definition host_of :: "string \<Rightarrow> host_table \<Rightarrow> host_entry list" where
  "host_of n t = filter (named hosts n) (map snd t)"

definition wanted_hosts :: "update \<Rightarrow> host_entry list" where
  "wanted_hosts u = (if wanted_ensure u = ''present'' then [wanted_host u] else [])"

lemma named_hosts_unique: "named hosts m e \<Longrightarrow> named hosts n e \<Longrightarrow> m = n"
  by (simp add: named_host)

lemma host_of_other_put:
  assumes "distinct (map fst t)" and "entries_of hosts n t = [p]" and "named hosts n e" and "m \<noteq> n"
  shows "host_of m (put_entry p e t) = host_of m t"
proof -
  have p: "p \<in> fst ` set t" by (rule entries_of_path [OF assms(2)])
  have not_m: "\<not> named hosts m e" using named_hosts_unique [OF assms(3)] assms(4) by blast
  have other: "q \<noteq> p" if "(q, f) \<in> set t" "named hosts m f" for q f
    using only_entry [OF assms(1,2) that(1)] named_hosts_unique [OF that(2)] assms(4) by auto
  have "filter (named hosts m) (map (\<lambda>(q, f). if q = p then e else f) xs) = filter (named hosts m) (map snd xs)"
    if "set xs \<subseteq> set t" for xs
    using that other not_m by (induction xs) (auto split: if_splits)
  from this [of t] p show ?thesis by (simp add: host_of_def put_entry_def comp_def split_def)
qed

lemma host_of_other_drop:
  assumes "distinct (map fst t)" and "entries_of hosts n t = [p]" and "m \<noteq> n"
  shows "host_of m (drop_entry p t) = host_of m t"
proof -
  have "filter (named hosts m) (map snd (drop_named hosts n xs)) = filter (named hosts m) (map snd xs)" for xs
    using assms(3) by (induction xs) (auto simp: drop_named_def dest: named_hosts_unique)
  with drop_only [OF assms(1,2)] show ?thesis by (simp add: host_of_def)
qed

lemma host_of_spec:
  assumes "length (entries_of hosts (upd_name u) t) \<le> 1" and "distinct (new # map fst t)" and "wanted_ensure u \<in> {''present'', ''absent''}"
  shows "host_of m (host_spec new u t) = (if m = upd_name u then wanted_hosts u else host_of m t)"
proof (cases "m = upd_name u")
  case True
  with host_spec_rows(1) [OF assms] show ?thesis by (simp add: host_of_def wanted_hosts_def)
next
  case False
  have wanted: "named hosts (upd_name u) (wanted_host u)" by (simp add: named_host wanted_host_def)
  with False have "\<not> named hosts m (wanted_host u)" by (auto dest: named_hosts_unique)
  then have add: "host_of m (t @ [(new, wanted_host u)]) = host_of m t" by (simp add: host_of_def)
  consider "entries_of hosts (upd_name u) t = []" | p where "entries_of hosts (upd_name u) t = [p]"
    using assms(1) by (cases "entries_of hosts (upd_name u) t") auto
  then show ?thesis
  proof cases
    case 1
    with False add show ?thesis by (simp add: host_spec_def)
  next
    case 2
    with False host_of_other_put [OF _ 2 wanted False] host_of_other_drop [OF _ 2 False] assms(2) show ?thesis
      by (simp add: host_spec_def)
  qed
qed

text \<open>The paths of the entries differ, and those that will be made are not taken.\<close>

definition paths_free :: "('a \<Rightarrow> host_table) \<Rightarrow> ('a, 'w) aug_world \<Rightarrow> bool" where
  "paths_free tab w \<longleftrightarrow> distinct (map fst (tab (aw_aug w))) \<and> (\<forall>i > aw_seq w. new_path hosts i \<notin> fst ` set (tab (aw_aug w)))"

lemma paths_free_fresh: "paths_free tab w \<Longrightarrow> distinct (new_path hosts (aw_seq w + 1) # map fst (tab (aw_aug w)))"
  by (simp add: paths_free_def)

lemma host_spec_paths:
  "fst ` set (host_spec new u t) \<subseteq> (if entries_of hosts (upd_name u) t = [] then insert new (fst ` set t) else fst ` set t)"
proof -
  have put: "fst ` set (put_entry p e t) = insert p (fst ` set t)" for p and e :: host_entry
  proof -
    have "set (map fst (put_entry p e t)) = insert p (set (map fst t))" unfolding paths_put by (simp add: insert_absorb)
    then show ?thesis by (simp only: list.set_map)
  qed
  have drop: "fst ` set (drop_entry p t) \<subseteq> fst ` set t" for p by (auto simp: drop_entry_def)
  show ?thesis
  proof (cases "entries_of hosts (upd_name u) t")
    case Nil
    then show ?thesis by (auto simp: host_spec_def)
  next
    case (Cons p ps)
    with entries_of_path [OF Cons] put drop show ?thesis by (simp add: host_spec_def insert_absorb)
  qed
qed

subsection \<open>Setting several hosts\<close>

lemma host_step:
  assumes finds: "finds_entries (hd_ops h) hosts tab" and edits: "edits_entries (hd_ops h) hosts tab"
    and plain: "plain_name (upd_name u)" and run: "host_set_one h u s = (Ok (), s')" and free: "paths_free tab (p_world s)"
  shows "paths_free tab (p_world s')" and "wanted_ensure u \<in> {''present'', ''absent''}"
    and "length (host_of (upd_name u) (tab (tree s))) \<le> 1"
    and "host_of m (tab (tree s')) = (if m = upd_name u then wanted_hosts u else host_of m (tab (tree s)))"
proof -
  let ?t = "tab (tree s)" and ?new = "new_path hosts (aw_seq (p_world s) + 1)"
  have fresh: "distinct (?new # map fst ?t)" by (rule paths_free_fresh [OF free])
  then have "?new \<notin> fst ` set ?t" by simp
  from host_update_table [OF finds edits plain run this]
  have upd: "wanted_ensure u \<in> {''present'', ''absent''}" "length (entries_of hosts (upd_name u) ?t) \<le> 1"
      "tab (tree s') = host_spec ?new u ?t"
      "aw_seq (p_world s') = (if entries_of hosts (upd_name u) ?t = [] then aw_seq (p_world s) + 1 else aw_seq (p_world s))" by blast+
  show "wanted_ensure u \<in> {''present'', ''absent''}" by (rule upd(1))
  show "length (host_of (upd_name u) ?t) \<le> 1" using upd(2) by (simp add: host_of_def filter_snd entries_of_def)
  show "host_of m (tab (tree s')) = (if m = upd_name u then wanted_hosts u else host_of m ?t)"
    unfolding upd(3) by (rule host_of_spec [OF upd(2) fresh upd(1)])
  have "new_path hosts i \<notin> fst ` set (host_spec ?new u ?t)" if i: "i > aw_seq (p_world s')" for i
  proof
    assume "new_path hosts i \<in> fst ` set (host_spec ?new u ?t)"
    then have "new_path hosts i \<in> (if entries_of hosts (upd_name u) ?t = [] then insert ?new (fst ` set ?t) else fst ` set ?t)"
      using host_spec_paths by blast
    moreover have "new_path hosts j \<notin> fst ` set ?t" if "j > aw_seq (p_world s)" for j using free that by (simp add: paths_free_def)
    ultimately show False using i upd(4) new_path_inj [of hosts i "aw_seq (p_world s) + 1"] by (auto split: if_splits)
  qed
  with host_spec_rows(2) [OF upd(2) fresh upd(1)] show "paths_free tab (p_world s')"
    unfolding paths_free_def upd(3) by blast
qed

text \<open>The entries of a name after a list of updates.\<close>

fun after_updates :: "update list \<Rightarrow> string \<Rightarrow> host_entry list \<Rightarrow> host_entry list" where
  "after_updates [] m es = es"
| "after_updates (u # us) m es = after_updates us m (if m = upd_name u then wanted_hosts u else es)"

lemma after_updates_other: "m \<notin> upd_name ` set us \<Longrightarrow> after_updates us m es = es"
  by (induction us) auto

lemma after_updates_only:
  "distinct (map upd_name us) \<Longrightarrow> u \<in> set us \<Longrightarrow> after_updates us (upd_name u) es = wanted_hosts u"
  by (induction us arbitrary: es) (auto simp: after_updates_other)

lemma host_steps:
  assumes finds: "finds_entries (hd_ops h) hosts tab" and edits: "edits_entries (hd_ops h) hosts tab"
    and "\<And>u. u \<in> set us \<Longrightarrow> plain_name (upd_name u)" and "for_each (host_set_one h) us s = (Ok (), s')" and "paths_free tab (p_world s)"
  shows "paths_free tab (p_world s') \<and> (\<forall>u \<in> set us. wanted_ensure u \<in> {''present'', ''absent''} \<and> length (host_of (upd_name u) (tab (tree s))) \<le> 1) \<and>
    (\<forall>m. host_of m (tab (tree s')) = after_updates us m (host_of m (tab (tree s))))"
  using assms(3-5)
proof (induction us arbitrary: s)
  case (Cons u us)
  then obtain s1 where one: "host_set_one h u s = (Ok (), s1)" and rest: "for_each (host_set_one h) us s1 = (Ok (), s')"
    by (auto simp: bnd_Ok_iff)
  from Cons.prems(1) have "plain_name (upd_name u)" by simp
  note step = host_step [OF finds edits this one Cons.prems(3)]
  have IH: "paths_free tab (p_world s')" "\<forall>v \<in> set us. wanted_ensure v \<in> {''present'', ''absent''} \<and> length (host_of (upd_name v) (tab (tree s1))) \<le> 1"
      "\<And>m. host_of m (tab (tree s')) = after_updates us m (host_of m (tab (tree s1)))"
    using Cons.IH [OF _ rest step(1)] Cons.prems(1) by auto
  have "length (host_of (upd_name v) (tab (tree s))) \<le> 1" if "v \<in> set us" for v
    using IH(2) that step(3) step(4) [of "upd_name v"] by (cases "upd_name v = upd_name u") auto
  with IH step(2-4) show ?case by auto
qed (simp add: ret_def)

lemma save_host_table:
  assumes "queries_safe (hd_ops h) hosts tab" and "writer_keeps h tab" and "host_set h us s = (Ok (), s')"
  obtains s1 where "for_each (host_set_one h) us s = (Ok (), s1)" and "same_table tab (p_world s1) (p_world s')"
    and "p_ctx s' = p_ctx s1"
proof -
  obtain s1 where "for_each (host_set_one h) us s = (Ok (), s1)" and "on_world (handle_save h) s1 = (Ok (), s')"
    using assms(3) by (auto simp: host_set_def bnd_Ok_iff)
  moreover from this save_keeps [OF queries_safe_matches [OF assms(1)] assms(2)] have "same_table tab (p_world s1) (p_world s')" "p_ctx s' = p_ctx s1"
    by (auto simp: on_world_eq)
  ultimately show ?thesis using that by blast
qed

text \<open>What \<open>get\<close> reports of a name.\<close>

lemma get_rows_of:
  assumes "finds_entries (hd_ops h) hosts tab" and "reads_entries (hd_ops h) hosts tab" and "host_get h names s = (Ok rs, s')"
    and "distinct (map fst (tab (tree s)))"
  shows "filter (\<lambda>r. res_name r = m) rs =
    (let es = host_of m (tab (tree s)) in if es = [] \<and> m \<in> set names then [absent_resource m] else map host_row es)"
proof -
  note rows = host_get_rows [OF assms]
  have "filter (\<lambda>r. res_name r = m) (map host_row (map snd (tab (tree s)))) = map host_row (host_of m (tab (tree s)))"
    unfolding host_of_def by (rule rows_of_name [OF rows(2)])
  then show ?thesis unfolding rows(1) add_absent_of_name by (simp add: Let_def)
qed

text \<open>C5: after setting several hosts without an error, \<open>get\<close> reports each of them exactly once, as it was asked for, or, if it
  was to be removed, as absent at most; all other hosts are reported as before.\<close>

theorem host_set_read_back:
  assumes finds: "finds_entries (hd_ops h) hosts tab" and edits: "edits_entries (hd_ops h) hosts tab"
    and reads: "reads_entries (hd_ops h) hosts tab" and queries: "queries_safe (hd_ops h) hosts tab" and writer: "writer_keeps h tab"
    and plain: "\<And>u. u \<in> set us \<Longrightarrow> plain_name (upd_name u)" and names: "distinct (map upd_name us)"
    and free: "paths_free tab (p_world s)"
    and run: "host_set h us s = (Ok (), s')" and get: "host_get h ns s' = (Ok rs, s'')"
  shows "(\<forall>u \<in> set us. filter (\<lambda>r. res_name r = upd_name u) rs =
      (if wanted_ensure u = ''present'' then [host_row (wanted_host u)]
       else if upd_name u \<in> set ns then [absent_resource (upd_name u)] else [])) \<and>
    (\<forall>m. m \<notin> upd_name ` set us \<longrightarrow> filter (\<lambda>r. res_name r = m) rs =
      (let es = host_of m (tab (aw_aug (p_world s))) in if es = [] \<and> m \<in> set ns then [absent_resource m] else map host_row es))"
proof -
  obtain s1 where steps: "for_each (host_set_one h) us s = (Ok (), s1)" and same: "same_table tab (p_world s1) (p_world s')"
    using save_host_table [OF queries writer run] by blast
  from host_steps [OF finds edits plain steps free]
  have t: "paths_free tab (p_world s1)" "\<And>m. host_of m (tab (tree s1)) = after_updates us m (host_of m (tab (tree s)))" by blast+
  from t(1) same have "distinct (map fst (tab (tree s')))" by (simp add: paths_free_def same_table_def)
  note rows = get_rows_of [OF finds reads get this]
  have rows: "filter (\<lambda>r. res_name r = m) rs = (let es = after_updates us m (host_of m (tab (tree s))) in
      if es = [] \<and> m \<in> set ns then [absent_resource m] else map host_row es)" for m
    using rows [of m] t(2) [of m] same by (simp add: same_table_def)
  show ?thesis
  proof (intro conjI ballI allI impI)
    fix u assume "u \<in> set us"
    from rows [of "upd_name u"] after_updates_only [OF names this]
    show "filter (\<lambda>r. res_name r = upd_name u) rs =
      (if wanted_ensure u = ''present'' then [host_row (wanted_host u)]
       else if upd_name u \<in> set ns then [absent_resource (upd_name u)] else [])" by (simp add: wanted_hosts_def)
  next
    fix m assume "m \<notin> upd_name ` set us"
    with rows [of m] show "filter (\<lambda>r. res_name r = m) rs =
      (let es = host_of m (tab (tree s)) in if es = [] \<and> m \<in> set ns then [absent_resource m] else map host_row es)"
      by (simp add: after_updates_other)
  qed
qed

subsection \<open>A second run\<close>

lemma val_at_opt: "val_at (opt_attr k v r) = (case v of None \<Rightarrow> val_at r | Some t \<Rightarrow> (val_at r)(k := VStr t))"
  by (auto simp: opt_attr_def val_at_put split: option.split)

lemma host_row_vals:
  "val_at (host_row e) ''ensure'' = VStr ''present''"
  "val_at (host_row e) ''ip'' = (case he_ip e of None \<Rightarrow> VNone | Some x \<Rightarrow> VStr x)"
  "val_at (host_row e) ''comment'' = (case he_comment e of None \<Rightarrow> VNone | Some x \<Rightarrow> VStr x)"
  "val_at (host_row e) ''host_aliases'' = (if he_aliases e = [] then VNone else VArr (he_aliases e))"
  by (simp_all add: host_row_def Let_def val_at_put val_at_opt split: option.split)

text \<open>
  The desired states that can be recognised afterwards: \<open>ensure\<close>, the address and the comment are strings, and the aliases
  are not the empty array, which \<open>get\<close> does not report.
\<close>

definition recognisable :: "resource \<Rightarrow> bool" where
  "recognisable r \<longleftrightarrow> (\<forall>k \<in> {''ensure'', ''ip'', ''comment''}. val_at r k = VNone \<or> (\<exists>s. val_at r k = VStr s)) \<and>
     (val_at r ''host_aliases'' = VNone \<or> (\<exists>xs. xs \<noteq> [] \<and> val_at r ''host_aliases'' = VArr xs))"

text \<open>An update whose host is as an earlier update with the same desired state left it.\<close>

definition settled_host :: "update \<Rightarrow> update \<Rightarrow> bool" where
  "settled_host u v \<longleftrightarrow> upd_should v = upd_should u \<and> upd_name v = upd_name u \<and>
     (if wanted_ensure u = ''present'' then upd_is v = host_row (wanted_host u) else upd_is v = absent_resource (upd_name u))"

lemma settled_host_ensure:
  assumes "settled_host u v" and "recognisable (upd_should u)" and "wanted_ensure u \<in> {''present'', ''absent''}"
  shows "wanted_ensure v = wanted_ensure u" and "\<not> differs v ''ensure''"
proof -
  have state: "val_at (upd_is v) ''ensure'' = VStr (wanted_ensure u)"
    using assms(1,3) by (auto simp: settled_host_def host_row_vals absent_resource_def val_at_put split: if_splits)
  moreover have "upd_should v = upd_should u" using assms(1) by (simp add: settled_host_def)
  moreover have "val_at (upd_should u) ''ensure'' = VNone \<or> (\<exists>x. val_at (upd_should u) ''ensure'' = VStr x)"
    using assms(2) by (simp add: recognisable_def)
  ultimately have "wanted_ensure v = wanted_ensure u \<and> \<not> differs v ''ensure''"
    by (auto simp: wanted_ensure_def differs_def lookup_val)
  then show "wanted_ensure v = wanted_ensure u" "\<not> differs v ''ensure''" by blast+
qed

lemma settled_host_attrs:
  assumes settled: "settled_host u v" and good: "recognisable (upd_should u)" and present: "wanted_ensure u = ''present''"
  shows "wanted_host v = wanted_host u" and "k \<in> {''ip'', ''host_aliases'', ''comment''} \<Longrightarrow> \<not> differs v k"
proof -
  let ?e = "wanted_host u"
  have v: "upd_should v = upd_should u" "upd_is v = host_row ?e" "upd_name v = upd_name u"
    using settled present by (simp_all add: settled_host_def)
  have ip: "val_at (upd_should u) ''ip'' \<noteq> VNone \<Longrightarrow> val_at (host_row ?e) ''ip'' = val_at (upd_should u) ''ip''"
    and comment: "val_at (upd_should u) ''comment'' \<noteq> VNone \<Longrightarrow> val_at (host_row ?e) ''comment'' = val_at (upd_should u) ''comment''"
    and aliases: "val_at (upd_should u) ''host_aliases'' \<noteq> VNone \<Longrightarrow> val_at (host_row ?e) ''host_aliases'' = val_at (upd_should u) ''host_aliases''"
    using good by (auto simp: recognisable_def host_row_vals wanted_host_def wanted_value_def text_of_def)
  then show "k \<in> {''ip'', ''host_aliases'', ''comment''} \<Longrightarrow> \<not> differs v k" by (auto simp: differs_def v)
  have wanted: "wanted_value v ''ip'' = val_at (host_row ?e) ''ip''" "wanted_value v ''comment'' = val_at (host_row ?e) ''comment''"
      "wanted_value v ''host_aliases'' = val_at (host_row ?e) ''host_aliases''"
    using ip comment aliases by (auto simp: wanted_value_def v)
  have "text_of (val_at (host_row ?e) ''ip'') = he_ip ?e" "text_of (val_at (host_row ?e) ''comment'') = he_comment ?e"
      "(case as_array (val_at (host_row ?e) ''host_aliases'') of Some xs \<Rightarrow> xs | None \<Rightarrow> []) = he_aliases ?e"
    by (simp_all add: host_row_vals text_of_def split: option.split)
  moreover have "he_canonical ?e = Some (upd_name v)" by (simp add: wanted_host_def v)
  ultimately show "wanted_host v = ?e" by (subst wanted_host_def) (simp add: wanted)
qed

lemma put_same: "distinct (map fst t) \<Longrightarrow> (p, e) \<in> set t \<Longrightarrow> put_entry p e t = t"
  by (force simp: put_entry_def intro!: map_idI dest: eq_key_imp_eq_value)

lemma settled_spec:
  assumes settled: "settled_host u v" and good: "recognisable (upd_should u)" and wanted: "wanted_ensure u \<in> {''present'', ''absent''}"
    and distinct: "distinct (map fst t)" and rows: "host_of (upd_name u) t = wanted_hosts u"
  shows "host_spec new v t = t"
proof (cases "wanted_ensure u = ''present''")
  case False
  then have "entries_of hosts (upd_name v) t = []"
    using rows settled by (simp add: host_of_def wanted_hosts_def settled_host_def filter_snd entries_of_def)
  moreover have "wanted_ensure v \<noteq> ''present''" using settled_host_ensure(1) [OF settled good wanted] False by simp
  ultimately show ?thesis by (simp add: host_spec_def)
next
  case True
  with rows have "map snd (filter (\<lambda>(p, e). named hosts (upd_name u) e) t) = [wanted_host u]"
    by (simp add: host_of_def wanted_hosts_def filter_snd)
  then obtain p where p: "filter (\<lambda>(p, e). named hosts (upd_name u) e) t = [(p, wanted_host u)]" by auto
  then have "(p, wanted_host u) \<in> set t" by (auto dest!: filter_eq_ConsD)
  moreover have "entries_of hosts (upd_name v) t = [p]" using p settled by (simp add: entries_of_def settled_host_def)
  moreover have "wanted_ensure v = ''present''" using settled_host_ensure(1) [OF settled good wanted] True by simp
  ultimately show ?thesis
    using settled_host_attrs(1) [OF settled good True] distinct by (simp add: host_spec_def put_same)
qed

lemma changes_add_none:
  assumes "''name'' \<notin> set as" and "\<And>k. k \<in> set as \<Longrightarrow> \<not> differs u k" and "add_changes as u s = (Ok x, s')"
  shows "changes_of (p_ctx s') = changes_of (p_ctx s)" and "p_world s' = p_world s"
proof -
  have "filter (differs u) as = []" using assms(2) by (simp add: filter_empty_conv)
  with add_changes_run [OF assms(1), of u s] assms(3) show "changes_of (p_ctx s') = changes_of (p_ctx s)" "p_world s' = p_world s"
    by (auto simp: fun_eq_iff changes_of_set)
qed

text \<open>An update of a settled host, and a list of them.\<close>

definition left_by :: "('a \<Rightarrow> host_table) \<Rightarrow> ('a, 'w) aug_world \<Rightarrow> update \<Rightarrow> bool" where
  "left_by tab w v \<longleftrightarrow> plain_name (upd_name v) \<and> (\<exists>u. settled_host u v \<and> recognisable (upd_should u) \<and>
     wanted_ensure u \<in> {''present'', ''absent''} \<and> host_of (upd_name u) (tab (aw_aug w)) = wanted_hosts u)"

lemma quiet_changes:
  assumes "settled_host u v" and "recognisable (upd_should u)" and "wanted_ensure u \<in> {''present'', ''absent''}"
    and run: "host_set_one h v s = (Ok (), s')"
  shows "changes_of (p_ctx s') = changes_of (p_ctx s)"
proof -
  note ens = settled_host_ensure [OF assms(1-3)]
  have keep: "changes_of (p_ctx t') = changes_of (p_ctx t)" if "\<And>n. keeps_changes n m" "m t = (r, t')"
    for m :: "(('a, 'b) aug_prov, 'c) prog" and t t' r
    using keeps_changesD [OF that(1) that(2)] by (simp add: fun_eq_iff)
  obtain x t where add: "add_changes [''ensure''] v s = (Ok x, t)"
    and rest: "(if wanted_ensure v = ''present'' then bnd (add_changes [''ip'', ''host_aliases'', ''comment''] v) (\<lambda>_. host_update_base h v)
      else if wanted_ensure v = ''absent'' then bnd (attempt (host_base h v)) (\<lambda>r. bnd (lift (res_ok r)) (\<lambda>n. with_aug (node_rm h n)))
      else fail (''ensure has illegal value '' @ quoted (wanted_ensure v))) t = (Ok (), s')"
    using run unfolding host_set_one_def Let_def wanted_ensure_def [symmetric] bnd_Ok_iff by blast
  have "changes_of (p_ctx t) = changes_of (p_ctx s)" using changes_add_none(1) [OF _ _ add] ens(2) by simp
  moreover have "changes_of (p_ctx s') = changes_of (p_ctx t)"
  proof (cases "wanted_ensure v = ''present''")
    case True
    with rest obtain y t1 where more: "add_changes [''ip'', ''host_aliases'', ''comment''] v t = (Ok y, t1)"
        and update: "host_update_base h v t1 = (Ok (), s')" by (auto simp: bnd_Ok_iff)
    have "wanted_ensure u = ''present''" using True ens(1) by simp
    from settled_host_attrs(2) [OF assms(1,2) this] have "changes_of (p_ctx t1) = changes_of (p_ctx t)"
      using changes_add_none(1) [OF _ _ more] by simp
    moreover have "changes_of (p_ctx s') = changes_of (p_ctx t1)" by (rule keep [OF keeps_host_update_base update])
    ultimately show ?thesis by simp
  next
    case False
    with ens(1) assms(3) have "bnd (attempt (host_base h v)) (\<lambda>r. bnd (lift (res_ok r)) (\<lambda>n. with_aug (node_rm h n))) t = (Ok (), s')"
      using rest by simp
    then show ?thesis by (rule keep [rotated]) (intro keeps_intros)
  qed
  ultimately show ?thesis by simp
qed

lemma quiet_step:
  assumes finds: "finds_entries (hd_ops h) hosts tab" and edits: "edits_entries (hd_ops h) hosts tab"
    and left: "left_by tab (p_world s) v" and free: "paths_free tab (p_world s)" and run: "host_set_one h v s = (Ok (), s')"
  shows "tab (tree s') = tab (tree s)" and "changes_of (p_ctx s') = changes_of (p_ctx s)" and "paths_free tab (p_world s')"
proof -
  obtain u where u: "settled_host u v" "recognisable (upd_should u)" "wanted_ensure u \<in> {''present'', ''absent''}"
      "host_of (upd_name u) (tab (tree s)) = wanted_hosts u" and plain: "plain_name (upd_name v)"
    using left by (auto simp: left_by_def)
  show "changes_of (p_ctx s') = changes_of (p_ctx s)" by (rule quiet_changes [OF u(1-3) run])
  show "paths_free tab (p_world s')" by (rule host_step(1) [OF finds edits plain run free])
  from paths_free_fresh [OF free] have "new_path hosts (aw_seq (p_world s) + 1) \<notin> fst ` set (tab (tree s))" "distinct (map fst (tab (tree s)))"
    by simp_all
  with host_update_table [OF finds edits plain run] settled_spec [OF u(1-3) _ u(4)] show "tab (tree s') = tab (tree s)" by simp
qed

lemma quiet_steps:
  assumes finds: "finds_entries (hd_ops h) hosts tab" and edits: "edits_entries (hd_ops h) hosts tab"
    and "\<And>v. v \<in> set vs \<Longrightarrow> left_by tab (p_world s) v" and "paths_free tab (p_world s)" and "for_each (host_set_one h) vs s = (Ok (), s')"
  shows "tab (tree s') = tab (tree s) \<and> changes_of (p_ctx s') = changes_of (p_ctx s)"
  using assms(3-5)
proof (induction vs arbitrary: s)
  case (Cons v vs)
  then obtain s1 where one: "host_set_one h v s = (Ok (), s1)" and rest: "for_each (host_set_one h) vs s1 = (Ok (), s')"
    by (auto simp: bnd_Ok_iff)
  have "left_by tab (p_world s) v" using Cons.prems(1) by simp
  note step = quiet_step [OF finds edits this Cons.prems(2) one]
  have "left_by tab (p_world s1) w" if "w \<in> set vs" for w using Cons.prems(1) [of w] that step(1) by (simp add: left_by_def)
  from Cons.IH [OF this step(3) rest] step(1,2) show ?case by simp
qed (simp add: ret_def)

subsection \<open>Two runs of the base class\<close>

lemma build_updates_one:
  assumes "\<And>r. r \<in> set shoulds \<Longrightarrow> length (filter (\<lambda>i. res_name i = res_name r) iss) = 1"
  shows "build_updates shoulds iss = map (\<lambda>r. \<lparr>upd_is = hd (filter (\<lambda>i. res_name i = res_name r) iss), upd_should = r\<rparr>) shoulds"
  using assms
proof (induction shoulds)
  case (Cons r rs)
  then have "length (filter (\<lambda>i. res_name i = res_name r) iss) = 1" by simp
  then obtain i where "filter (\<lambda>i. res_name i = res_name r) iss = [i]" by (auto simp: length_Suc_conv)
  with Cons show ?case by simp
qed simp

lemma provider_set_host:
  assumes "provider_set (host_provider h sp) shoulds w = (Ok x, w')"
  obtains iss s1 s2 where "host_get h (map res_name shoulds) (start (host_provider h sp) w) = (Ok iss, s1)"
    and "host_set h (build_updates shoulds iss) s1 = (Ok (), s2)" and "w' = p_world s2"
    and "x = map (\<lambda>u. (u, changes_of (p_ctx s2) (upd_name u))) (build_updates shoulds iss)"
  using assms by (auto simp: provider_set_def host_provider_def Let_def split: prod.splits outcome.splits)

lemma host_get_seq: "host_get h ns s = (Ok rs, s') \<Longrightarrow> aw_seq (p_world s') = aw_seq (p_world s)"
  by (auto simp: host_get_def bnd_Ok_iff with_aug_Ok ret_def)

text \<open>The current state that an update has after \<open>get\<close>.\<close>

definition reported :: "string \<Rightarrow> host_entry list \<Rightarrow> resource" where
  "reported n es = (case es of [] \<Rightarrow> absent_resource n | e # _ \<Rightarrow> host_row e)"

lemma res_name_reported: "\<forall>e \<in> set es. named hosts n e \<Longrightarrow> res_name (reported n es) = n"
  by (cases es) (simp_all add: reported_def named_host host_row_name)

lemma updates_after_get:
  assumes "finds_entries (hd_ops h) hosts tab" and "reads_entries (hd_ops h) hosts tab"
    and get: "host_get h (map res_name shoulds) s = (Ok iss, s')" and distinct: "distinct (map fst (tab (tree s)))"
    and one: "\<And>r. r \<in> set shoulds \<Longrightarrow> length (host_of (res_name r) (tab (tree s))) \<le> 1"
  shows "build_updates shoulds iss = map (\<lambda>r. \<lparr>upd_is = reported (res_name r) (host_of (res_name r) (tab (tree s))), upd_should = r\<rparr>) shoulds"
proof -
  have filter: "filter (\<lambda>i. res_name i = res_name r) iss = [reported (res_name r) (host_of (res_name r) (tab (tree s)))]"
    if "r \<in> set shoulds" for r
    using get_rows_of [OF assms(1-2) get distinct, of "res_name r"] one [OF that] that
    by (cases "host_of (res_name r) (tab (tree s))") (auto simp: reported_def Let_def)
  then have "build_updates shoulds iss = map (\<lambda>r. \<lparr>upd_is = hd (filter (\<lambda>i. res_name i = res_name r) iss), upd_should = r\<rparr>) shoulds"
    by (intro build_updates_one) simp
  with filter show ?thesis by simp
qed

lemma named_of: "e \<in> set (host_of n t) \<Longrightarrow> named hosts n e"
  by (simp add: host_of_def)

definition updates_for :: "host_table \<Rightarrow> resource list \<Rightarrow> update list" where
  "updates_for t shoulds = map (\<lambda>r. \<lparr>upd_is = reported (res_name r) (host_of (res_name r) t), upd_should = r\<rparr>) shoulds"

lemma updates_for_simps:
  "map upd_name (updates_for t shoulds) = map res_name shoulds" "map upd_should (updates_for t shoulds) = shoulds"
  by (simp_all add: updates_for_def comp_def upd_name_def res_name_reported named_of)

lemma host_run:
  assumes finds: "finds_entries (hd_ops h) hosts tab" and edits: "edits_entries (hd_ops h) hosts tab"
    and reads: "reads_entries (hd_ops h) hosts tab" and queries: "queries_safe (hd_ops h) hosts tab" and writer: "writer_keeps h tab"
    and plain: "\<And>r. r \<in> set shoulds \<Longrightarrow> plain_name (res_name r)" and free: "paths_free tab w"
    and run: "provider_set (host_provider h sp) shoulds w = (Ok x, w')"
  obtains s s' where "for_each (host_set_one h) (updates_for (tab (aw_aug w)) shoulds) s = (Ok (), s')"
    and "same_table tab w (p_world s)" and "changes_of (p_ctx s) = (\<lambda>n. [])" and "same_table tab (p_world s') w'"
    and "x = map (\<lambda>u. (u, changes_of (p_ctx s') (upd_name u))) (updates_for (tab (aw_aug w)) shoulds)"
proof -
  let ?s0 = "start (host_provider h sp) w"
  obtain iss s1 s2 where get: "host_get h (map res_name shoulds) ?s0 = (Ok iss, s1)"
      and set: "host_set h (build_updates shoulds iss) s1 = (Ok (), s2)" and w': "w' = p_world s2"
      and x: "x = map (\<lambda>u. (u, changes_of (p_ctx s2) (upd_name u))) (build_updates shoulds iss)"
    using provider_set_host [OF run] by blast
  have start: "p_world ?s0 = w" "changes_of (p_ctx ?s0) = (\<lambda>n. [])" by (simp_all add: start_def fun_eq_iff)
  from host_get_table [OF finds reads get] host_get_seq [OF get] have same: "same_table tab w (p_world s1)"
    by (simp add: same_table_def start)
  have ctx: "changes_of (p_ctx s1) = (\<lambda>n. [])" using host_get_ctx [OF get] start by simp
  obtain s3 where steps: "for_each (host_set_one h) (build_updates shoulds iss) s1 = (Ok (), s3)"
      and saved: "same_table tab (p_world s3) (p_world s2)" "p_ctx s2 = p_ctx s3"
    using save_host_table [OF queries writer set] by blast
  have free1: "paths_free tab (p_world s1)" using free same by (simp add: paths_free_def same_table_def)
  have names: "plain_name (upd_name u)" if "u \<in> set (build_updates shoulds iss)" for u
    using build_updates_names [OF that] plain by simp
  have one: "length (host_of (res_name r) (tab (tree ?s0))) \<le> 1" if r: "r \<in> set shoulds" for r
  proof -
    obtain u where u: "u \<in> set (build_updates shoulds iss)" "upd_should u = r" using build_updates_each [OF r] by blast
    with build_updates_names [OF u(1)] host_steps [OF finds edits names steps free1] same start show ?thesis
      by (auto simp: same_table_def)
  qed
  have "distinct (map fst (tab (tree ?s0)))" using free by (simp add: start paths_free_def)
  from updates_after_get [OF finds reads get this one] have "build_updates shoulds iss = updates_for (tab (aw_aug w)) shoulds"
    by (simp add: updates_for_def start)
  with steps same ctx saved w' x show ?thesis by (intro that [of s1 s3]) simp_all
qed

text \<open>C6: when setting several hosts has succeeded, setting the same desired states again, if it reports no error, records no
  change of any of them and leaves the table of hosts as it is.\<close>

theorem host_second_run_quiet:
  assumes finds: "finds_entries (hd_ops h) hosts tab" and edits: "edits_entries (hd_ops h) hosts tab"
    and reads: "reads_entries (hd_ops h) hosts tab" and queries: "queries_safe (hd_ops h) hosts tab" and writer: "writer_keeps h tab"
    and plain: "\<And>r. r \<in> set shoulds \<Longrightarrow> plain_name (res_name r)" and good: "\<And>r. r \<in> set shoulds \<Longrightarrow> recognisable r"
    and names: "distinct (map res_name shoulds)" and free: "paths_free tab w"
    and first: "provider_set (host_provider h sp) shoulds w = (Ok x, w1)"
    and second: "provider_set (host_provider h sp) shoulds w1 = (Ok y, w2)"
  shows "map (upd_should \<circ> fst) y = shoulds \<and> (\<forall>(u, c) \<in> set y. c = []) \<and> tab (aw_aug w2) = tab (aw_aug w1)"
proof -
  let ?us = "updates_for (tab (aw_aug w)) shoulds" and ?vs = "updates_for (tab (aw_aug w1)) shoulds"
  have plain_us: "plain_name (upd_name u)" if "u \<in> set (updates_for t shoulds)" for u t
    using that plain by (auto simp: updates_for_def upd_name_def res_name_reported named_of)
  obtain s s' where run1: "for_each (host_set_one h) ?us s = (Ok (), s')" and to: "same_table tab w (p_world s)" "same_table tab (p_world s') w1"
    using host_run [OF finds edits reads queries writer plain free first] by blast
  have "paths_free tab (p_world s)" using free to(1) by (simp add: paths_free_def same_table_def)
  note steps = host_steps [OF finds edits plain_us [of _ "tab (aw_aug w)"] run1 this]
  have free1: "paths_free tab w1" using steps to(2) by (simp add: paths_free_def same_table_def)
  have us: "distinct (map upd_name ?us)" by (simp add: updates_for_simps names)
  have rows: "host_of (upd_name u) (tab (aw_aug w1)) = wanted_hosts u" if "u \<in> set ?us" for u
    using steps to(2) after_updates_only [OF us that] by (simp add: same_table_def)
  obtain t t' where run2: "for_each (host_set_one h) ?vs t = (Ok (), t')" and to2: "same_table tab w1 (p_world t)" "same_table tab (p_world t') w2"
      and ctx: "changes_of (p_ctx t) = (\<lambda>n. [])" and y: "y = map (\<lambda>u. (u, changes_of (p_ctx t') (upd_name u))) ?vs"
    using host_run [OF finds edits reads queries writer plain free1 second] by blast
  have left: "left_by tab (p_world t) v" if v: "v \<in> set ?vs" for v
  proof -
    obtain r where r: "r \<in> set shoulds" "v = \<lparr>upd_is = reported (res_name r) (host_of (res_name r) (tab (aw_aug w1))), upd_should = r\<rparr>"
      using v by (auto simp: updates_for_def)
    let ?u = "\<lparr>upd_is = reported (res_name r) (host_of (res_name r) (tab (aw_aug w))), upd_should = r\<rparr>"
    have u: "?u \<in> set ?us" using r(1) by (auto simp: updates_for_def)
    have name: "upd_name ?u = res_name r" "upd_name v = res_name r" by (simp_all add: r(2) upd_name_def res_name_reported named_of)
    have "settled_host ?u v" using rows [OF u] name by (simp add: settled_host_def r(2) reported_def wanted_hosts_def)
    moreover have "wanted_ensure ?u \<in> {''present'', ''absent''}" using steps u by blast
    moreover have "host_of (upd_name ?u) (tab (tree t)) = wanted_hosts ?u" using rows [OF u] to2(1) by (simp add: same_table_def)
    moreover have "plain_name (upd_name v)" "recognisable (upd_should ?u)" using plain_us [OF v] good [OF r(1)] by simp_all
    ultimately show ?thesis unfolding left_by_def by blast
  qed
  have "paths_free tab (p_world t)" using free1 to2(1) by (simp add: paths_free_def same_table_def)
  from quiet_steps [OF finds edits left this run2] to2 ctx y show ?thesis
    by (auto simp: same_table_def updates_for_simps comp_def)
qed

text \<open>The proviso on the aliases is needed: asked for an empty array of aliases, every run reports a change of them.\<close>

lemma empty_aliases_differ:
  assumes "val_at (upd_should v) ''host_aliases'' = VArr []" and "upd_is v = host_row e"
  shows "differs v ''host_aliases''"
  using assms by (simp add: differs_def host_row_vals)

subsection \<open>On a library that keeps only the table\<close>

definition demo_hosts_world :: "(host_table, unit) aug_world" where
  "demo_hosts_world = \<lparr>aw_aug = [(''/files/etc/hosts/1'', demo_entry ''10'' ''db'')], aw_seq = 0, aw_sys = ()\<rparr>"

definition demo_wanted_host :: resource where
  "demo_wanted_host = put_attr ''host_aliases'' (VArr [''b'']) (put_attr ''ensure'' (VStr ''present'') (new_resource ''a''))"

lemma demo_host_runs:
  "case provider_set (host_provider (default_handle (table_aug hosts)) None) [demo_wanted_host] demo_hosts_world of
     (Ok x, w1) \<Rightarrow> is_Ok (fst (provider_set (host_provider (default_handle (table_aug hosts)) None) [demo_wanted_host] w1))
   | _ \<Rightarrow> False"
  by code_simp

lemma demo_hosts_laws:
  "queries_safe (hd_ops (default_handle (table_aug hosts) :: (host_table, unit) aug_handle)) hosts (visible hosts)"
  "writer_keeps (default_handle (table_aug hosts) :: (host_table, unit) aug_handle) (visible hosts)"
proof -
  show "queries_safe (hd_ops (default_handle (table_aug hosts) :: (host_table, unit) aug_handle)) hosts (visible hosts)"
    by (simp add: queries_safe_def matches_safe_def default_handle_def table_aug_def)
  show "writer_keeps (default_handle (table_aug hosts) :: (host_table, unit) aug_handle) (visible hosts)"
    by (rule default_writer_keeps) (simp add: table_aug_def)
qed

lemma demo_paths_free: "paths_free (visible hosts) demo_hosts_world"
proof -
  have "visible hosts (aw_aug demo_hosts_world) = [(''/files/etc/hosts/1'', demo_entry ''10'' ''db'')]" by code_simp
  moreover have "new_path hosts i \<noteq> ''/files/etc/hosts/1''" for i by (simp add: new_path_def hosts_def)
  ultimately show ?thesis by (simp add: paths_free_def)
qed

lemma demo_wanted_simps:
  "res_name demo_wanted_host = ''a''" "plain_name ''a''" "recognisable demo_wanted_host"
  by (simp_all add: demo_wanted_host_def plain_name_def recognisable_def val_at_put)

theorem host_second_run_quiet_witness:
  "\<exists>x w1 y w2. provider_set (host_provider (default_handle (table_aug hosts)) None) [demo_wanted_host] demo_hosts_world = (Ok x, w1) \<and>
     provider_set (host_provider (default_handle (table_aug hosts)) None) [demo_wanted_host] w1 = (Ok y, w2) \<and>
     (\<forall>(u, c) \<in> set y. c = []) \<and> visible hosts (aw_aug w2) = visible hosts (aw_aug w1)"
proof -
  let ?set = "provider_set (host_provider (default_handle (table_aug hosts) :: (host_table, unit) aug_handle) None) [demo_wanted_host]"
  obtain x w1 where first: "?set demo_hosts_world = (Ok x, w1)"
    using demo_host_runs by (auto split: prod.splits outcome.splits)
  with demo_host_runs obtain y w2 where second: "?set w1 = (Ok y, w2)"
    by (cases "?set w1") (auto elim!: is_Ok.elims)
  have "plain_name (res_name r)" "recognisable r" if "r \<in> set [demo_wanted_host]" for r using that demo_wanted_simps by simp_all
  from host_second_run_quiet [OF demo_hosts_view demo_hosts_laws this _ demo_paths_free first second] first second
  show ?thesis by simp
qed

definition demo_new_host :: update where
  "demo_new_host = \<lparr>upd_is = absent_resource ''a'', upd_should = demo_wanted_host\<rparr>"

lemma demo_host_set:
  "case host_set (default_handle (table_aug hosts)) [demo_new_host] \<lparr>p_ctx = new_context ''h'', p_world = demo_hosts_world\<rparr> of
     (Ok _, s) \<Rightarrow> is_Ok (fst (host_get (default_handle (table_aug hosts)) [] s))
   | _ \<Rightarrow> False"
  by code_simp

theorem host_set_read_back_witness:
  "\<exists>s' rs s''. host_set (default_handle (table_aug hosts)) [demo_new_host] \<lparr>p_ctx = new_context ''h'', p_world = demo_hosts_world\<rparr> = (Ok (), s') \<and>
     host_get (default_handle (table_aug hosts)) [] s' = (Ok rs, s'') \<and>
     filter (\<lambda>r. res_name r = ''a'') rs = [host_row (wanted_host demo_new_host)]"
proof -
  let ?h = "default_handle (table_aug hosts) :: (host_table, unit) aug_handle"
    and ?s = "\<lparr>p_ctx = new_context ''h'', p_world = demo_hosts_world\<rparr>"
  obtain s' where run: "host_set ?h [demo_new_host] ?s = (Ok (), s')"
    using demo_host_set by (auto split: prod.splits outcome.splits)
  with demo_host_set obtain rs s'' where get: "host_get ?h [] s' = (Ok rs, s'')"
    by (cases "host_get ?h [] s'") (auto elim!: is_Ok.elims)
  have name: "upd_name demo_new_host = ''a''" by (simp add: demo_new_host_def upd_name_def)
  have "wanted_ensure demo_new_host = ''present''"
    by (simp add: demo_new_host_def demo_wanted_host_def wanted_ensure_def lookup_val val_at_put)
  moreover have "plain_name (upd_name u)" if "u \<in> set [demo_new_host]" for u using that demo_wanted_simps(2) name by simp
  ultimately have "filter (\<lambda>r. res_name r = ''a'') rs = [host_row (wanted_host demo_new_host)]"
    using host_set_read_back [OF demo_hosts_view demo_hosts_laws, of "[demo_new_host]" ?s s' "[]" rs s''] run get demo_paths_free name
    by simp
  with run get show ?thesis by blast
qed

end
