(* ===== verification/Mount.thy ===== *)
theory Mount
  imports Host AttrSpec
begin

section \<open>The mount provider\<close>

text \<open>
  \<open>lib/src/mount.cc\<close>: entries of \<open>/etc/fstab\<close> and \<open>/etc/mtab\<close> through augeas, and the \<open>mount\<close> and
  \<open>umount\<close> commands, which run on the rest of the system.
\<close>

record 'w mount_cmds =
  mc_mount :: "string list \<Rightarrow> ('w, unit) prog"
  mc_umount :: "string list \<Rightarrow> ('w, unit) prog"

text \<open>The result of \<open>resolve\<close> is not looked at: a node that does not resolve keeps its pattern.\<close>

definition mount_base :: "('a, 'w) aug_handle \<Rightarrow> update \<Rightarrow> (('a, 'w) aug_prov, string) prog" where
  "mount_base h u =
     (if upd_present u
      then (let node = ''/files/etc/fstab/*[file = '' @ quoted (upd_name u) @ '']'' in
            bnd (attempt (with_aug (node_resolve h node))) (\<lambda>r. ret (case r of Ok p \<Rightarrow> p | _ \<Rightarrow> node)))
      else on_world (make_node_seq_next ''/files/etc/fstab''))"

definition mount_make :: "('a, 'w) aug_handle \<Rightarrow> string \<Rightarrow> string \<Rightarrow> string \<Rightarrow> ('a, resource) prog" where
  "mount_make h name base ens =
     bnd (node_extract h base (new_resource name) ''device'' ''spec'' None) (\<lambda>r1.
     bnd (node_extract h base r1 ''fstype'' ''vfstype'' None) (\<lambda>r2.
     bnd (node_extract h base r2 ''options'' ''options'' (Some ''defaults'')) (\<lambda>r3.
     bnd (node_extract h base r3 ''dump'' ''dump'' (Some ''0'')) (\<lambda>r4.
     bnd (node_extract h base r4 ''pass'' ''passno'' (Some ''0'')) (\<lambda>r5.
       ret (put_attr ''target'' (VStr ''/etc/fstab'') (put_attr ''ensure'' (VStr ens) r5)))))))"

fun mount_fstab :: "('a, 'w) aug_handle \<Rightarrow> string list \<Rightarrow> (string, resource) omap \<Rightarrow> ('a, (string, resource) omap) prog" where
  "mount_fstab h [] m = ret m"
| "mount_fstab h (n # ns) m = bnd (node_at h n ''file'') (\<lambda>name.
     case name of
       Some f \<Rightarrow> bnd (mount_make h f n ''unmounted'') (\<lambda>r. mount_fstab h ns (omap_emplace f r m))
     | None \<Rightarrow> fail ''Missing file/mountpoint'')"

fun mount_mtab :: "('a, 'w) aug_handle \<Rightarrow> string list \<Rightarrow> (string, resource) omap \<Rightarrow> ('a, (string, resource) omap) prog" where
  "mount_mtab h [] m = ret m"
| "mount_mtab h (n # ns) m = bnd (node_at h n ''file'') (\<lambda>name.
     case name of
       Some f \<Rightarrow> (case omap_find m f of
           Some r \<Rightarrow> mount_mtab h ns (omap_put f (put_attr ''ensure'' (VStr ''mounted'') r) m)
         | None \<Rightarrow> bnd (mount_make h f n ''ghost'') (\<lambda>r. mount_mtab h ns (omap_emplace f r m)))
     | None \<Rightarrow> fail ''Missing file/mountpoint'')"

definition mount_get :: "('a, 'w) aug_handle \<Rightarrow> string list \<Rightarrow> (('a, 'w) aug_prov, resource list) prog" where
  "mount_get h names =
     bnd (with_aug (handle_match h (''/files/etc/fstab/*[label() != '' @ quoted ''#comment'' @ '']''))) (\<lambda>nodes.
     bnd (with_aug (mount_fstab h nodes [])) (\<lambda>m.
     bnd (with_aug (handle_match h (''/files/etc/mtab/*[label() != '' @ quoted ''#comment'' @ '']''))) (\<lambda>nodes.
     bnd (with_aug (mount_mtab h nodes m)) (\<lambda>m'. ret (map snd m')))))"

definition mount_missing :: "string \<Rightarrow> string \<Rightarrow> string" where
  "mount_missing n k = ''The mount '' @ n @ '' is missing the '' @ quoted k @ '' field''"

definition mount_update_base :: "('a, 'w) aug_handle \<Rightarrow> update \<Rightarrow> (('a, 'w) aug_prov, unit) prog" where
  "mount_update_base h u =
     bnd (lift (upd_at u ''device'')) (\<lambda>dev. if \<not> is_present dev then fail (mount_missing (upd_name u) ''device'') else
     bnd (lift (upd_at u ''fstype'')) (\<lambda>fst. if \<not> is_present fst then fail (mount_missing (upd_name u) ''fstype'') else
     bnd (mount_base h u) (\<lambda>bs.
     bnd (with_aug (node_erase h bs)) (\<lambda>_.
     bnd (with_aug (node_set h bs ''spec'' dev)) (\<lambda>_.
     bnd (with_aug (node_set h bs ''file'' (VStr (upd_name u)))) (\<lambda>_.
     bnd (with_aug (node_set h bs ''vfstype'' fst)) (\<lambda>_.
     bnd (lift (upd_at u ''options'')) (\<lambda>opt.
     bnd (with_aug (node_set_default h bs ''options'' opt ''defaults'')) (\<lambda>_.
     bnd (lift (upd_at u ''dump'')) (\<lambda>dump.
     bnd (with_aug (node_set_default h bs ''dump'' dump ''0'')) (\<lambda>_.
     bnd (lift (upd_at u ''pass'')) (\<lambda>pass.
       with_aug (node_set_default h bs ''passno'' pass ''0'')))))))))))))"

definition mount_flush :: "('a, 'w) aug_handle \<Rightarrow> (('a, 'w) aug_prov, unit) prog" where
  "mount_flush h = on_world (handle_save h)"

definition mount_update_fstab :: "('a, 'w) aug_handle \<Rightarrow> update \<Rightarrow> (('a, 'w) aug_prov, unit) prog" where
  "mount_update_fstab h u =
     bnd (add_changes [''device'', ''fstype'', ''options'', ''dump'', ''pass''] u) (\<lambda>_. mount_update_base h u)"

definition mount_remove_from_fstab :: "('a, 'w) aug_handle \<Rightarrow> update \<Rightarrow> (('a, 'w) aug_prov, unit) prog" where
  "mount_remove_from_fstab h u = bnd (mount_base h u) (\<lambda>bs. with_aug (node_rm h bs))"

definition mount_unmount :: "('a, 'w) aug_handle \<Rightarrow> 'w mount_cmds \<Rightarrow> string \<Rightarrow> string \<Rightarrow> (('a, 'w) aug_prov, unit) prog" where
  "mount_unmount h mc name state = bnd (mount_flush h) (\<lambda>_.
     if state \<noteq> ''unmounted'' \<and> state \<noteq> ''absent'' then on_world (on_sys (mc_umount mc [name])) else ret ())"

definition mount_mount :: "('a, 'w) aug_handle \<Rightarrow> 'w mount_cmds \<Rightarrow> string \<Rightarrow> string \<Rightarrow> (('a, 'w) aug_prov, unit) prog" where
  "mount_mount h mc name state = bnd (mount_flush h) (\<lambda>_.
     if state \<noteq> ''mounted'' then on_world (on_sys (mc_mount mc [name])) else ret ())"

definition mount_set_one :: "('a, 'w) aug_handle \<Rightarrow> 'w mount_cmds \<Rightarrow> update \<Rightarrow> (('a, 'w) aug_prov, unit) prog" where
  "mount_set_one h mc u =
     (let state = lookup as_string (upd_is u) ''ensure'' ''absent'';
          ensure = lookup as_string (upd_should u) ''ensure'' state in
      bnd (add_changes [''ensure''] u) (\<lambda>_.
        if ensure = ''present'' then mount_update_fstab h u
        else if ensure = ''absent''
        then bnd (mount_unmount h mc (upd_name u) state) (\<lambda>_. mount_remove_from_fstab h u)
        else if ensure = ''unmounted''
        then bnd (mount_unmount h mc (upd_name u) state) (\<lambda>_. mount_update_fstab h u)
        else if ensure = ''mounted''
        then bnd (mount_update_fstab h u) (\<lambda>_. mount_mount h mc (upd_name u) state)
        else fail (''ensure has illegal value '' @ quoted ensure)))"

definition mount_set :: "('a, 'w) aug_handle \<Rightarrow> 'w mount_cmds \<Rightarrow> update list \<Rightarrow> (('a, 'w) aug_prov, unit) prog" where
  "mount_set h mc us = bnd (for_each (mount_set_one h mc) us) (\<lambda>_. mount_flush h)"

definition mount_provider :: "('a, 'w) aug_handle \<Rightarrow> 'w mount_cmds \<Rightarrow> prov_spec option \<Rightarrow> ('a, 'w) aug_world provider" where
  "mount_provider h mc sp = \<lparr>pv_spec = sp, pv_source = ''builtin'', pv_get = mount_get h, pv_set = mount_set h mc\<rparr>"

definition mount_members :: "('a, 'w) environment \<Rightarrow> command option list \<Rightarrow> 'w mount_cmds" where
  "mount_members env cs = \<lparr>mc_mount = run_member env (cs ! 0), mc_umount = run_member env (cs ! 1)\<rparr>"

definition mount_describe :: "('a, 'w) environment \<Rightarrow> string \<Rightarrow> (('a, 'w) aug_world, ('a, 'w) aug_world provider \<times> prov_spec) prog" where
  "mount_describe env desc =
     bnd (env_augeas env [(''Mount_Fstab.lns'', ''/etc/fstab''), (''Mount_Fstab.lns'', ''/etc/mtab'')]) (\<lambda>h.
     bnd (on_sys (\<lambda>w. case find_commands env [''mount'', ''umount''] w of (cs, w') \<Rightarrow> (Ok cs, w'))) (\<lambda>cs.
     bnd (on_sys (env_parse_spec env ''mount'' desc True)) (\<lambda>sp.
       ret (mount_provider h (mount_members env cs) None, sp))))"

subsection \<open>What get reports\<close>

text \<open>The invariant of the map that \<open>get\<close> builds.\<close>

definition mounts_ok :: "(string, resource) omap \<Rightarrow> bool" where
  "mounts_ok m \<longleftrightarrow> omap_ok m \<and> (\<forall>k r. omap_find m k = Some r \<longrightarrow> res_name r = k \<and>
     (\<exists>e. val_at r ''ensure'' = VStr e \<and> e \<in> {''mounted'', ''unmounted'', ''ghost''}))"

lemma node_extract_name:
  "node_extract h n r attr label d a = (Ok r', a') \<Longrightarrow> res_name r' = res_name r"
  by (auto simp: node_extract_def bnd_Ok_iff lift_def ret_def res_set_Ok split: option.splits)

lemma mount_make_result:
  "mount_make h f n ens a = (Ok r, a') \<Longrightarrow> res_name r = f \<and> val_at r ''ensure'' = VStr ens"
  by (auto simp: mount_make_def bnd_Ok_iff ret_def val_at_put dest!: node_extract_name)

lemma mounts_ok_emplace:
  "mounts_ok m \<Longrightarrow> res_name r = k \<Longrightarrow> val_at r ''ensure'' = VStr e \<Longrightarrow> e \<in> {''mounted'', ''unmounted'', ''ghost''} \<Longrightarrow>
    mounts_ok (omap_emplace k r m)"
  by (auto simp: mounts_ok_def omap_find_emplace split: option.splits if_splits)

lemma mount_fstab_ok:
  "mounts_ok m \<Longrightarrow> mount_fstab h ns m a = (Ok m', a') \<Longrightarrow>
    mounts_ok m' \<and> dom (omap_find m) \<subseteq> dom (omap_find m')"
proof (induction ns arbitrary: m a)
  case (Cons n ns)
  from Cons.prems(2) obtain f a1 r a2 where
      mk: "mount_make h f n ''unmounted'' a1 = (Ok r, a2)" and rest: "mount_fstab h ns (omap_emplace f r m) a2 = (Ok m', a')"
    by (auto simp: bnd_Ok_iff fail_def split: option.splits)
  have "mounts_ok (omap_emplace f r m)"
    using mount_make_result [OF mk] Cons.prems(1) by (intro mounts_ok_emplace) auto
  from Cons.IH [OF this rest] show ?case by (simp add: dom_omap_emplace)
qed (simp add: ret_def)

lemma mount_mtab_ok:
  "mounts_ok m \<Longrightarrow> mount_mtab h ns m a = (Ok m', a') \<Longrightarrow>
    mounts_ok m' \<and> dom (omap_find m) \<subseteq> dom (omap_find m')"
proof (induction ns arbitrary: m a)
  case (Cons n ns)
  obtain v a1 where v: "node_at h n ''file'' a = (Ok v, a1)"
    using Cons.prems(2) by (auto simp: bnd_Ok_iff)
  then obtain f where at: "node_at h n ''file'' a = (Ok (Some f), a1)"
    using Cons.prems(2) by (cases v) (auto simp: bnd_Ok_iff fail_def)
  show ?case
  proof (cases "omap_find m f")
    case None
    with Cons.prems(2) at obtain r a2 where
        mk: "mount_make h f n ''ghost'' a1 = (Ok r, a2)" and rest: "mount_mtab h ns (omap_emplace f r m) a2 = (Ok m', a')"
      by (auto simp: bnd_Ok_iff)
    have "mounts_ok (omap_emplace f r m)"
      using mount_make_result [OF mk] Cons.prems(1) by (intro mounts_ok_emplace) auto
    from Cons.IH [OF this rest] show ?thesis by (simp add: dom_omap_emplace)
  next
    case (Some r)
    then have rest: "mount_mtab h ns (omap_put f (put_attr ''ensure'' (VStr ''mounted'') r) m) a1 = (Ok m', a')"
      using Cons.prems(2) at by (auto simp: bnd_Ok_iff)
    have "mounts_ok (omap_put f (put_attr ''ensure'' (VStr ''mounted'') r) m)"
      using Cons.prems(1) Some by (auto simp: mounts_ok_def val_at_put)
    from Cons.IH [OF this rest] show ?thesis by (fastforce simp: subset_iff dom_def split: if_splits)
  qed
qed (simp add: ret_def)

lemma omap_ok_snd_names:
  assumes "omap_ok m" and "\<And>k r. omap_find m k = Some r \<Longrightarrow> res_name r = k"
  shows "map res_name (map snd m) = map fst m"
proof -
  have "res_name r = k" if "(k, r) \<in> set m" for k r
    using that assms omap_ok_distinct [OF assms(1)] by (auto dest: map_of_is_SomeI)
  then show ?thesis by (auto intro: map_cong)
qed

text \<open>Listing mounts reports every mount point once, in name order, each with an \<open>ensure\<close> of
  \<open>mounted\<close>, \<open>unmounted\<close> or \<open>ghost\<close>, whatever duplicates the two tables hold.\<close>

theorem mount_get_unique:
  assumes "mount_get h names s = (Ok rs, s')"
  shows "sorted_wrt (<) (map res_name rs) \<and> distinct (map res_name rs) \<and>
    (\<forall>r \<in> set rs. \<exists>e \<in> {''mounted'', ''unmounted'', ''ghost''}. val_at r ''ensure'' = VStr e)"
proof -
  obtain ns a1 m a2 ns' a3 m' a4 where
      "mount_fstab h ns [] a1 = (Ok m, a2)" and mtab: "mount_mtab h ns' m a3 = (Ok m', a4)" and rs: "rs = map snd m'"
    using assms unfolding mount_get_def bnd_Ok_iff with_aug_Ok ret_def by blast
  then have "mounts_ok m" using mount_fstab_ok [of "[]"] by (simp add: mounts_ok_def)
  from mount_mtab_ok [OF this mtab] have ok: "mounts_ok m'" by (rule conjunct1)
  then have names: "map res_name rs = map fst m'"
    unfolding rs by (intro omap_ok_snd_names) (auto simp: mounts_ok_def)
  have "\<exists>e \<in> {''mounted'', ''unmounted'', ''ghost''}. val_at r ''ensure'' = VStr e" if "(k, r) \<in> set m'" for k r
    using ok that omap_ok_distinct [of m'] by (auto simp: mounts_ok_def dest!: map_of_is_SomeI)
  then have "\<forall>r \<in> set rs. \<exists>e \<in> {''mounted'', ''unmounted'', ''ghost''}. val_at r ''ensure'' = VStr e"
    unfolding rs by fastforce
  moreover have "sorted_wrt (<) (map res_name rs)"
    unfolding names using ok by (simp add: mounts_ok_def omap_ok_def)
  ultimately show ?thesis by (simp add: strict_sorted_iff)
qed

theorem mount_get_unique_witness:
  "\<exists>rs s'. mount_get (default_handle (fixed_aug [''/1''])) [] \<lparr>p_ctx = new_context ''q'', p_world = \<lparr>aw_aug = (), aw_seq = 0, aw_sys = ()\<rparr>\<rparr> = (Ok rs, s') \<and>
     distinct (map res_name rs)"
proof -
  have get: "node_at (default_handle (fixed_aug ns)) n l a = (Ok (Some (node_append n l)), a)" for ns n l a
    by (simp add: node_at_def handle_get_def default_handle_def fixed_aug_def check_error_def)
  obtain rs s' where r: "mount_get (default_handle (fixed_aug [''/1''])) []
      \<lparr>p_ctx = new_context ''q'', p_world = \<lparr>aw_aug = (), aw_seq = 0, aw_sys = ()\<rparr>\<rparr> = (Ok rs, s')"
    by (simp add: mount_get_def with_aug_world bnd_def ret_def get mount_make_def node_extract_def lift_def res_set_def is_name_def
        omap_emplace_def)
  from mount_get_unique [OF r] r show ?thesis by blast
qed

text \<open>A mount that is in \<open>/etc/mtab\<close> twice and not in \<open>/etc/fstab\<close> is reported as \<open>mounted\<close>: the
  first entry makes it a \<open>ghost\<close>, the second takes that for an \<open>fstab\<close> entry.\<close>

theorem mount_ghost_twice_is_mounted:
  assumes "\<And>n a. n \<in> {n1, n2} \<Longrightarrow> node_at h n ''file'' a = (Ok (Some f), a)"
    and "mount_make h f n1 ''ghost'' a = (Ok r, a')" and "omap_find m f = None"
  shows "\<exists>m'. mount_mtab h [n1, n2] m a = (Ok m', a') \<and>
    omap_find m' f = Some (put_attr ''ensure'' (VStr ''mounted'') r)"
  using assms by (simp add: bnd_def ret_def omap_find_emplace)

theorem mount_ghost_twice_is_mounted_witness:
  "\<exists>r m'. mount_mtab (default_handle ((fixed_aug [])\<lparr>au_get := \<lambda>p a. (Some ''/proc/x'', a)\<rparr>) :: (unit, unit) aug_handle) [''/1'', ''/2''] [] () = (Ok m', ()) \<and>
     omap_find m' ''/proc/x'' = Some r \<and> val_at r ''ensure'' = VStr ''mounted''"
proof -
  let ?h = "default_handle ((fixed_aug [])\<lparr>au_get := \<lambda>p a. (Some ''/proc/x'', a)\<rparr>) :: (unit, unit) aug_handle"
  have get: "node_at ?h n l a = (Ok (Some ''/proc/x''), a)" for n l a
    by (simp add: node_at_def handle_get_def default_handle_def fixed_aug_def check_error_def)
  obtain r where r: "mount_make ?h ''/proc/x'' ''/1'' ''ghost'' () = (Ok r, ())"
    by (simp add: get mount_make_def bnd_def node_extract_def lift_def res_set_def is_name_def ret_def)
  from mount_ghost_twice_is_mounted [of "''/1''" "''/2''" ?h "''/proc/x''", OF get r, of "[]"]
  show ?thesis by (auto simp: val_at_put)
qed

subsection \<open>Updating\<close>

lemma keeps_mount_base [keeps_intros]: "keeps_changes n (mount_base h u)"
  unfolding mount_base_def Let_def by (intro keeps_intros)

lemma keeps_mount_update_base [keeps_intros]: "keeps_changes n (mount_update_base h u)"
  unfolding mount_update_base_def by (intro keeps_intros)

lemma keeps_mount_update_fstab [keeps_intros]: "n \<noteq> upd_name u \<Longrightarrow> keeps_changes n (mount_update_fstab h u)"
  unfolding mount_update_fstab_def by (intro keeps_intros)

lemma keeps_mount_others [keeps_intros]:
  "keeps_changes n (mount_flush h)" "keeps_changes n (mount_remove_from_fstab h u)"
  "keeps_changes n (mount_unmount h mc m st)" "keeps_changes n (mount_mount h mc m st)"
  unfolding mount_flush_def mount_remove_from_fstab_def mount_unmount_def mount_mount_def
  by (intro keeps_intros)+

lemma mount_set_one_keeps: "n \<noteq> upd_name u \<Longrightarrow> keeps_changes n (mount_set_one h mc u)"
  unfolding mount_set_one_def Let_def by (intro keeps_intros)

interpretation mount_update: update_provider "mount_set_one h mc" for h mc
  by unfold_locales (auto intro: keeps_changesD [OF mount_set_one_keeps])

text \<open>C38: neither \<open>mount\<close> nor \<open>umount\<close> is run unless the tables could be written: when saving always
  fails, an update does the same whatever the two commands would do, and none that asks to
  mount, unmount or remove succeeds.\<close>

theorem mount_needs_saved_tables:
  assumes "\<And>t. \<exists>e t'. handle_save h t = (Err e, t')"
  shows "mount_set_one h mc u s = mount_set_one h mc' u s \<and>
    (lookup as_string (upd_should u) ''ensure'' (lookup as_string (upd_is u) ''ensure'' ''absent'') \<noteq> ''present'' \<longrightarrow>
      \<not> is_Ok (fst (mount_set_one h mc u s)))"
proof
  have flush: "\<exists>e t'. mount_flush h t = (Err e, t')" for t :: "('a, 'b) aug_prov"
    using assms [of "p_world t"] by (auto simp: mount_flush_def on_world_def)
  have stop: "bnd (mount_flush h) f t = bnd (mount_flush h) f' t" "\<not> is_Ok (fst (bnd (mount_flush h) f t))"
    for f f' :: "unit \<Rightarrow> (('a, 'b) aug_prov, unit) prog" and t
    using flush [of t] by (auto simp: bnd_def)
  have same: "mount_unmount h mc n st = mount_unmount h mc' n st" "mount_mount h mc n st = mount_mount h mc' n st" for n st
    unfolding mount_unmount_def mount_mount_def by (rule ext, rule stop(1))+
  show "mount_set_one h mc u s = mount_set_one h mc' u s" unfolding mount_set_one_def same ..
  have never: "\<not> is_Ok (fst (mount_unmount h mc n st t))" "\<not> is_Ok (fst (mount_mount h mc n st t))" for n st t
    by (simp_all only: mount_unmount_def mount_mount_def stop(2) not_False_eq_True)
  show "lookup as_string (upd_should u) ''ensure'' (lookup as_string (upd_is u) ''ensure'' ''absent'') \<noteq> ''present'' \<longrightarrow>
      \<not> is_Ok (fst (mount_set_one h mc u s))"
  proof -
    have leaf: "ens \<noteq> ''present'' \<Longrightarrow> \<not> is_Ok (fst ((if ens = ''present'' then f else
        if ens = ''absent'' then bnd (mount_unmount h mc n st) g1 else
        if ens = ''unmounted'' then bnd (mount_unmount h mc n st) g2 else
        if ens = ''mounted'' then bnd g3 (\<lambda>_. mount_mount h mc n st) else fail e) t))" for ens f g1 g2 g3 n st e t
      by (simp add: bnd_never_left [OF never(1)] bnd_never_right [OF never(2)] fail_def)
    show ?thesis
      unfolding mount_set_one_def Let_def by (rule impI) (rule bnd_never_right, rule leaf)
  qed
qed

theorem mount_needs_saved_tables_witness:
  "\<not> is_Ok (fst (mount_set_one (default_handle ((fixed_aug [])\<lparr>au_error := \<lambda>a. Some (''parse error'', None, None)\<rparr>))
     \<lparr>mc_mount = (\<lambda>args w. (Ok (), w + 1)), mc_umount = (\<lambda>args w. (Ok (), w + 1))\<rparr>
     \<lparr>upd_is = put_attr ''ensure'' (VStr ''mounted'') (new_resource ''/m''),
      upd_should = put_attr ''ensure'' (VStr ''absent'') (new_resource ''/m'')\<rparr>
     \<lparr>p_ctx = new_context ''mount::aug'', p_world = \<lparr>aw_aug = (), aw_seq = 0, aw_sys = 0 :: nat\<rparr>\<rparr>))"
  by (rule mount_needs_saved_tables [THEN conjunct2, THEN mp])
    (simp_all add: handle_save_def bnd_def default_handle_def fixed_aug_def modify_def check_error_def on_aug_def lookup_val val_at_put)

text \<open>The value \<open>defined\<close> that the provider's own metadata allows for \<open>ensure\<close>, and that the
  comment in \<open>set\<close> lists as valid, is rejected by \<open>set\<close>; so is \<open>ghost\<close>.\<close>

theorem mount_defined_rejected:
  assumes "v \<in> {''defined'', ''ghost''}"
    and "spec_create ''ensure'' [] ''enum[defined, present, mounted, unmounted, absent, ghost]'' ''rw'' = Ok a"
    and "val_at (upd_should u) ''ensure'' = VStr v"
  shows "spec_read_string a v = Ok (VStr v) \<and>
    fst (mount_set_one h mc u s) = Err (''ensure has illegal value '' @ quoted v) \<and>
    p_world (snd (mount_set_one h mc u s)) = p_world s"
proof
  have "as_data_type a = Enum_type [''defined'', ''present'', ''mounted'', ''unmounted'', ''absent'', ''ghost'']"
  proof -
    have "spec_create ''ensure'' [] ''enum[defined, present, mounted, unmounted, absent, ghost]'' ''rw'' =
        Ok \<lparr>as_name = ''ensure'', as_desc = [], as_data_type =
          Enum_type [''defined'', ''present'', ''mounted'', ''unmounted'', ''absent'', ''ghost''], as_kind = Kind_rw\<rparr>"
      by code_simp
    with assms(2) show ?thesis by auto
  qed
  then show "spec_read_string a v = Ok (VStr v)"
    using assms(1) by (auto simp: spec_read_string_def read_enum_type_def)
  show "fst (mount_set_one h mc u s) = Err (''ensure has illegal value '' @ quoted v) \<and>
    p_world (snd (mount_set_one h mc u s)) = p_world s"
    using assms(1,3) by (auto simp: mount_set_one_def Let_def lookup_val add_changes_run bnd_def fail_def)
qed

theorem mount_defined_rejected_witness:
  "fst (mount_set_one (default_handle (fixed_aug []))
     \<lparr>mc_mount = (\<lambda>args w. (Ok (), w)), mc_umount = (\<lambda>args w. (Ok (), w))\<rparr>
     \<lparr>upd_is = new_resource ''/m'', upd_should = put_attr ''ensure'' (VStr ''defined'') (new_resource ''/m'')\<rparr>
     \<lparr>p_ctx = new_context ''mount::aug'', p_world = \<lparr>aw_aug = (), aw_seq = 0, aw_sys = ()\<rparr>\<rparr>) =
   Err (''ensure has illegal value '' @ quoted ''defined'')"
proof -
  have "spec_create ''ensure'' [] ''enum[defined, present, mounted, unmounted, absent, ghost]'' ''rw'' =
      Ok \<lparr>as_name = ''ensure'', as_desc = [], as_data_type =
        Enum_type [''defined'', ''present'', ''mounted'', ''unmounted'', ''absent'', ''ghost''], as_kind = Kind_rw\<rparr>"
    by code_simp
  moreover have "''defined'' \<in> {''defined'', ''ghost''}" by simp
  moreover have "val_at (upd_should \<lparr>upd_is = new_resource ''/m'',
      upd_should = put_attr ''ensure'' (VStr ''defined'') (new_resource ''/m'')\<rparr>) ''ensure'' = VStr ''defined''"
    by (simp add: val_at_put)
  ultimately show ?thesis by (intro mount_defined_rejected [THEN conjunct2, THEN conjunct1])
qed

subsection \<open>A system without the mount command\<close>

text \<open>\<open>describe\<close> does not look at the commands it stores: when there is no \<open>mount\<close> command, the provider is
  as suitable as its metadata says, and mounting something whose table entry was saved
  uses a null pointer.\<close>

theorem mount_null_command:
  assumes "mount_describe env desc s = (Ok (p, sp), s')" and "\<And>w. fst (env_command env ''mount'' w) = None"
  shows "\<exists>h mc. p = mount_provider h mc None \<and>
    (\<forall>n st t t'. mount_flush h t = (Ok (), t') \<and> st \<noteq> ''mounted'' \<longrightarrow>
       mount_mount h mc n st t = (Exn (Undefined ''null command''), t'))"
proof -
  from assms(1) obtain h cs w1 w2 where p: "p = mount_provider h (mount_members env cs) None"
      and cs: "find_commands env [''mount'', ''umount''] w1 = (cs, w2)"
    by (auto simp: mount_describe_def bnd_Ok_iff ret_def on_sys_def simp del: find_commands.simps split: prod.splits)
  then have "cs ! 0 = None" using assms(2) [of w1] by (auto split: prod.splits)
  then show ?thesis
    unfolding p by (intro exI conjI refl) (auto simp: mount_mount_def bnd_def on_world_def on_sys_def run_member_def throw_def
        mount_members_def)
qed

theorem mount_null_command_witness:
  "\<exists>p sp s'. mount_describe \<lparr>en_ral = \<lparr>ra_data_dirs = [], ra_target = None, ra_local = True\<rparr>,
      en_target = make_local (fixed_aug []) (demo_exe\<lparr>ex_which := \<lambda>n w. []\<rparr>) \<lparr>io_read = (\<lambda>p w. None), io_write = (\<lambda>p t w. w)\<rparr>,
      en_mrb = demo_mrb\<rparr> ''text'' \<lparr>aw_aug = (), aw_seq = 0, aw_sys = 0\<rparr> = (Ok (p, sp), s') \<and> ps_suitable sp \<and>
    (\<exists>h mc. p = mount_provider h mc None)"
proof -
  let ?env = "\<lparr>en_ral = \<lparr>ra_data_dirs = [], ra_target = None, ra_local = True\<rparr>,
      en_target = make_local (fixed_aug []) (demo_exe\<lparr>ex_which := \<lambda>n w. []\<rparr>) \<lparr>io_read = (\<lambda>p w. None), io_write = (\<lambda>p t w. w)\<rparr>,
      en_mrb = demo_mrb\<rparr>"
  have a: "spec_create ''name'' ''(missing description)'' ''string'' ''rw'' =
      Ok \<lparr>as_name = ''name'', as_desc = ''(missing description)'', as_data_type = String_type, as_kind = Kind_rw\<rparr>"
    by code_simp
  have aug: "au_init (fixed_aug []) r = ()" "au_error (fixed_aug []) x = None" "au_load (fixed_aug []) = id" for r x
    by (simp_all add: fixed_aug_def)
  obtain h t where h: "env_augeas ?env [(''Mount_Fstab.lns'', ''/etc/fstab''), (''Mount_Fstab.lns'', ''/etc/mtab'')]
      \<lparr>aw_aug = (), aw_seq = 0, aw_sys = 0\<rparr> = (Ok h, t)"
    by (simp add: env_augeas_def make_local_def full_target.defs target.defs local_augeas_def bnd_def handle_make_def on_aug_def
        handle_include_def handle_load_def check_error_def ret_def modify_def aug Let_def)
  have cmd: "env_command ?env n w = (None, w)" for n w
    by (simp add: env_command_def make_local_def full_target.defs target.defs local_command_def local_which_def)
  obtain sp where sp: "env_parse_spec ?env ''mount'' ''text'' True (aw_sys t) = (Ok sp, aw_sys t)" "ps_suitable sp"
    by (simp add: env_parse_spec_def spec_read_def demo_mrb_def Let_def a omap_emplace_def
        read_suitable_def bnd_def lift_def ret_def)
  obtain p s' where d: "mount_describe ?env ''text'' \<lparr>aw_aug = (), aw_seq = 0, aw_sys = 0\<rparr> = (Ok (p, sp), s')"
    by (simp add: mount_describe_def bnd_def h on_sys_def cmd sp ret_def)
  from mount_null_command [OF d] cmd d sp show ?thesis by auto
qed

end
