(* ===== verification/MountTable.thy ===== *)
theory MountTable
  imports AugTable Mount
begin

section \<open>The table of file systems\<close>

text \<open>
  What \<open>set\<close> of the mount provider does to \<open>/etc/fstab\<close>, seen as a table of entries: the entry of the mount
  point is rewritten, added or removed, whether or not a file system is mounted or unmounted on the way.
\<close>

subsection \<open>Entries\<close>

record fstab_entry =
  fe_spec :: "string option"
  fe_file :: "string option"
  fe_vfstype :: "string option"
  fe_options :: "string option"
  fe_dump :: "string option"
  fe_passno :: "string option"

type_synonym fstab_table = "fstab_entry table"

definition no_mount :: fstab_entry where
  "no_mount = \<lparr>fe_spec = None, fe_file = None, fe_vfstype = None, fe_options = None, fe_dump = None, fe_passno = None\<rparr>"

definition fstab_children :: "string \<Rightarrow> fstab_entry \<Rightarrow> string list" where
  "fstab_children l e =
     (if l = ''spec'' then opt_list (fe_spec e)
      else if l = ''file'' then opt_list (fe_file e)
      else if l = ''vfstype'' then opt_list (fe_vfstype e)
      else if l = ''options'' then opt_list (fe_options e)
      else if l = ''dump'' then opt_list (fe_dump e)
      else if l = ''passno'' then opt_list (fe_passno e) else [])"

definition fstab_put :: "string \<Rightarrow> string \<Rightarrow> fstab_entry \<Rightarrow> fstab_entry" where
  "fstab_put l v e =
     (if l = ''spec'' then e\<lparr>fe_spec := Some v\<rparr>
      else if l = ''file'' then e\<lparr>fe_file := Some v\<rparr>
      else if l = ''vfstype'' then e\<lparr>fe_vfstype := Some v\<rparr>
      else if l = ''options'' then e\<lparr>fe_options := Some v\<rparr>
      else if l = ''dump'' then e\<lparr>fe_dump := Some v\<rparr>
      else e\<lparr>fe_passno := Some v\<rparr>)"

definition fstab :: "fstab_entry entry_desc" where
  "fstab = \<lparr>ed_dir = ''/files/etc/fstab/'', ed_field = ''file'', ed_empty = no_mount,
     ed_children = fstab_children, ed_put = fstab_put,
     ed_reads = [''spec'', ''file'', ''vfstype'', ''options'', ''dump'', ''passno''],
     ed_writes = [''spec'', ''file'', ''vfstype'', ''options'', ''dump'', ''passno'']\<rparr>"

text \<open>The two tables of mounts, \<open>/etc/fstab\<close> and \<open>/etc/mtab\<close>, hold the same kind of entries.\<close>

definition mtab :: "fstab_entry entry_desc" where
  "mtab = fstab\<lparr>ed_dir := ''/files/etc/mtab/''\<rparr>"

locale mount_entries = entry_kind d for d :: "fstab_entry entry_desc" +
  assumes children: "ed_children d = fstab_children"
    and reads: "set (ed_reads d) = {''spec'', ''file'', ''vfstype'', ''options'', ''dump'', ''passno''}"

interpretation fstab: mount_entries fstab
  by unfold_locales (auto simp: fstab_def fstab_children_def no_mount_def opt_list_def)

interpretation mtab: mount_entries mtab
  by unfold_locales (auto simp: mtab_def fstab_def fstab_children_def no_mount_def opt_list_def)

lemma fstab_simps [simp]:
  "ed_empty fstab = no_mount" "ed_put fstab = fstab_put"
  "set (ed_writes fstab) = {''spec'', ''file'', ''vfstype'', ''options'', ''dump'', ''passno''}"
  by (simp_all add: fstab_def)

lemma named_mount: "named fstab n e \<longleftrightarrow> fe_file e = Some n"
  by (auto simp: named_def fstab_def fstab_children_def opt_list_def split: option.splits)

lemma fstab_query: "''/files/etc/fstab/*[file = '' @ quoted n @ '']'' = query fstab n"
  by (simp add: query_def fstab_def)

subsection \<open>The specification\<close>

definition text_or :: "value_base \<Rightarrow> string \<Rightarrow> string" where
  "text_or v c = (if v = VNone then c else to_string v)"

definition wanted_mount :: "update \<Rightarrow> fstab_entry" where
  "wanted_mount u = \<lparr>fe_spec = Some (to_string (wanted_value u ''device'')), fe_file = Some (upd_name u),
     fe_vfstype = Some (to_string (wanted_value u ''fstype'')), fe_options = Some (text_or (wanted_value u ''options'') ''defaults''),
     fe_dump = Some (text_or (wanted_value u ''dump'') ''0''), fe_passno = Some (text_or (wanted_value u ''pass'') ''0'')\<rparr>"

text \<open>
  For a mount point that \<open>get\<close> did not find, an entry is added. Otherwise its entry is rewritten; but when \<open>/etc/fstab\<close>
  has none (a \<open>ghost\<close>) nothing is added, and when it has several all of them lose their contents.
\<close>

definition mount_spec :: "string \<Rightarrow> update \<Rightarrow> fstab_table \<Rightarrow> fstab_table" where
  "mount_spec new u t =
     (if wanted_ensure u = ''absent'' then (if upd_present u then drop_named fstab (upd_name u) t else t)
      else if \<not> upd_present u then t @ [(new, wanted_mount u)]
      else (case entries_of fstab (upd_name u) t of
          [p] \<Rightarrow> put_entry p (wanted_mount u) t
        | _ \<Rightarrow> clear_named fstab (upd_name u) t))"

subsection \<open>An update on the tree and on the table\<close>

lemma mount_base_table:
  assumes finds: "finds_entries (hd_ops h) fstab tab" and safe: "queries_safe (hd_ops h) fstab tab"
    and plain: "plain_name (upd_name u)" and run: "mount_base h u s = (Ok p, s1)"
  shows "tab (tree s1) = tab (tree s) \<and>
    (if upd_present u
     then entry_path fstab p \<and> entries_of fstab (upd_name u) (tab (tree s)) = [p] \<or>
       length (entries_of fstab (upd_name u) (tab (tree s))) \<noteq> 1 \<and> p = query fstab (upd_name u)
     else p = new_path fstab (aw_seq (p_world s) + 1))"
proof (cases "upd_present u")
  case True
  let ?q = "query fstab (upd_name u)"
  obtain ms a where m: "au_match (hd_ops h) ?q (tree s) = (ms, a)" by (cases "au_match (hd_ops h) ?q (tree s)")
  with safe plain have ok: "handle_match h ?q (tree s) = (Ok ms, a)"
    unfolding queries_safe_def by (metis handle_match_Ok snd_conv)
  with finds_match [OF finds plain m] have ms: "ms = entries_of fstab (upd_name u) (tab (tree s))" and a: "tab a = tab (tree s)"
    by (auto simp: handle_match_Ok)
  have "mount_base h u = bnd (attempt (with_aug (node_resolve h ?q))) (\<lambda>r. ret (case r of Ok p \<Rightarrow> p | _ \<Rightarrow> ?q))"
    unfolding mount_base_def Let_def fstab_query by (simp only: True if_True)
  moreover have "node_resolve h ?q (tree s) = (if length ms = 1 then Ok (hd ms)
      else Err (''Expected '' @ ?q @ '' to match exactly one node, but it matched '' @ show_nat (length ms)), a)"
    using ok by (simp add: node_resolve_def bnd_def ret_def fail_def)
  ultimately have "p = (if length ms = 1 then hd ms else ?q) \<and> tree s1 = a"
    using run by (auto simp: attempt_def with_aug_world bnd_def ret_def split: if_splits)
  moreover have "entry_path fstab p" if "ms = [p]"
    using finds_path [OF finds] entries_of_path [of fstab "upd_name u" "tab (tree s)" p] that ms by metis
  ultimately show ?thesis using True ms a by (auto simp: length_Suc_conv)
next
  case False
  with run show ?thesis
    by (auto simp: mount_base_def on_world_def make_node_seq_next_def new_path_def fstab_def split: if_splits)
qed

text \<open>The calls of an update of the tree, whatever path they use.\<close>

lemma update_base_calls:
  assumes "mount_update_base h u s = (Ok x, s')"
  obtains p s1 a1 a2 a3 a4 a5 a6 x1 x2 x3 x4 x5 x6 x7
  where "wanted_value u ''device'' \<noteq> VNone" "wanted_value u ''fstype'' \<noteq> VNone" "mount_base h u s = (Ok p, s1)"
    "node_erase h p (tree s1) = (Ok x1, a1)"
    "node_set h p ''spec'' (wanted_value u ''device'') a1 = (Ok x2, a2)"
    "node_set h p ''file'' (VStr (upd_name u)) a2 = (Ok x3, a3)"
    "node_set h p ''vfstype'' (wanted_value u ''fstype'') a3 = (Ok x4, a4)"
    "node_set_default h p ''options'' (wanted_value u ''options'') ''defaults'' a4 = (Ok x5, a5)"
    "node_set_default h p ''dump'' (wanted_value u ''dump'') ''0'' a5 = (Ok x6, a6)"
    "node_set_default h p ''passno'' (wanted_value u ''pass'') ''0'' a6 = (Ok x7, tree s')"
proof -
  have at: "lift (upd_at u ''device'') = ret (wanted_value u ''device'')" "lift (upd_at u ''fstype'') = ret (wanted_value u ''fstype'')"
      "lift (upd_at u ''options'') = ret (wanted_value u ''options'')" "lift (upd_at u ''dump'') = ret (wanted_value u ''dump'')"
      "lift (upd_at u ''pass'') = ret (wanted_value u ''pass'')"
    by (simp_all add: fun_eq_iff lift_def ret_def wanted_value_def)
  note run = assms [unfolded mount_update_base_def at bnd_ret is_present_iff not_not]
  have "wanted_value u ''device'' \<noteq> VNone" "wanted_value u ''fstype'' \<noteq> VNone"
    using run by (auto simp: fail_def split: if_splits)
  with run show ?thesis by (auto simp: bnd_Ok_iff with_aug_Ok intro!: that)
qed

lemma update_base_entry:
  assumes edits: "edits_entries (hd_ops h) fstab tab" and p: "entry_path fstab p" and base: "mount_base h u s = (Ok p, s1)"
    and run: "mount_update_base h u s = (Ok x, s')"
  shows "tab (tree s') = put_entry p (wanted_mount u) (tab (tree s1))"
  using run
proof (rule update_base_calls)
  fix q t1 a1 a2 a3 a4 a5 a6 x1 x2 x3 x4 x5 x6 x7
  assume present: "wanted_value u ''device'' \<noteq> VNone" "wanted_value u ''fstype'' \<noteq> VNone" and q: "mount_base h u s = (Ok q, t1)"
    and erase: "node_erase h q (tree t1) = (Ok x1, a1)"
    and sets: "node_set h q ''spec'' (wanted_value u ''device'') a1 = (Ok x2, a2)"
      "node_set h q ''file'' (VStr (upd_name u)) a2 = (Ok x3, a3)"
      "node_set h q ''vfstype'' (wanted_value u ''fstype'') a3 = (Ok x4, a4)"
    and defaults: "node_set_default h q ''options'' (wanted_value u ''options'') ''defaults'' a4 = (Ok x5, a5)"
      "node_set_default h q ''dump'' (wanted_value u ''dump'') ''0'' a5 = (Ok x6, a6)"
      "node_set_default h q ''passno'' (wanted_value u ''pass'') ''0'' a6 = (Ok x7, tree s')"
  from q base have pq: "entry_path fstab q" "q = p" "t1 = s1" using p by auto
  note set = fstab.set_step [OF edits pq(1), rotated] and default = fstab.set_default_step [OF edits pq(1), rotated]
  note chain = default [OF defaults(3) default [OF defaults(2) default [OF defaults(1)
    set [OF sets(3) set [OF sets(2) set [OF sets(1) fstab.erase_step [OF edits pq(1) erase]]]]]]]
  have "rewriting fstab q (wanted_mount u) (tab (tree t1)) (tab (tree s'))"
    using chain present by (simp add: fstab_put_def wanted_mount_def no_mount_def text_or_def)
  moreover have "wanted_mount u \<noteq> no_mount" by (simp add: wanted_mount_def no_mount_def)
  ultimately show ?thesis using pq by (simp add: rewriting_def)
qed

lemma update_base_query:
  assumes edits: "edits_by_query (hd_ops h) fstab tab" and plain: "plain_name (upd_name u)"
    and base: "mount_base h u s = (Ok (query fstab (upd_name u)), s1)" and run: "mount_update_base h u s = (Ok x, s')"
  shows "tab (tree s') = clear_named fstab (upd_name u) (tab (tree s1))"
  using run
proof (rule update_base_calls)
  fix q t1 a1 a2 a3 a4 a5 a6 x1 x2 x3 x4 x5 x6 x7
  let ?q = "query fstab (upd_name u)"
  assume q: "mount_base h u s = (Ok q, t1)" and erase: "node_erase h q (tree t1) = (Ok x1, a1)"
    and sets: "node_set h q ''spec'' (wanted_value u ''device'') a1 = (Ok x2, a2)"
      "node_set h q ''file'' (VStr (upd_name u)) a2 = (Ok x3, a3)"
      "node_set h q ''vfstype'' (wanted_value u ''fstype'') a3 = (Ok x4, a4)"
    and defaults: "node_set_default h q ''options'' (wanted_value u ''options'') ''defaults'' a4 = (Ok x5, a5)"
      "node_set_default h q ''dump'' (wanted_value u ''dump'') ''0'' a5 = (Ok x6, a6)"
      "node_set_default h q ''passno'' (wanted_value u ''pass'') ''0'' a6 = (Ok x7, tree s')"
  from q base have eqs: "q = ?q" "t1 = s1" by simp_all
  have a1: "tab a1 = clear_named fstab (upd_name u) (tab (tree s1))" using fstab.erase_query [OF edits plain] erase unfolding eqs by simp
  have set: "tab a' = clear_named fstab (upd_name u) (tab (tree s1))"
    if "tab a = clear_named fstab (upd_name u) (tab (tree s1))" "node_set h ?q l v a = (Ok y, a')" "l \<in> set (ed_writes fstab)" for a a' l v y
    using fstab.set_query [OF edits plain that(3) _ that(2)] that(1) fstab.cleared_none by simp
  have default: "tab a' = clear_named fstab (upd_name u) (tab (tree s1))"
    if "tab a = clear_named fstab (upd_name u) (tab (tree s1))" "node_set_default h ?q l v c a = (Ok y, a')" "l \<in> set (ed_writes fstab)" for a a' l v c y
    using fstab.set_default_query [OF edits plain that(3) _ that(2)] that(1) fstab.cleared_none by simp
  note sets = sets [unfolded eqs] and defaults = defaults [unfolded eqs]
  show ?thesis
    by (rule default [OF default [OF default [OF set [OF set [OF set [OF a1 sets(1)] sets(2)] sets(3)]
      defaults(1)] defaults(2)] defaults(3)]) simp_all
qed

lemma mount_set_one_cases:
  assumes safe: "matches_safe (hd_ops h) tab" and keeps: "writer_keeps h tab" and run: "mount_set_one h mc u s = (Ok (), s')"
  obtains (keep) s0 s1 where "wanted_ensure u \<in> {''present'', ''unmounted'', ''mounted''}" "same_table tab (p_world s) (p_world s0)"
      "mount_update_base h u s0 = (Ok (), s1)" "tab (tree s') = tab (tree s1)"
  | (remove) s0 where "wanted_ensure u = ''absent''" "same_table tab (p_world s) (p_world s0)" "mount_remove_from_fstab h u s0 = (Ok (), s')"
proof -
  have flush: "same_table tab (p_world t) (p_world t')" if "mount_flush h t = (Ok x, t')" for t t' x
    using that save_keeps [OF safe keeps] by (auto simp: mount_flush_def on_world_def split: prod.splits)
  have sys: "same_table tab (p_world t) (p_world t')" if "on_world (on_sys m) t = (r, t')" for t t' m and r :: "unit outcome"
    using that by (auto simp: on_world_def on_sys_def same_table_def split: prod.splits)
  have commands: "same_table tab (p_world t) (p_world t')"
    if "mount_unmount h mc n st t = (Ok x, t') \<or> mount_mount h mc n st t = (Ok x, t')" for n st t t' x
    using that by (auto simp: mount_unmount_def mount_mount_def bnd_Ok_iff ret_def split: if_splits dest!: flush sys intro: same_table_trans)
  obtain x t where add: "add_changes [''ensure''] u s = (Ok x, t)"
    and cases: "(if wanted_ensure u = ''present'' then mount_update_fstab h u
        else if wanted_ensure u = ''absent''
        then bnd (mount_unmount h mc (upd_name u) (lookup as_string (upd_is u) ''ensure'' ''absent'')) (\<lambda>_. mount_remove_from_fstab h u)
        else if wanted_ensure u = ''unmounted''
        then bnd (mount_unmount h mc (upd_name u) (lookup as_string (upd_is u) ''ensure'' ''absent'')) (\<lambda>_. mount_update_fstab h u)
        else if wanted_ensure u = ''mounted''
        then bnd (mount_update_fstab h u) (\<lambda>_. mount_mount h mc (upd_name u) (lookup as_string (upd_is u) ''ensure'' ''absent''))
        else fail (''ensure has illegal value '' @ quoted (wanted_ensure u))) t = (Ok (), s')"
    using run unfolding mount_set_one_def Let_def wanted_ensure_def [symmetric] bnd_Ok_iff by blast
  from add have t: "p_world t = p_world s" by (auto simp: add_changes_run)
  have update: "\<exists>s0. p_world s0 = p_world t1 \<and> mount_update_base h u s0 = (Ok x, t2)" if "mount_update_fstab h u t1 = (Ok x, t2)" for t1 t2 x
  proof -
    obtain y s0 where "add_changes [''device'', ''fstype'', ''options'', ''dump'', ''pass''] u t1 = (Ok y, s0)"
        and "mount_update_base h u s0 = (Ok x, t2)" using \<open>mount_update_fstab h u t1 = (Ok x, t2)\<close> unfolding mount_update_fstab_def bnd_Ok_iff by blast
    then show ?thesis by (auto simp: add_changes_run intro!: exI [of _ s0])
  qed
  show ?thesis
  proof (cases "wanted_ensure u = ''absent''")
    case True
    with cases t show ?thesis by (auto simp: bnd_Ok_iff intro: that(2) dest!: commands [OF disjI1])
  next
    case False
    then consider "wanted_ensure u = ''present''" | "wanted_ensure u = ''unmounted''" | "wanted_ensure u = ''mounted''"
      using cases by (auto simp: fail_def split: if_splits)
    then show ?thesis
    proof cases
      case 1
      with cases have "mount_update_fstab h u t = (Ok (), s')" by simp
      from update [OF this] obtain s0 where "p_world s0 = p_world t" "mount_update_base h u s0 = (Ok (), s')" by blast
      with 1 t show ?thesis by (intro that(1) [of s0 s']) (simp_all add: same_table_def)
    next
      case 2
      with cases obtain x t1 where "mount_unmount h mc (upd_name u) (lookup as_string (upd_is u) ''ensure'' ''absent'') t = (Ok x, t1)"
          and "mount_update_fstab h u t1 = (Ok (), s')" by (auto simp: bnd_Ok_iff)
      with commands update [of t1 "()" s'] t 2 show ?thesis by (metis insertCI that(1))
    next
      case 3
      with cases obtain x t1 where "mount_update_fstab h u t = (Ok x, t1)"
          and "mount_mount h mc (upd_name u) (lookup as_string (upd_is u) ''ensure'' ''absent'') t1 = (Ok (), s')" by (auto simp: bnd_Ok_iff)
      with commands [of _ _ t1 "()" s'] have "same_table tab (p_world t1) (p_world s')" by blast
      moreover from update [OF \<open>mount_update_fstab h u t = (Ok x, t1)\<close>]
      obtain s0 where "p_world s0 = p_world t" "mount_update_base h u s0 = (Ok x, t1)" by blast
      ultimately show ?thesis using 3 t by (intro that(1) [of s0 t1]) (simp_all add: same_table_def)
    qed
  qed
qed

lemma update_base_refines:
  assumes finds: "finds_entries (hd_ops h) fstab tab" and edits: "edits_entries (hd_ops h) fstab tab"
    and query: "edits_by_query (hd_ops h) fstab tab" and safe: "queries_safe (hd_ops h) fstab tab"
    and plain: "plain_name (upd_name u)" and run: "mount_update_base h u s = (Ok (), s')" and wanted: "wanted_ensure u \<noteq> ''absent''"
    and fresh: "new_path fstab (aw_seq (p_world s) + 1) \<notin> fst ` set (tab (tree s))"
  shows "tab (tree s') = mount_spec (new_path fstab (aw_seq (p_world s) + 1)) u (tab (tree s))"
proof -
  from run obtain p s1 where base: "mount_base h u s = (Ok p, s1)" by (rule update_base_calls)
  note at = mount_base_table [OF finds safe plain base]
  then consider (one) "upd_present u" "entry_path fstab p" "entries_of fstab (upd_name u) (tab (tree s)) = [p]"
    | (query) "upd_present u" "length (entries_of fstab (upd_name u) (tab (tree s))) \<noteq> 1" "p = query fstab (upd_name u)"
    | (new) "\<not> upd_present u" "p = new_path fstab (aw_seq (p_world s) + 1)"
    by (auto split: if_splits)
  then show ?thesis
  proof cases
    case one
    with update_base_entry [OF edits one(2) base run] at wanted show ?thesis by (simp add: mount_spec_def)
  next
    case query
    then have "tab (tree s') = clear_named fstab (upd_name u) (tab (tree s1))"
      using base by (intro update_base_query [OF \<open>edits_by_query (hd_ops h) fstab tab\<close> plain _ run]) simp
    with query(1,2) at wanted show ?thesis by (auto simp: mount_spec_def split: list.split)
  next
    case new
    then have "entry_path fstab p" by (simp add: new_path)
    from update_base_entry [OF edits this base run] new at wanted fresh show ?thesis by (simp add: mount_spec_def put_fresh)
  qed
qed

lemma remove_refines:
  assumes finds: "finds_entries (hd_ops h) fstab tab" and edits: "edits_entries (hd_ops h) fstab tab"
    and query: "edits_by_query (hd_ops h) fstab tab" and safe: "queries_safe (hd_ops h) fstab tab"
    and plain: "plain_name (upd_name u)" and run: "mount_remove_from_fstab h u s = (Ok (), s')" and wanted: "wanted_ensure u = ''absent''"
    and paths: "distinct (new_path fstab (aw_seq (p_world s) + 1) # map fst (tab (tree s)))"
  shows "tab (tree s') = mount_spec (new_path fstab (aw_seq (p_world s) + 1)) u (tab (tree s))"
proof -
  from run obtain p s1 where base: "mount_base h u s = (Ok p, s1)" and rm: "node_rm h p (tree s1) = (Ok (), tree s')"
    by (auto simp: mount_remove_from_fstab_def bnd_Ok_iff with_aug_Ok)
  note at = mount_base_table [OF finds safe plain base]
  then consider (one) "upd_present u" "entry_path fstab p" "entries_of fstab (upd_name u) (tab (tree s)) = [p]"
    | (query) "upd_present u" "p = query fstab (upd_name u)"
    | (new) "\<not> upd_present u" "p = new_path fstab (aw_seq (p_world s) + 1)"
    by (auto split: if_splits)
  then show ?thesis
  proof cases
    case one
    with fstab.rm_step [OF edits one(2) rm] at wanted paths show ?thesis by (simp add: mount_spec_def drop_only)
  next
    case query
    with fstab.rm_query [OF \<open>edits_by_query (hd_ops h) fstab tab\<close> plain] rm at wanted show ?thesis by (simp add: mount_spec_def)
  next
    case new
    then have "entry_path fstab p" by (simp add: new_path)
    from fstab.rm_step [OF edits this rm] new at wanted paths show ?thesis by (simp add: mount_spec_def drop_fresh)
  qed
qed

text \<open>C7: an update of a mount that reports no error does to the tree of \<open>/etc/fstab\<close> what the specification does to the
  table of entries: the entry of the mount point is rewritten in place with the desired device, type and options or
  their defaults, or added at the end, or removed; the other entries stay. Two cases are hardly meant: a mount that is
  there but has no entry gets none, and if a mount point has several entries, all of them lose their contents.\<close>

theorem mount_update_refines:
  assumes view: "finds_entries (hd_ops h) fstab tab" "edits_entries (hd_ops h) fstab tab"
      "edits_by_query (hd_ops h) fstab tab" "queries_safe (hd_ops h) fstab tab"
    and writer: "writer_keeps h tab" and plain: "plain_name (upd_name u)" and run: "mount_set_one h mc u s = (Ok (), s')"
    and paths: "distinct (new_path fstab (aw_seq (p_world s) + 1) # map fst (tab (aw_aug (p_world s))))"
  shows "wanted_ensure u \<in> {''present'', ''unmounted'', ''mounted'', ''absent''} \<and>
    tab (aw_aug (p_world s')) = mount_spec (new_path fstab (aw_seq (p_world s) + 1)) u (tab (aw_aug (p_world s)))"
  using queries_safe_matches [OF view(4)] writer run
proof (cases rule: mount_set_one_cases)
  case (keep s0 s1)
  then have "wanted_ensure u \<noteq> ''absent''" by auto
  from update_base_refines [OF view plain keep(3) this] keep paths show ?thesis by (auto simp: same_table_def)
next
  case (remove s0)
  from remove_refines [OF view plain remove(3,1)] remove paths show ?thesis by (simp add: same_table_def)
qed

text \<open>So a mount that is reported as a \<open>ghost\<close>, being mounted without an entry, gets no entry by an update that claims to add one.\<close>

lemma ghost_gets_no_entry:
  assumes "upd_present u" and "entries_of fstab (upd_name u) t = []" and "wanted_ensure u \<noteq> ''absent''"
  shows "mount_spec new u t = t"
proof -
  have "clear_named fstab (upd_name u) t = t"
    using assms(2) by (auto simp: clear_named_def no_entries intro!: map_idI)
  with assms show ?thesis by (simp add: mount_spec_def)
qed

subsection \<open>On a library that keeps only the table\<close>

lemma demo_mounts_view:
  "finds_entries (hd_ops (default_handle (table_aug fstab) :: (fstab_table, 'w) aug_handle)) fstab (visible fstab)"
  "edits_entries (hd_ops (default_handle (table_aug fstab) :: (fstab_table, 'w) aug_handle)) fstab (visible fstab)"
  "edits_by_query (hd_ops (default_handle (table_aug fstab) :: (fstab_table, 'w) aug_handle)) fstab (visible fstab)"
  "queries_safe (hd_ops (default_handle (table_aug fstab) :: (fstab_table, 'w) aug_handle)) fstab (visible fstab)"
  by (simp_all add: default_handle_def table_finds fstab.table_edits fstab.table_edits_query)
    (simp add: queries_safe_def matches_safe_def table_aug_def)

definition demo_mount_update :: update where
  "demo_mount_update = \<lparr>upd_is = put_attr ''ensure'' (VStr ''unmounted'') (new_resource ''/m''),
     upd_should = put_attr ''device'' (VStr ''b'') (put_attr ''fstype'' (VStr ''x'') (put_attr ''ensure'' (VStr ''mounted'') (new_resource ''/m'')))\<rparr>"

definition demo_mount_state :: "(fstab_table, nat) aug_prov" where
  "demo_mount_state = \<lparr>p_ctx = new_context ''mount::aug'', p_world = \<lparr>
     aw_aug = [(''/files/etc/fstab/1'', no_mount\<lparr>fe_spec := Some ''a'', fe_file := Some ''/m''\<rparr>)], aw_seq = 0, aw_sys = 0\<rparr>\<rparr>"

definition demo_mount_cmds :: "nat mount_cmds" where
  "demo_mount_cmds = \<lparr>mc_mount = (\<lambda>args w. (Ok (), w + 1)), mc_umount = (\<lambda>args w. (Ok (), w))\<rparr>"

text \<open>The library reports no errors, so every step of the update returns.\<close>

lemma table_calls:
  fixes d :: "'e entry_desc"
  shows
  "handle_set (default_handle (table_aug d)) p v a = (Ok (), au_set (table_aug d) p (Some v) a)"
  "handle_rm (default_handle (table_aug d)) p a = (Ok (), au_rm (table_aug d) p a)"
  "handle_match (default_handle (table_aug d)) p a = (Ok (fst (au_match (table_aug d) p a)), a)"
  "check_error (hd_ops (default_handle (table_aug d))) a = Ok ()"
  "hd_writer (default_handle (table_aug d)) = (on_aug (modify id) :: (('e table, 'w) aug_world, unit) prog)"
  by (simp_all add: handle_set_def handle_rm_def handle_match_def default_handle_def check_error_def Let_def table_aug_def split: prod.split)

lemma demo_save: "au_match (table_aug fstab) ''/augeas/files//error'' a = ([], a)"
proof -
  have "query_name fstab ''/augeas/files//error'' = None" "''/augeas/files//error'' \<noteq> listing fstab"
    "last_label ''/augeas/files//error'' = ''error''" by code_simp+
  then show ?thesis by (simp add: table_aug_def fstab_def fstab_children_def)
qed

lemma demo_flush: "\<exists>s'. mount_flush (default_handle (table_aug fstab)) s = (Ok (), s')"
  by (simp add: mount_flush_def on_world_def handle_save_def bnd_def on_aug_def table_calls demo_save ret_def modify_def)

lemma demo_base: "\<exists>p s'. mount_base (default_handle (table_aug fstab)) demo_mount_update s = (Ok p, s')"
proof -
  have "upd_present demo_mount_update" by (simp add: upd_present_def demo_mount_update_def lookup_val val_at_put)
  then show ?thesis
    by (auto simp: mount_base_def Let_def bnd_def attempt_def with_aug_world node_resolve_def table_calls fail_def ret_def split: prod.splits)
qed

lemma bnd_returns: "is_Ok (fst (m s)) \<Longrightarrow> (\<And>a t. is_Ok (fst (f a t))) \<Longrightarrow> is_Ok (fst (bnd m f s))"
  by (cases "m s") (auto simp: bnd_def elim!: is_Ok.elims)

lemma demo_update_base: "is_Ok (fst (mount_update_base (default_handle (table_aug fstab)) demo_mount_update s))"
proof -
  obtain p t where p: "mount_base (default_handle (table_aug fstab)) demo_mount_update s = (Ok p, t)" using demo_base by blast
  have at: "lift (upd_at demo_mount_update ''device'') = ret (VStr ''b'')" "lift (upd_at demo_mount_update ''fstype'') = ret (VStr ''x'')"
      "lift (upd_at demo_mount_update ''options'') = ret VNone" "lift (upd_at demo_mount_update ''dump'') = ret VNone"
      "lift (upd_at demo_mount_update ''pass'') = ret VNone"
    by (simp_all add: fun_eq_iff lift_def ret_def demo_mount_update_def val_at_put)
  show ?thesis
    unfolding mount_update_base_def at bnd_ret
    by (simp add: bnd_def p with_aug_world node_erase_def node_set_def node_set_default_def table_calls)
qed

lemma demo_mount: "is_Ok (fst (mount_mount (default_handle (table_aug fstab)) demo_mount_cmds n st s))"
  unfolding mount_mount_def
proof (rule bnd_returns)
  show "is_Ok (fst (mount_flush (default_handle (table_aug fstab) :: (fstab_table, nat) aug_handle) s))"
    using demo_flush [of s] by auto
qed (simp add: on_world_def on_sys_def demo_mount_cmds_def ret_def)

lemma demo_mount_run: "is_Ok (fst (mount_set_one (default_handle (table_aug fstab)) demo_mount_cmds demo_mount_update demo_mount_state))"
proof -
  have "wanted_ensure demo_mount_update = ''mounted''" by (simp add: wanted_ensure_def demo_mount_update_def lookup_val val_at_put)
  then show ?thesis
    unfolding mount_set_one_def Let_def wanted_ensure_def [symmetric]
    by (simp add: mount_update_fstab_def bnd_returns add_changes_run demo_update_base demo_mount del: filter.simps)
qed

theorem mount_update_refines_witness:
  "\<exists>s'. mount_set_one (default_handle (table_aug fstab)) demo_mount_cmds demo_mount_update demo_mount_state = (Ok (), s') \<and>
     visible fstab (aw_aug (p_world s')) = mount_spec (new_path fstab 1) demo_mount_update (visible fstab (aw_aug (p_world demo_mount_state)))"
proof -
  obtain s' where run: "mount_set_one (default_handle (table_aug fstab)) demo_mount_cmds demo_mount_update demo_mount_state = (Ok (), s')"
    using demo_mount_run by (cases "mount_set_one (default_handle (table_aug fstab)) demo_mount_cmds demo_mount_update demo_mount_state")
      (auto elim!: is_Ok.elims)
  have keeps: "writer_keeps (default_handle (table_aug fstab) :: (fstab_table, nat) aug_handle) (visible fstab)"
    by (rule default_writer_keeps) (simp add: table_aug_def)
  have plain: "plain_name (upd_name demo_mount_update)" by (simp add: demo_mount_update_def upd_name_def plain_name_def)
  have "distinct (new_path fstab (aw_seq (p_world demo_mount_state) + 1) # map fst (visible fstab (aw_aug (p_world demo_mount_state))))"
    by code_simp
  from mount_update_refines [OF demo_mounts_view keeps plain run this] run show ?thesis by (simp add: demo_mount_state_def)
qed

end
