(* ===== verification/MountReport.thy ===== *)
theory MountReport
  imports MountTable
begin

section \<open>What the mount provider reports\<close>

text \<open>
  \<open>get\<close> of \<open>lib/src/mount.cc\<close> joins two tables: what should be mounted and what is. The theory gives its result as a
  function of the two tables.
\<close>

subsection \<open>The resource of an entry\<close>

definition or_default :: "string option \<Rightarrow> string \<Rightarrow> string" where
  "or_default v c = (case v of None \<Rightarrow> c | Some x \<Rightarrow> x)"

definition mount_point :: "fstab_entry \<Rightarrow> string" where
  "mount_point e = or_default (fe_file e) []"

definition mount_row :: "string \<Rightarrow> fstab_entry \<Rightarrow> resource" where
  "mount_row st e = put_attr ''target'' (VStr ''/etc/fstab'') (put_attr ''ensure'' (VStr st)
     (put_attr ''pass'' (VStr (or_default (fe_passno e) ''0''))
     (put_attr ''dump'' (VStr (or_default (fe_dump e) ''0''))
     (put_attr ''options'' (VStr (or_default (fe_options e) ''defaults''))
     (opt_attr ''fstype'' (fe_vfstype e) (opt_attr ''device'' (fe_spec e) (new_resource (mount_point e))))))))"

lemma resource_ok_opt: "resource_ok r \<Longrightarrow> k \<noteq> ''name'' \<Longrightarrow> resource_ok (opt_attr k v r)"
  by (cases v) (simp_all add: opt_attr_def resource_ok_put)

lemma resource_ok_row: "resource_ok (mount_row st e)"
  unfolding mount_row_def by (intro resource_ok_put resource_ok_opt resource_ok_new) simp_all

lemma res_name_row: "res_name (mount_row st e) = mount_point e"
  by (simp add: mount_row_def opt_attr_def split: option.split)

lemma resource_eqI:
  "resource_ok r \<Longrightarrow> resource_ok q \<Longrightarrow> res_name r = res_name q \<Longrightarrow> omap_find (attrs r) = omap_find (attrs q) \<Longrightarrow> r = q"
  using omap_eqI [of "attrs r" "attrs q"] by (simp add: resource_ok_def)

text \<open>Marking an entry as mounted is the same as making it as mounted.\<close>

lemma row_ensure: "put_attr ''ensure'' (VStr st) (mount_row st' e) = mount_row st e"
  by (rule resource_eqI) (simp_all add: resource_ok_row resource_ok_put res_name_row, simp add: mount_row_def fun_eq_iff)

context mount_entries begin

lemma make_row:
  assumes view: "reads_entries (hd_ops h) d tab" and p: "entry_path d p"
    and make: "mount_make h n p st a = (Ok r, a')" and e: "fe_file (entry_at d p (tab a)) = Some n"
  shows "tab a' = tab a \<and> r = mount_row st (entry_at d p (tab a))"
proof -
  let ?e = "entry_at d p (tab a)"
  obtain r1 a1 r2 a2 r3 a3 r4 a4 r5 where
      dev: "node_extract h p (new_resource n) ''device'' ''spec'' None a = (Ok r1, a1)"
      and fstype: "node_extract h p r1 ''fstype'' ''vfstype'' None a1 = (Ok r2, a2)"
      and opt: "node_extract h p r2 ''options'' ''options'' (Some ''defaults'') a2 = (Ok r3, a3)"
      and dump: "node_extract h p r3 ''dump'' ''dump'' (Some ''0'') a3 = (Ok r4, a4)"
      and pass: "node_extract h p r4 ''pass'' ''passno'' (Some ''0'') a4 = (Ok r5, a')"
      and r: "r = put_attr ''target'' (VStr ''/etc/fstab'') (put_attr ''ensure'' (VStr st) r5)"
    using make by (auto simp: mount_make_def bnd_Ok_iff ret_def)
  have child: "ed_children d ''spec'' e = opt_list (fe_spec e)" "ed_children d ''vfstype'' e = opt_list (fe_vfstype e)"
      "ed_children d ''options'' e = opt_list (fe_options e)" "ed_children d ''dump'' e = opt_list (fe_dump e)"
      "ed_children d ''passno'' e = opt_list (fe_passno e)" for e
    by (simp_all add: children fstab_children_def)
  have 1: "tab a1 = tab a" "r1 = opt_attr ''device'' (fe_spec ?e) (new_resource n)"
    using extract_opt [OF view p _ dev _ child(1)] by (simp_all add: reads)
  have 2: "tab a2 = tab a" "r2 = opt_attr ''fstype'' (fe_vfstype ?e) r1"
    using extract_opt [OF view p _ fstype _ child(2)] 1 by (simp_all add: reads)
  have 3: "tab a3 = tab a" "r3 = put_attr ''options'' (VStr (or_default (fe_options ?e) ''defaults'')) r2"
    using extract_default [OF view p _ opt _ child(3)] 2 by (simp_all add: reads or_default_def)
  have 4: "tab a4 = tab a" "r4 = put_attr ''dump'' (VStr (or_default (fe_dump ?e) ''0'')) r3"
    using extract_default [OF view p _ dump _ child(4)] 3 by (simp_all add: reads or_default_def)
  have "tab a' = tab a" "r5 = put_attr ''pass'' (VStr (or_default (fe_passno ?e) ''0'')) r4"
    using extract_default [OF view p _ pass _ child(5)] 4 by (simp_all add: reads or_default_def)
  with 1(2) 2(2) 3(2) 4(2) r e show ?thesis by (simp add: mount_row_def mount_point_def or_default_def)
qed

lemma at_file:
  assumes "reads_entries (hd_ops h) d tab" and "entry_path d p" and "node_at h p ''file'' a = (Ok v, a')"
  shows "tab a' = tab a \<and> v = fe_file (entry_at d p (tab a))"
  using at_step [OF assms(1,2) _ assms(3)]
  by (simp add: children reads fstab_children_def split: option.splits)

end

subsection \<open>The two tables joined\<close>

fun fstab_rows :: "fstab_entry list \<Rightarrow> (string, resource) omap \<Rightarrow> (string, resource) omap" where
  "fstab_rows [] m = m"
| "fstab_rows (e # es) m = fstab_rows es (omap_emplace (mount_point e) (mount_row ''unmounted'' e) m)"

fun mtab_rows :: "fstab_entry list \<Rightarrow> (string, resource) omap \<Rightarrow> (string, resource) omap" where
  "mtab_rows [] m = m"
| "mtab_rows (e # es) m = mtab_rows es (case omap_find m (mount_point e) of
      Some r \<Rightarrow> omap_put (mount_point e) (put_attr ''ensure'' (VStr ''mounted'') r) m
    | None \<Rightarrow> omap_emplace (mount_point e) (mount_row ''ghost'' e) m)"

lemma mount_fstab_rows:
  assumes view: "reads_entries (hd_ops h) fstab tab" and "\<And>p. p \<in> set ps \<Longrightarrow> entry_path fstab p"
    and "mount_fstab h ps m a = (Ok m', a')"
  shows "m' = fstab_rows (map (\<lambda>p. entry_at fstab p (tab a)) ps) m \<and> (\<forall>p \<in> set ps. fe_file (entry_at fstab p (tab a)) \<noteq> None)"
  using assms(2,3)
proof (induction ps arbitrary: a m)
  case (Cons p ps)
  have p: "entry_path fstab p" using Cons.prems(1) by simp
  obtain v a1 where at: "node_at h p ''file'' a = (Ok v, a1)" using Cons.prems(2) by (auto simp: bnd_Ok_iff)
  note v = fstab.at_file [OF view p at]
  obtain n r a2 where n: "v = Some n" and make: "mount_make h n p ''unmounted'' a1 = (Ok r, a2)"
      and rest: "mount_fstab h ps (omap_emplace n r m) a2 = (Ok m', a')"
    using Cons.prems(2) at by (cases v) (auto simp: bnd_Ok_iff fail_def)
  have fe: "fe_file (entry_at fstab p (tab a)) = Some n" using v n by simp
  with fstab.make_row [OF view p make] v have "tab a2 = tab a" "r = mount_row ''unmounted'' (entry_at fstab p (tab a))"
      "mount_point (entry_at fstab p (tab a)) = n" "fe_file (entry_at fstab p (tab a)) \<noteq> None"
    by (simp_all add: mount_point_def or_default_def)
  with Cons.IH [OF _ rest] Cons.prems(1) show ?case by simp
qed (simp add: ret_def)

lemma mount_mtab_rows:
  assumes view: "reads_entries (hd_ops h) mtab tab" and "\<And>p. p \<in> set ps \<Longrightarrow> entry_path mtab p"
    and "mount_mtab h ps m a = (Ok m', a')"
  shows "m' = mtab_rows (map (\<lambda>p. entry_at mtab p (tab a)) ps) m \<and> (\<forall>p \<in> set ps. fe_file (entry_at mtab p (tab a)) \<noteq> None)"
  using assms(2,3)
proof (induction ps arbitrary: a m)
  case (Cons p ps)
  have p: "entry_path mtab p" using Cons.prems(1) by simp
  obtain v a1 where at: "node_at h p ''file'' a = (Ok v, a1)" using Cons.prems(2) by (auto simp: bnd_Ok_iff)
  note v = mtab.at_file [OF view p at]
  obtain n where n: "v = Some n" using Cons.prems(2) at by (cases v) (auto simp: bnd_Ok_iff fail_def)
  have fe: "fe_file (entry_at mtab p (tab a)) = Some n" using v n by simp
  then have e: "mount_point (entry_at mtab p (tab a)) = n" "fe_file (entry_at mtab p (tab a)) \<noteq> None"
    by (simp_all add: mount_point_def or_default_def)
  show ?case
  proof (cases "omap_find m n")
    case (Some r)
    then have "mount_mtab h ps (omap_put n (put_attr ''ensure'' (VStr ''mounted'') r) m) a1 = (Ok m', a')"
      using Cons.prems(2) at n by (auto simp: bnd_Ok_iff)
    with Cons.IH [OF _ this] Cons.prems(1) v e Some show ?thesis by simp
  next
    case None
    then obtain r a2 where make: "mount_make h n p ''ghost'' a1 = (Ok r, a2)"
        and rest: "mount_mtab h ps (omap_emplace n r m) a2 = (Ok m', a')"
      using Cons.prems(2) at n by (auto simp: bnd_Ok_iff)
    from mtab.make_row [OF view p make] v fe have "tab a2 = tab a" "r = mount_row ''ghost'' (entry_at mtab p (tab a))" by simp_all
    with Cons.IH [OF _ rest] Cons.prems(1) e None show ?thesis by simp
  qed
qed (simp add: ret_def)

definition at_point :: "string \<Rightarrow> fstab_entry list \<Rightarrow> fstab_entry list" where
  "at_point n es = filter (\<lambda>e. mount_point e = n) es"

lemma fstab_rows_find:
  "omap_find (fstab_rows es m) n = (case omap_find m n of
      Some r \<Rightarrow> Some r
    | None \<Rightarrow> (case at_point n es of [] \<Rightarrow> None | e # _ \<Rightarrow> Some (mount_row ''unmounted'' e)))"
  by (induction es arbitrary: m) (auto simp: at_point_def omap_find_emplace split: option.splits)

lemma fstab_rows_ok: "omap_ok m \<Longrightarrow> omap_ok (fstab_rows es m)"
  by (induction es arbitrary: m) simp_all

definition mark_mounted :: "resource \<Rightarrow> resource" where
  "mark_mounted r = put_attr ''ensure'' (VStr ''mounted'') r"

lemma mark_mounted_again [simp]: "resource_ok r \<Longrightarrow> mark_mounted (mark_mounted r) = mark_mounted r"
  unfolding mark_mounted_def by (rule resource_eqI) (simp_all add: resource_ok_put fun_eq_iff)

lemma mark_mounted_row [simp]: "mark_mounted (mount_row st e) = mount_row ''mounted'' e"
  by (simp add: mark_mounted_def row_ensure)

lemma mtab_rows_find:
  assumes "\<forall>r. omap_find m n = Some r \<longrightarrow> resource_ok r"
  shows "omap_find (mtab_rows es m) n = (case omap_find m n of
      Some r \<Rightarrow> Some (if at_point n es = [] then r else mark_mounted r)
    | None \<Rightarrow> (case at_point n es of
          [] \<Rightarrow> None
        | [e] \<Rightarrow> Some (mount_row ''ghost'' e)
        | e # _ \<Rightarrow> Some (mount_row ''mounted'' e)))"
  using assms
proof (induction es arbitrary: m)
  case (Cons e es)
  let ?m = "case omap_find m (mount_point e) of
      Some r \<Rightarrow> omap_put (mount_point e) (put_attr ''ensure'' (VStr ''mounted'') r) m
    | None \<Rightarrow> omap_emplace (mount_point e) (mount_row ''ghost'' e) m"
  have find: "omap_find ?m n = (if mount_point e = n
      then Some (case omap_find m n of Some r \<Rightarrow> mark_mounted r | None \<Rightarrow> mount_row ''ghost'' e) else omap_find m n)"
    by (auto simp: omap_find_emplace mark_mounted_def split: option.split)
  have ok: "\<forall>r. omap_find ?m n = Some r \<longrightarrow> resource_ok r"
    using Cons.prems unfolding find
    by (auto simp: mark_mounted_def resource_ok_put resource_ok_row split: option.splits)
  have point: "at_point n (e # es) = (if mount_point e = n then e # at_point n es else at_point n es)" by (simp add: at_point_def)
  show ?case
    unfolding mtab_rows.simps Cons.IH [OF ok, unfolded find] point using Cons.prems by (auto split: option.split list.split)
qed (simp add: at_point_def split: option.split)

lemma mtab_rows_ok: "omap_ok m \<Longrightarrow> omap_ok (mtab_rows es m)"
  by (induction es arbitrary: m) (simp_all split: option.split)

text \<open>The report of one mount point, given the entries of the two tables.\<close>

definition mount_report :: "fstab_entry list \<Rightarrow> fstab_entry list \<Rightarrow> string \<Rightarrow> resource option" where
  "mount_report fs ms n = (case at_point n fs of
      e # _ \<Rightarrow> Some (mount_row (if at_point n ms = [] then ''unmounted'' else ''mounted'') e)
    | [] \<Rightarrow> (case at_point n ms of
          [] \<Rightarrow> None
        | [e] \<Rightarrow> Some (mount_row ''ghost'' e)
        | e # _ \<Rightarrow> Some (mount_row ''mounted'' e)))"

lemma joined_find: "omap_find (mtab_rows ms (fstab_rows fs [])) n = mount_report fs ms n"
proof -
  have "\<forall>r. omap_find (fstab_rows fs []) n = Some r \<longrightarrow> resource_ok r"
    by (auto simp: fstab_rows_find resource_ok_row split: list.splits)
  from mtab_rows_find [OF this] show ?thesis
    by (auto simp: fstab_rows_find mount_report_def split: list.split)
qed

lemma reads_only_mounts [reads_only_intros]:
  "gets_safe (hd_ops h) tab \<Longrightarrow> reads_only tab (mount_fstab h ps m)"
proof (induction ps arbitrary: m)
  case (Cons p ps)
  then have "reads_only tab (mount_make h f p ''unmounted'')" for f
    unfolding mount_make_def by (assumption | intro reads_only_intros)+
  with Cons show ?case unfolding mount_fstab.simps by (intro reads_only_intros) simp_all
qed (simp add: reads_only_def ret_def)


subsection \<open>The tables after an update\<close>

text \<open>Editing one file does not touch the table of another.\<close>

definition edits_leave :: "'a aug_ops \<Rightarrow> 'e entry_desc \<Rightarrow> ('a \<Rightarrow> 't) \<Rightarrow> bool" where
  "edits_leave au d tab \<longleftrightarrow> (\<forall>q v a. tab (au_set au (ed_dir d @ q) v a) = tab a \<and> tab (au_rm au (ed_dir d @ q) a) = tab a)"

lemma edit_leaves:
  assumes leave: "edits_leave (hd_ops h) d tab" and p: "p = ed_dir d @ q" "q \<noteq> []" "last q \<noteq> CHR ''/''"
  shows "node_erase h p a = (Ok x, a') \<Longrightarrow> tab a' = tab a" and "node_rm h p a = (Ok x, a') \<Longrightarrow> tab a' = tab a"
    and "l \<noteq> [] \<Longrightarrow> hd l \<noteq> CHR ''/'' \<Longrightarrow> node_set h p l v a = (Ok x, a') \<Longrightarrow> tab a' = tab a"
    and "l \<noteq> [] \<Longrightarrow> hd l \<noteq> CHR ''/'' \<Longrightarrow> node_set_default h p l v c a = (Ok x, a') \<Longrightarrow> tab a' = tab a"
proof -
  have append: "\<exists>r. node_append p k = ed_dir d @ r" if "k \<noteq> []" "hd k \<noteq> CHR ''/''" for k
    using that p by (simp add: node_append_def)
  have set: "tab a' = tab a" if "handle_set h (ed_dir d @ r) w a = (Ok x, a')" for r w
    using that leave by (auto simp: handle_set_Ok edits_leave_def)
  have rm: "tab a' = tab a" if "handle_rm h (ed_dir d @ r) a = (Ok x, a')" for r
    using that leave by (auto simp: handle_rm_Ok edits_leave_def)
  show "node_erase h p a = (Ok x, a') \<Longrightarrow> tab a' = tab a"
    using append [of "''*''"] rm by (auto simp: node_erase_def)
  show "node_rm h p a = (Ok x, a') \<Longrightarrow> tab a' = tab a" using rm p(1) by (auto simp: node_rm_def)
  show "l \<noteq> [] \<Longrightarrow> hd l \<noteq> CHR ''/'' \<Longrightarrow> node_set h p l v a = (Ok x, a') \<Longrightarrow> tab a' = tab a"
    using append [of l] set by (fastforce simp: node_set_def ret_def split: if_splits)
  show "l \<noteq> [] \<Longrightarrow> hd l \<noteq> CHR ''/'' \<Longrightarrow> node_set_default h p l v c a = (Ok x, a') \<Longrightarrow> tab a' = tab a"
    using append [of l] set by (fastforce simp: node_set_default_def)
qed

lemma base_path:
  assumes "finds_entries (hd_ops h) fstab tab" and "queries_safe (hd_ops h) fstab tab" and "plain_name (upd_name u)"
    and "mount_base h u s = (Ok p, s1)"
  shows "\<exists>q. p = ed_dir fstab @ q \<and> q \<noteq> [] \<and> last q \<noteq> CHR ''/''"
proof -
  have "\<exists>q. p = ed_dir fstab @ q \<and> q \<noteq> [] \<and> last q \<noteq> CHR ''/''" if "entry_path fstab p" for p
    using that label_char_plain by (metis entry_path_iff last_in_set list_all_iff)
  moreover have "\<exists>q. query fstab n = ed_dir fstab @ q \<and> q \<noteq> [] \<and> last q \<noteq> CHR ''/''" for n
    by (simp add: query_def last_append)
  ultimately show ?thesis
    using mount_base_table [OF assms] new_path by (metis (no_types, lifting))
qed

lemma base_leaves:
  assumes "matches_safe (hd_ops h) tab" and "mount_base h u s = (Ok p, s1)"
  shows "tab (tree s1) = tab (tree s)"
proof -
  have match: "tab a' = tab a" if "handle_match h q a = (r, a')" for q a r a'
    using that assms(1) by (auto simp: handle_match_def matches_safe_def split: prod.splits) (metis snd_conv)
  have "tab a' = tab a" if "node_resolve h q a = (r, a')" for q a r a'
    using that match by (auto simp: node_resolve_def bnd_def fail_def ret_def split: prod.splits outcome.splits if_splits)
  then show ?thesis
    using assms(2)
    by (auto simp: mount_base_def Let_def bnd_def attempt_def with_aug_world on_world_def make_node_seq_next_def ret_def
        split: if_splits prod.splits outcome.splits)
qed

lemma update_leaves_mtab:
  assumes finds: "finds_entries (hd_ops h) fstab ftab" and safe: "queries_safe (hd_ops h) fstab ftab" and plain: "plain_name (upd_name u)"
    and leave: "edits_leave (hd_ops h) fstab mtb" and match: "matches_safe (hd_ops h) mtb" and writer: "writer_keeps h mtb"
    and run: "mount_set_one h mc u s = (Ok (), s')"
  shows "mtb (tree s') = mtb (tree s)"
  using match writer run
proof (cases rule: mount_set_one_cases)
  case (keep s0 s1)
  from keep(3) have "mtb (tree s1) = mtb (tree s0)"
  proof (rule update_base_calls)
    fix p t a1 a2 a3 a4 a5 a6 x1 x2 x3 x4 x5 x6 x7
    assume base: "mount_base h u s0 = (Ok p, t)" and erase: "node_erase h p (tree t) = (Ok x1, a1)"
      and sets: "node_set h p ''spec'' (wanted_value u ''device'') a1 = (Ok x2, a2)"
        "node_set h p ''file'' (VStr (upd_name u)) a2 = (Ok x3, a3)"
        "node_set h p ''vfstype'' (wanted_value u ''fstype'') a3 = (Ok x4, a4)"
      and defaults: "node_set_default h p ''options'' (wanted_value u ''options'') ''defaults'' a4 = (Ok x5, a5)"
        "node_set_default h p ''dump'' (wanted_value u ''dump'') ''0'' a5 = (Ok x6, a6)"
        "node_set_default h p ''passno'' (wanted_value u ''pass'') ''0'' a6 = (Ok x7, tree s1)"
    obtain q where q: "p = ed_dir fstab @ q" "q \<noteq> []" "last q \<noteq> CHR ''/''" using base_path [OF finds safe plain base] by blast
    note leaves = edit_leaves [OF leave q]
    show "mtb (tree s1) = mtb (tree s0)"
      using leaves(1) [OF erase] leaves(3) [OF _ _ sets(1)] leaves(3) [OF _ _ sets(2)] leaves(3) [OF _ _ sets(3)]
        leaves(4) [OF _ _ defaults(1)] leaves(4) [OF _ _ defaults(2)] leaves(4) [OF _ _ defaults(3)] base_leaves [OF match base] by simp
  qed
  with keep show ?thesis by (simp add: same_table_def)
next
  case (remove s0)
  then obtain p s1 where base: "mount_base h u s0 = (Ok p, s1)" and rm: "node_rm h p (tree s1) = (Ok (), tree s')"
    by (auto simp: mount_remove_from_fstab_def bnd_Ok_iff with_aug_Ok)
  obtain q where q: "p = ed_dir fstab @ q" "q \<noteq> []" "last q \<noteq> CHR ''/''" using base_path [OF finds safe plain base] by blast
  from edit_leaves(2) [OF leave q rm] base_leaves [OF match base] remove(2) show ?thesis by (simp add: same_table_def)
qed

subsection \<open>A library that keeps both tables\<close>

text \<open>Every path belongs to one of the two files.\<close>

definition in_mtab :: "string \<Rightarrow> bool" where
  "in_mtab p \<longleftrightarrow> take (length ''/files/etc/mtab/'') p = ''/files/etc/mtab/''"

definition both_aug :: "fstab_table aug_ops" where
  "both_aug = (table_aug fstab)\<lparr>
     au_match := (\<lambda>p. if in_mtab p then au_match (table_aug mtab) p else au_match (table_aug fstab) p),
     au_get := (\<lambda>p. if in_mtab p then au_get (table_aug mtab) p else au_get (table_aug fstab) p)\<rparr>"

lemma in_mtab_simps: "in_mtab (ed_dir mtab @ q)" "\<not> in_mtab (ed_dir fstab @ q)"
  by (simp_all add: in_mtab_def mtab_def fstab_def)

lemma below_match:
  assumes "entry_path d p" and "au_match (table_aug d) (p @ CHR ''/'' # l) t = (ms, t')" and "m \<in> set ms"
  shows "\<exists>q. m = ed_dir d @ q"
proof -
  obtain i where p: "p = ed_dir d @ i" using assms(1) by (auto simp: entry_path_iff)
  have "query_name d (p @ CHR ''/'' # l) = None" "p @ CHR ''/'' # l \<noteq> listing d"
    using query_name_path [OF assms(1)] listing_path [OF assms(1)] by simp_all
  with assms(2,3) have "\<exists>j. m = (p @ CHR ''/'' # l) @ replicate j CHR ''+''" by (auto simp: table_aug_def)
  with p show ?thesis by auto
qed

lemma reads_transfer:
  assumes reads: "reads_entries (table_aug d) d (visible d)" and err: "au_error au = (\<lambda>t. None)"
    and same: "\<And>q. au_match au (ed_dir d @ q) = au_match (table_aug d) (ed_dir d @ q)" "\<And>q. au_get au (ed_dir d @ q) = au_get (table_aug d) (ed_dir d @ q)"
  shows "reads_entries au d (visible d)"
proof -
  have no_err: "au_error (table_aug d) t = None" for t by (simp add: table_aug_def)
  have below: "\<exists>q. p @ CHR ''/'' # l = ed_dir d @ q" if "entry_path d p" for p l
    using that by (auto simp: entry_path_iff)
  show ?thesis
    unfolding reads_entries_def
  proof (intro conjI allI impI)
    fix t ms t' assume "au_match au (listing d) t = (ms, t')"
    then have "au_match (table_aug d) (listing d) t = (ms, t')" unfolding listing_def same .
    from reads_list [OF reads this no_err] show "ms = map fst (visible d t)" "visible d t' = visible d t" by simp_all
  next
    fix p l t v t' assume p: "entry_path d p" and l: "l \<in> set (ed_reads d)" and get: "au_get au (p @ ''/'' @ l) t = (v, t')"
      and one: "length (ed_children d l (entry_at d p (visible d t))) \<le> 1"
    have "au_get (table_aug d) (p @ ''/'' @ l) t = (v, t')" using below [OF p, of l] get same(2) by auto
    from reads_child [OF reads p l this no_err one]
    show "visible d t' = visible d t" "v = (case ed_children d l (entry_at d p (visible d t)) of [] \<Rightarrow> None | x # _ \<Rightarrow> Some x)" by simp_all
  next
    fix p l t ms t' assume p: "entry_path d p" and l: "l \<in> set (ed_reads d)" and match: "au_match au (p @ ''/'' @ l) t = (ms, t')"
    have m: "au_match (table_aug d) (p @ ''/'' @ l) t = (ms, t')" using below [OF p, of l] match same(1) by auto
    note law = reads_children [OF reads p l this no_err]
    then show "visible d t' = visible d t" by simp
    have same_get: "au_get au k = au_get (table_aug d) k" if "k \<in> set ms" for k
      using below_match [OF p _ that, of l t t'] m same(2) by auto
    show "list_all2 (\<lambda>m x. \<forall>b v b'. visible d b = visible d t \<longrightarrow> au_get au m b = (v, b') \<longrightarrow> au_error au b' = None \<longrightarrow>
        v = Some x \<and> visible d b' = visible d b) ms (ed_children d l (entry_at d p (visible d t)))"
    proof (rule list.rel_mono_strong [OF conjunct2 [OF law]])
      fix k x assume k: "k \<in> set ms" and read: "\<forall>b v b'. visible d b = visible d t \<longrightarrow> au_get (table_aug d) k b = (v, b') \<longrightarrow>
        au_error (table_aug d) b' = None \<longrightarrow> v = Some x \<and> visible d b' = visible d b"
      have same_err: "au_error au = au_error (table_aug d)" by (simp add: err table_aug_def)
      show "\<forall>b v b'. visible d b = visible d t \<longrightarrow> au_get au k b = (v, b') \<longrightarrow> au_error au b' = None \<longrightarrow>
        v = Some x \<and> visible d b' = visible d b" unfolding same_get [OF k] same_err by (rule read)
    qed
  qed
qed

lemma finds_transfer:
  assumes err: "au_error au = (\<lambda>t. None)" and same: "\<And>q. au_match au (ed_dir d @ q) = au_match (table_aug d) (ed_dir d @ q)"
  shows "finds_entries au d (visible d)"
proof -
  have "au_error (table_aug d) t = None" for t by (simp add: table_aug_def)
  with table_finds [of d] show ?thesis by (simp add: finds_entries_def query_def same err)
qed

lemma both_laws:
  "reads_entries both_aug fstab (visible fstab)" "reads_entries both_aug mtab (visible mtab)"
  "finds_entries both_aug fstab (visible fstab)" "finds_entries both_aug mtab (visible mtab)" "gets_safe both_aug (visible mtab)"
proof -
  have err: "au_error both_aug = (\<lambda>t. None)" by (simp add: both_aug_def table_aug_def)
  have f: "au_match both_aug (ed_dir fstab @ q) = au_match (table_aug fstab) (ed_dir fstab @ q)"
      "au_get both_aug (ed_dir fstab @ q) = au_get (table_aug fstab) (ed_dir fstab @ q)" for q
    by (simp_all add: both_aug_def in_mtab_simps)
  have m: "au_match both_aug (ed_dir mtab @ q) = au_match (table_aug mtab) (ed_dir mtab @ q)"
      "au_get both_aug (ed_dir mtab @ q) = au_get (table_aug mtab) (ed_dir mtab @ q)" for q
    by (simp_all add: both_aug_def in_mtab_simps)
  have "query_name fstab (listing fstab) = None" "query_name mtab (listing mtab) = None" by code_simp+
  then have "reads_entries (table_aug fstab) fstab (visible fstab)" "reads_entries (table_aug mtab) mtab (visible mtab)"
    by (auto intro!: fstab.table_reads mtab.table_reads simp: fstab.reads mtab.reads)
  then show "reads_entries both_aug fstab (visible fstab)" "reads_entries both_aug mtab (visible mtab)"
    by (auto intro!: reads_transfer err f m)
  show "finds_entries both_aug fstab (visible fstab)" "finds_entries both_aug mtab (visible mtab)"
    by (auto intro!: finds_transfer err f m)
  show "gets_safe both_aug (visible mtab)" by (simp add: gets_safe_def both_aug_def table_aug_def)
qed

definition demo_tables :: "(fstab_table, unit) aug_prov" where
  "demo_tables = \<lparr>p_ctx = new_context ''mount::aug'', p_world = \<lparr>
     aw_aug = [(''/files/etc/fstab/1'', no_mount\<lparr>fe_file := Some ''/a''\<rparr>), (''/files/etc/mtab/1'', no_mount\<lparr>fe_file := Some ''/b''\<rparr>)],
     aw_seq = 0, aw_sys = ()\<rparr>\<rparr>"

lemma demo_tables_get: "is_Ok (fst (mount_get (default_handle both_aug) [] demo_tables))"
  by code_simp

lemma demo_tables_visible:
  "visible fstab (aw_aug (p_world demo_tables)) = [(''/files/etc/fstab/1'', no_mount\<lparr>fe_file := Some ''/a''\<rparr>)]"
  "visible mtab (aw_aug (p_world demo_tables)) = [(''/files/etc/mtab/1'', no_mount\<lparr>fe_file := Some ''/b''\<rparr>)]"
  by code_simp+


end
