(* ===== verification/Tests.thy ===== *)
theory Tests
  imports File
begin

section \<open>The repository's unit tests on the model\<close>

text \<open>
  \<open>lib/tests/attr/spec.cc\<close> and \<open>lib/tests/file.cc\<close>, evaluated: each requirement of a test is a lemma about what the model
  computes on the test's input. The file tests run on a file system that is a map, with the file
  names of the tests' fixtures replaced by fixed ones.
\<close>

subsection \<open>Attribute specifications\<close>

definition created :: "string \<Rightarrow> string \<Rightarrow> (string \<times> string \<times> data_type \<times> kind) option" where
  "created type k = (case spec_create ''test'' ''Test desc'' type k of
      Ok sp \<Rightarrow> Some (as_name sp, as_desc sp, as_data_type sp, as_kind sp)
    | _ \<Rightarrow> None)"

lemma creates_string: "created ''string'' ''r'' = Some (''test'', ''Test desc'', String_type, Kind_r)"
  by code_simp

lemma creates_boolean: "created ''boolean'' ''w'' = Some (''test'', ''Test desc'', Boolean_type, Kind_w)"
  by code_simp

lemma creates_array:
  "list_all (\<lambda>t. created t ''rw'' = Some (''test'', ''Test desc'', Array_type, Kind_rw))
     [''array[string]'', '' array[string]'', CHR 0x09 # ''array'' @ CHR 0x09 # ''[ string  ]  '']"
  by code_simp

lemma rejects_bad_enum:
  "list_all (\<lambda>t. created t ''r'' = None)
     [''enum'', ''enum yes,no]'', ''enum[yes,no'', ''enum[ ]'', ''enum[, ]'', ''enum[yes, ]'']"
  by code_simp

lemma creates_enum:
  "list_all (\<lambda>t. created t ''r'' = Some (''test'', ''Test desc'', Enum_type [''yes'', ''no''], Kind_r))
     [''enum[yes,no]'', ''enum[yes, no]'', ''  enum'' @ CHR 0x09 # '' [yes,no]'', ''enum[  yes,   no'' @ CHR 0x09 # '']  '' @ [CHR 0x09]]"
  by code_simp

lemma rejects_gibberish: "created ''gibberish'' ''r'' = None \<and> created ''string'' ''rwx'' = None"
  by code_simp

subsection \<open>The file provider\<close>

text \<open>Get one file, set attributes of it, and make the resource that shows the update, as the tests do.\<close>

definition file_test :: "demo_files \<Rightarrow> string \<Rightarrow> (string \<times> string) list \<Rightarrow> (value_base \<times> string list \<times> resource outcome) option" where
  "file_test w name wanted =
     (case file_get demo_fs [name] \<lparr>p_ctx = new_context ''file::posix'', p_world = w\<rparr> of
        (Ok [r], s) \<Rightarrow>
          (let should = foldl (\<lambda>r (k, v). put_attr k (VStr v) r) (new_resource (res_name r)) wanted;
               u = \<lparr>upd_is = r, upd_should = should\<rparr>
           in case file_set demo_fs [u] s of
                (Ok _, s') \<Rightarrow> (let chgs = changes_of (p_ctx s') (res_name r) in Some (val_at r ''ensure'', map ch_attr chgs, create_updated u chgs))
              | _ \<Rightarrow> None)
      | _ \<Rightarrow> None)"

definition has_attrs :: "resource outcome \<Rightarrow> (string \<times> string) list \<Rightarrow> bool" where
  "has_attrs r kvs = (case r of Ok res \<Rightarrow> list_all (\<lambda>(k, v). val_at res k = VStr v) kvs | _ \<Rightarrow> False)"

lemma needs_names: "fst (file_get demo_fs [] s) = Err ''the file provider does not support listing all files''"
  by (simp add: file_get_def)

lemma finds_absent: "case file_get demo_fs [''/tmp/not_there''] \<lparr>p_ctx = new_context [], p_world = Map.empty\<rparr> of
    (Ok [r], s) \<Rightarrow> val_at r ''ensure'' = VStr ''absent'' | _ \<Rightarrow> False"
  by code_simp

lemma finds_file: "case file_get demo_fs [''/tmp/f''] \<lparr>p_ctx = new_context [], p_world = [''/tmp/f'' \<mapsto> File_node 420 []]\<rparr> of
    (Ok [r], s) \<Rightarrow> val_at r ''ensure'' = VStr ''file'' \<and> res_name r = ''/tmp/f'' | _ \<Rightarrow> False"
  by code_simp

lemma creates_file:
  "case file_test Map.empty ''/tmp/n'' [(''ensure'', ''present''), (''mode'', ''0660''), (''content'', ''stuff'')] of
     Some (was, chgs, changed) \<Rightarrow> was = VStr ''absent'' \<and> ''ensure'' \<in> set chgs \<and> ''mode'' \<in> set chgs \<and>
       has_attrs changed [(''ensure'', ''file''), (''mode'', ''0660''), (''content'', ''stuff'')]
   | None \<Rightarrow> False"
  by code_simp

text \<open>The changes of type that the tests go through, one after the other.\<close>

lemma file_to_link:
  "case file_test [''/tmp/f'' \<mapsto> File_node 420 ''original''] ''/tmp/f'' [(''ensure'', ''link''), (''target'', ''/tmp'')] of
     Some (was, chgs, changed) \<Rightarrow> chgs = [''ensure'', ''target''] \<and> has_attrs changed [(''ensure'', ''link''), (''target'', ''/tmp'')]
   | None \<Rightarrow> False"
  by code_simp

lemma link_to_other:
  "case file_test [''/tmp/f'' \<mapsto> File_node 420 ''original''] ''/tmp/f'' [(''ensure'', ''link''), (''target'', ''/var/tmp'')] of
     Some (was, chgs, changed) \<Rightarrow> length chgs = 2 \<and> ''target'' \<in> set chgs \<and>
       has_attrs changed [(''ensure'', ''link''), (''target'', ''/var/tmp'')]
   | None \<Rightarrow> False"
  by code_simp

lemma link_to_directory:
  "case file_test [''/tmp/f'' \<mapsto> File_node 420 ''original''] ''/tmp/f'' [(''ensure'', ''directory'')] of
     Some (was, chgs, changed) \<Rightarrow> chgs = [''ensure''] \<and> has_attrs changed [(''ensure'', ''directory'')]
   | None \<Rightarrow> False"
  by code_simp

end
