(* ===== verification/Ral.thy ===== *)
theory Ral
  imports Environment
begin

section \<open>The ral object: data directories and providers\<close>

text \<open>
  \<open>lib/src/ral.cc\<close>, \<open>lib/src/environment.cc\<close>, \<open>lib/src/target.cc\<close>: where providers are looked for,
  which ones are usable, and how one is chosen by name. The process environment is a map; the
  file system calls involved (\<open>absolute\<close>, \<open>canonical\<close>, listing and reading files) are parameters.
\<close>

subsection \<open>Creating the object\<close>

type_synonym penv = "string \<Rightarrow> string option"

text \<open>The loop that splits \<open>RALSH_DATA_DIR\<close> on colons.\<close>

function split_dirs :: "string \<Rightarrow> string list" where
  "split_dirs s = (case find_char (CHR '':'') s of
      None \<Rightarrow> [s]
    | Some e \<Rightarrow> take e s # split_dirs (drop (Suc e) s))"
  by pat_completeness auto

termination
  by (relation "measure length") (auto dest!: find_char_SomeD)

declare split_dirs.simps [simp del]

fun lens_dirs :: "bool \<Rightarrow> string list \<Rightarrow> string" where
  "lens_dirs first [] = []"
| "lens_dirs first (d # ds) = (if first then [] else '':'') @ d @ ''/lenses'' @ lens_dirs False ds"

definition update_augeas_lens_lib :: "string list \<Rightarrow> penv \<Rightarrow> penv" where
  "update_augeas_lens_lib data_dirs env =
     (let buf = lens_dirs True data_dirs in
      case env ''AUGEAS_LENS_LIB'' of
        Some v \<Rightarrow> env(''AUGEAS_LENS_LIB'' \<mapsto> v @ '':'' @ buf)
      | None \<Rightarrow> env(''AUGEAS_LENS_LIB'' \<mapsto> buf))"

definition ral_data_dirs :: "(string \<Rightarrow> string) \<Rightarrow> string \<Rightarrow> penv \<Rightarrow> string list \<Rightarrow> string list" where
  "ral_data_dirs absolute_path default_dir env data_dirs =
     map absolute_path data_dirs @
     (case env ''RALSH_DATA_DIR'' of None \<Rightarrow> [] | Some v \<Rightarrow> map absolute_path (split_dirs v)) @
     [absolute_path default_dir]"

definition ral_create :: "(string \<Rightarrow> string) \<Rightarrow> string \<Rightarrow> string \<Rightarrow> penv \<Rightarrow> string list \<Rightarrow> ral \<times> penv" where
  "ral_create absolute_path default_dir default_libexec env data_dirs =
     (let dirs = ral_data_dirs absolute_path default_dir env data_dirs;
          libexec = (case env ''RALSH_LIBEXEC_DIR'' of None \<Rightarrow> default_libexec | Some d \<Rightarrow> d);
          env1 = (case env ''PATH'' of
              Some path \<Rightarrow> env(''PATH'' \<mapsto> libexec @ '':'' @ path)
            | None \<Rightarrow> env(''PATH'' \<mapsto> libexec))
      in (\<lparr>ra_data_dirs = dirs, ra_target = None, ra_local = True\<rparr>, update_augeas_lens_lib dirs env1))"

text \<open>Connecting replaces the local target by the ssh one only if the connection works.\<close>

definition ral_connect :: "'w exe_ops \<Rightarrow> ssh_conf \<Rightarrow> (ral \<times> 'w ssh_state, unit) prog" where
  "ral_connect ex sc = (\<lambda>(r, s). case ssh_connect ex sc s of
      (Ok _, s') \<Rightarrow> (Ok (), (r\<lparr>ra_target := Some sc, ra_local := False\<rparr>, s'))
    | (Err e, s') \<Rightarrow> (Err e, (r, s'))
    | (Exn x, s') \<Rightarrow> (Exn x, (r, s')))"

definition find_in_data_dirs :: "(string \<Rightarrow> string \<Rightarrow> string option) \<Rightarrow> ral \<Rightarrow> string \<Rightarrow> string option" where
  "find_in_data_dirs canon r file =
     (case List.map_filter (\<lambda>dir. canon file dir) (ra_data_dirs r) of [] \<Rightarrow> None | p # _ \<Rightarrow> Some p)"

subsection \<open>External providers\<close>

definition run_describe :: "'w target \<Rightarrow> (command \<times> 'w, string) prog" where
  "run_describe tgt = bnd (command_executable tgt) (\<lambda>exec.
     if exec
     then bnd (command_execute tgt [''ral_action=describe''] None) (\<lambda>res.
       if \<not> cr_success res
       then (if cr_output res = [] then fail (''ignored as it exited with status '' @ show_int (cr_exit_code res))
             else fail (''ignored as it exited with status '' @ show_int (cr_exit_code res) @
                        ''. Output was '' @ quoted (cr_output res)))
       else if cr_error res \<noteq> [] then fail (''ignored as it produced stderr '' @ quoted (cr_error res))
       else ret (cr_output res))
     else (\<lambda>(c, w). (Err (''file '' @ c_cmd c @ '' looks like a provider but is not executable''), (c, w))))"

text \<open>The metadata next to a provider file, or what the provider says of itself. The path ends in \<open>.prov\<close>.\<close>

definition yaml_path :: "string \<Rightarrow> string" where
  "yaml_path path = take (length path - length ''.prov'') path @ ''.yaml''"

definition get_metadata :: "'w target \<Rightarrow> (string \<Rightarrow> string option) \<Rightarrow> string \<Rightarrow> (command \<times> 'w, string) prog" where
  "get_metadata tgt readable path = (case readable (yaml_path path) of
      Some content \<Rightarrow> ret content
    | None \<Rightarrow> run_describe tgt)"

text \<open>Log messages go to the logging library, a function on the world.\<close>

type_synonym 'w logger = "log_level \<Rightarrow> string \<Rightarrow> 'w \<Rightarrow> 'w"

definition prov_prefix :: "string \<Rightarrow> string" where
  "prov_prefix source = ''provider['' @ source @ '']''"

definition init_provider :: "'w logger \<Rightarrow> string \<Rightarrow> ('w, 'p provider \<times> prov_spec) prog \<Rightarrow> 'p provider \<Rightarrow> ('w, 'p provider option) prog" where
  "init_provider log name describe p w = (case provider_prepare describe p w of
      (Ok p', w') \<Rightarrow> (case pv_spec p' of
          None \<Rightarrow> (Exn (Undefined ''spec is not initialised''), w')
        | Some sp \<Rightarrow>
            if ps_suitable sp then (Ok (Some p'), w')
            else (Ok None, log Log_info (prov_prefix (pv_source p') @ '' for '' @ name @ '' is not suitable'') w'))
    | (Err e, w') \<Rightarrow> (Ok None, log Log_warning (prov_prefix name @ '' failed to prepare: '' @ e) w')
    | (Exn x, w') \<Rightarrow> (Exn x, w'))"

text \<open>
  What loading an external provider needs: the target, its way to make a command of a script
  (which may give none), readable files, the name of a path without directory and extension, the
  parser of metadata, the constructors of the two provider classes (they take over the command
  object, which lives in the world) and the log.
\<close>

record ('w, 'p) loader =
  lo_target :: "'w target"
  lo_script :: "string \<Rightarrow> 'w \<Rightarrow> command option \<times> 'w"
  lo_readable :: "string \<Rightarrow> string option"
  lo_stem :: "string \<Rightarrow> string"
  lo_parse_spec :: "string \<Rightarrow> string \<Rightarrow> ('w, prov_spec) prog"
  lo_simple :: "command \<Rightarrow> prov_spec \<Rightarrow> 'w \<Rightarrow> 'p provider \<times> 'w"
  lo_json :: "command \<Rightarrow> prov_spec \<Rightarrow> 'w \<Rightarrow> 'p provider \<times> 'w"
  lo_log :: "'w logger"

definition finish_external :: "('w, 'p) loader \<Rightarrow> string \<Rightarrow> prov_spec \<Rightarrow> 'p provider \<Rightarrow> ('w, 'p provider option) prog" where
  "finish_external lo path sp p = bnd (init_provider (lo_log lo) (ps_type sp) (describe_base p) p) (\<lambda>q.
     case q of
       Some p' \<Rightarrow> bnd (modify (lo_log lo Log_info (prov_prefix path @ '' ('' @ ps_invoke sp @ '') for '' @ ps_type sp @ '' loaded'')))
         (\<lambda>_. ret (Some p'))
     | None \<Rightarrow> ret None)"

text \<open>From the metadata on.\<close>

definition load_parsed :: "('w, 'p) loader \<Rightarrow> string \<Rightarrow> command \<Rightarrow> string \<Rightarrow> ('w, 'p provider option) prog" where
  "load_parsed lo path c yaml w = (case lo_parse_spec lo (lo_stem lo (c_cmd c)) yaml w of
      (Err e, w1) \<Rightarrow> (Ok None, lo_log lo Log_error (prov_prefix path @ '': '' @ e) w1)
    | (Exn x, w1) \<Rightarrow> (Exn x, w1)
    | (Ok sp, w1) \<Rightarrow>
        if ps_invoke sp = ''simple'' then (case lo_simple lo c sp w1 of (p, w2) \<Rightarrow> finish_external lo path sp p w2)
        else if ps_invoke sp = ''json'' then (case lo_json lo c sp w1 of (p, w2) \<Rightarrow> finish_external lo path sp p w2)
        else (Ok None, lo_log lo Log_error (prov_prefix path @ '': unknown calling convention '' @ quoted (ps_invoke sp) @
          '', expected '' @ quoted ''simple'' @ '' or '' @ quoted ''json'') w1))"

definition load_external :: "('w, 'p) loader \<Rightarrow> string \<Rightarrow> ('w, 'p provider option) prog" where
  "load_external lo path w = (case lo_script lo path w of
      (None, w') \<Rightarrow> (Exn (Undefined ''null command''), w')
    | (Some cmd, w') \<Rightarrow>
        (case get_metadata (lo_target lo) (lo_readable lo) path (cmd, w') of
           (Err e, (c, w2)) \<Rightarrow> (Ok None, lo_log lo Log_warning (prov_prefix path @ '': '' @ e) w2)
         | (Exn x, (c, w2)) \<Rightarrow> (Exn x, w2)
         | (Ok yaml, (c, w2)) \<Rightarrow> load_parsed lo path c yaml w2))"

fun load_all :: "('w, 'p) loader \<Rightarrow> string list \<Rightarrow> ('w, 'p provider list) prog" where
  "load_all lo [] = ret []"
| "load_all lo (path # paths) = bnd (load_external lo path) (\<lambda>p. bnd (load_all lo paths) (\<lambda>ps.
     ret (case p of Some x \<Rightarrow> x # ps | None \<Rightarrow> ps)))"

text \<open>The built-in providers: name, \<open>describe\<close> and the object before it is described.\<close>

type_synonym ('w, 'p) builtin = "string \<times> ('w, 'p provider \<times> prov_spec) prog \<times> 'p provider"

fun init_builtin :: "'w logger \<Rightarrow> ('w, 'p) builtin list \<Rightarrow> ('w, 'p provider list) prog" where
  "init_builtin log [] = ret []"
| "init_builtin log ((name, describe, p) # ps) = bnd (init_provider log name describe p) (\<lambda>q.
     bnd (init_builtin log ps) (\<lambda>qs. ret (case q of Some x \<Rightarrow> x # qs | None \<Rightarrow> qs)))"

text \<open>The qualified name of a provider that was loaded; sorting is \<open>std::sort\<close> by that name (the
  order of providers with the same name, which the library leaves open, is that of loading).\<close>

definition qname_of :: "'p provider \<Rightarrow> string" where
  "qname_of p = (case pv_spec p of None \<Rightarrow> [] | Some sp \<Rightarrow> ps_qname sp)"

definition type_of :: "'p provider \<Rightarrow> string" where
  "type_of p = (case pv_spec p of None \<Rightarrow> [] | Some sp \<Rightarrow> ps_type sp)"

definition ral_providers ::
  "('w, 'p) loader \<Rightarrow> ('w, 'p) builtin list \<Rightarrow> (string \<Rightarrow> string list) \<Rightarrow> ral \<Rightarrow> ('w, 'p provider list) prog" where
  "ral_providers lo builtin list_prov r = bnd (init_builtin (lo_log lo) builtin) (\<lambda>bs.
     bnd (load_all lo (concat (map (\<lambda>dir. list_prov (dir @ ''/providers'')) (ra_data_dirs r)))) (\<lambda>es.
       ret (sort_key qname_of (bs @ es))))"

subsection \<open>Choosing a provider\<close>

fun unique_type :: "string \<Rightarrow> 'p provider list \<Rightarrow> 'p provider option \<Rightarrow> 'p provider option" where
  "unique_type name [] prov = prov"
| "unique_type name (p # ps) prov =
     (if type_of p = name then (case prov of None \<Rightarrow> unique_type name ps (Some p) | Some _ \<Rightarrow> None)
      else unique_type name ps prov)"

definition find_provider :: "'p provider list \<Rightarrow> string \<Rightarrow> 'p provider option" where
  "find_provider provs name = (case find (\<lambda>p. qname_of p = name) provs of
      Some p \<Rightarrow> Some p
    | None \<Rightarrow> unique_type name provs None)"

subsection \<open>Properties\<close>

lemma split_dirs_eq: "split_dirs s = split_on (CHR '':'') s"
proof (induction s rule: split_dirs.induct)
  case (1 s)
  show ?case
  proof (cases "find_char (CHR '':'') s")
    case None
    then have "CHR '':'' \<notin> set s" by (simp add: find_char_None_iff)
    then show ?thesis by (simp add: split_dirs.simps [of s] None split_on_self)
  next
    case (Some e)
    then have "split_on (CHR '':'') s = take e s # split_on (CHR '':'') (drop (Suc e) s)"
      using split_on_append [of "CHR '':''" "take e s" "drop (Suc e) s"] find_char_SomeD [OF Some] find_char_split [OF Some]
      by metis
    with "1.IH" [OF Some] Some show ?thesis by (simp add: split_dirs.simps [of s])
  qed
qed

lemma lens_dirs_eq: "lens_dirs True ds = join '':'' (map (\<lambda>d. d @ ''/lenses'') ds)"
proof -
  have "lens_dirs False ds = (if ds = [] then [] else '':'' @ join '':'' (map (\<lambda>d. d @ ''/lenses'') ds))" for ds
    by (induction ds) (auto simp: join_Cons)
  then show ?thesis by (cases ds) (auto simp: join_Cons)
qed

text \<open>Providers are searched in the directories given by the caller, then in those of
  \<open>RALSH_DATA_DIR\<close> in their order, then in the default one, all made absolute; the lens path
  keeps what it had and gets the \<open>lenses\<close> directory of each, in the same order; \<open>PATH\<close> is only
  ever extended at its front.\<close>

theorem ral_search_order:
  "ral_create ap dd lx env dirs = (r, env') \<Longrightarrow>
    ra_data_dirs r = map ap (dirs @ (case env ''RALSH_DATA_DIR'' of None \<Rightarrow> [] | Some v \<Rightarrow> split_on (CHR '':'') v) @ [dd]) \<and>
    ra_local r \<and>
    env' ''AUGEAS_LENS_LIB'' = Some ((case env ''AUGEAS_LENS_LIB'' of None \<Rightarrow> [] | Some v \<Rightarrow> v @ '':'') @
      join '':'' (map (\<lambda>d. d @ ''/lenses'') (ra_data_dirs r))) \<and>
    (\<exists>front. env' ''PATH'' = Some (front @ (case env ''PATH'' of None \<Rightarrow> [] | Some p \<Rightarrow> '':'' @ p)))"
  by (auto simp: ral_create_def ral_data_dirs_def update_augeas_lens_lib_def Let_def split_dirs_eq lens_dirs_eq
      split: option.splits)

theorem ral_search_order_witness:
  "\<exists>r env'. ral_create (\<lambda>p. ''/w/'' @ p) ''data'' ''bin'' [''RALSH_DATA_DIR'' \<mapsto> ''a:b''] [''inc''] = (r, env') \<and>
     ra_data_dirs r = [''/w/inc'', ''/w/a'', ''/w/b'', ''/w/data'']"
proof -
  obtain r env' where c: "ral_create (\<lambda>p. ''/w/'' @ p) ''data'' ''bin'' [''RALSH_DATA_DIR'' \<mapsto> ''a:b''] [''inc''] = (r, env')"
    by fastforce
  from ral_search_order [OF c] c show ?thesis by simp
qed

text \<open>\<open>is_local\<close> says whether the target is the local one, whatever connections were tried.\<close>

definition ral_consistent :: "ral \<Rightarrow> bool" where
  "ral_consistent r \<longleftrightarrow> (ra_local r \<longleftrightarrow> ra_target r = None)"

lemma ral_create_consistent: "ral_create ap dd lx env dirs = (r, env') \<Longrightarrow> ral_consistent r"
  by (auto simp: ral_create_def ral_consistent_def Let_def)

lemma ral_connect_consistent:
  "ral_connect ex sc (r, s) = (res, (r', s')) \<Longrightarrow> ral_consistent r \<Longrightarrow> ral_consistent r' \<and>
    (is_Ok res \<longrightarrow> ra_target r' = Some sc) \<and> (\<not> is_Ok res \<longrightarrow> r' = r)"
  by (auto simp: ral_connect_def ral_consistent_def split: prod.splits outcome.splits)

lemma unique_type_eq:
  "unique_type name ps prov =
     (case (case prov of None \<Rightarrow> [] | Some p \<Rightarrow> [p]) @ filter (\<lambda>p. type_of p = name) ps of
        [p] \<Rightarrow> Some p | _ \<Rightarrow> None)"
  by (induction name ps prov rule: unique_type.induct) (auto split: option.splits list.splits)

text \<open>C27: a provider is found by its qualified name if there is one of that name, whatever else
  matches; otherwise by its type, and only if exactly one provider has that type, so an
  ambiguous type finds none.\<close>

theorem find_provider_exact:
  "find_provider provs name = (if \<exists>p \<in> set provs. qname_of p = name
     then find (\<lambda>p. qname_of p = name) provs
     else (case filter (\<lambda>p. type_of p = name) provs of [p] \<Rightarrow> Some p | _ \<Rightarrow> None))"
proof (cases "find (\<lambda>p. qname_of p = name) provs")
  case None
  then have "\<not> (\<exists>p \<in> set provs. qname_of p = name)" by (auto simp: find_None_iff)
  then show ?thesis by (simp add: find_provider_def None unique_type_eq)
next
  case (Some p)
  then show ?thesis by (auto simp: find_provider_def dest: find_Some_member)
qed

text \<open>On the local target a file that looks like a provider but is not executable is not skipped
  with the message written for it: the search for its command comes back empty and the null
  command is used, whether or not the file has metadata next to it.\<close>

theorem load_not_executable:
  assumes "lo_script lo = local_script ex" and "ex_which ex path w = []"
  shows "load_external lo path w = (Exn (Undefined ''null command''), w)"
  using assms by (simp add: load_external_def local_script_def local_command_def local_which_def)

text \<open>A loader that finds no providers, for concrete runs.\<close>

definition demo_loader :: "nat exe_ops \<Rightarrow> (nat, nat) loader" where
  "demo_loader ex = \<lparr>lo_target = local_target ex, lo_script = local_script ex,
      lo_readable = (\<lambda>p. Some ''provider: {}''), lo_stem = id, lo_parse_spec = (\<lambda>n y. fail []),
      lo_simple = (\<lambda>c sp w. ((demo_provider [])\<lparr>pv_spec := Some sp\<rparr>, w)),
      lo_json = (\<lambda>c sp w. ((demo_provider [])\<lparr>pv_spec := Some sp\<rparr>, w)), lo_log = (\<lambda>l t w. w)\<rparr>"

theorem load_not_executable_witness:
  "fst (load_external (demo_loader (demo_exe\<lparr>ex_which := \<lambda>n w. []\<rparr>)) ''/d/providers/x.prov'' 0) =
    Exn (Undefined ''null command'')"
  by (subst load_not_executable [where ex = "demo_exe\<lparr>ex_which := \<lambda>n w. []\<rparr>"]) (simp_all add: demo_loader_def)

text \<open>Every provider that \<open>providers\<close> gives is suitable, so \<open>find_provider\<close> never chooses another.\<close>

definition usable :: "'p provider \<Rightarrow> bool" where
  "usable p \<longleftrightarrow> (\<exists>sp. pv_spec p = Some sp \<and> ps_suitable sp)"

lemma init_provider_usable: "init_provider log n d p w = (Ok (Some q), w') \<Longrightarrow> usable q"
  by (auto simp: init_provider_def usable_def split: outcome.splits option.splits if_splits prod.splits)

lemma finish_external_usable: "finish_external lo path sp p w = (Ok (Some q), w') \<Longrightarrow> usable q"
  by (auto simp: finish_external_def bnd_Ok_iff ret_def modify_def dest: init_provider_usable split: option.splits)

lemma load_external_usable: "load_external lo path w = (Ok (Some q), w') \<Longrightarrow> usable q"
  by (auto simp: load_external_def load_parsed_def dest: finish_external_usable split: outcome.splits option.splits prod.splits if_splits)

lemma load_all_usable: "load_all lo paths w = (Ok ps, w') \<Longrightarrow> p \<in> set ps \<Longrightarrow> usable p"
proof (induction paths arbitrary: w ps)
  case (Cons path paths)
  then obtain q w1 qs where "load_external lo path w = (Ok q, w1)" "load_all lo paths w1 = (Ok qs, w')"
      "ps = (case q of Some x \<Rightarrow> x # qs | None \<Rightarrow> qs)"
    by (auto simp: bnd_Ok_iff ret_def)
  with Cons.IH Cons.prems(2) load_external_usable [of lo path w _ w1] show ?case by (auto split: option.splits)
qed (simp add: ret_def)

text \<open>Each provider made of the built-in ones is one that its own initialisation gave.\<close>

lemma init_builtin_from:
  "init_builtin log ds w = (Ok ps, w') \<Longrightarrow> q \<in> set ps \<Longrightarrow>
    \<exists>n d p v v'. (n, d, p) \<in> set ds \<and> init_provider log n d p v = (Ok (Some q), v')"
proof (induction ds arbitrary: ps w)
  case (Cons b ds)
  obtain n d p where b: "b = (n, d, p)" by (cases b)
  from Cons.prems(1) obtain r w1 rs where r: "init_provider log n d p w = (Ok r, w1)"
      and rs: "init_builtin log ds w1 = (Ok rs, w')" and ps: "ps = (case r of Some x \<Rightarrow> x # rs | None \<Rightarrow> rs)"
    by (auto simp: b bnd_Ok_iff ret_def)
  show ?case
  proof (cases "r = Some q")
    case True
    with r b show ?thesis by (metis list.set_intros(1))
  next
    case False
    with Cons.prems(2) ps have "q \<in> set rs" by (auto split: option.splits)
    from Cons.IH [OF rs this] show ?thesis by (metis list.set_intros(2))
  qed
qed (simp add: ret_def)

lemma init_builtin_usable: "init_builtin log ds w = (Ok ps, w') \<Longrightarrow> p \<in> set ps \<Longrightarrow> usable p"
  by (auto dest!: init_builtin_from init_provider_usable)

lemma ral_providers_parts:
  assumes "ral_providers lo builtin list_prov r w = (Ok ps, w')"
  obtains bs w1 es where "init_builtin (lo_log lo) builtin w = (Ok bs, w1)"
    and "load_all lo (concat (map (\<lambda>dir. list_prov (dir @ ''/providers'')) (ra_data_dirs r))) w1 = (Ok es, w')"
    and "ps = sort_key qname_of (bs @ es)"
  using assms by (auto simp: ral_providers_def bnd_Ok_iff ret_def)

text \<open>C26: the providers on offer are all suitable, in the order of their qualified names, and are the
  built-in ones that could be prepared and what the provider files of the data directories, taken
  in the order of the directories, add to them.\<close>

theorem providers_suitable_sorted:
  assumes "ral_providers lo builtin list_prov r w = (Ok ps, w')"
  shows "(\<forall>p \<in> set ps. usable p) \<and> sorted (map qname_of ps) \<and>
    (\<exists>bs w1 es. init_builtin (lo_log lo) builtin w = (Ok bs, w1) \<and>
       load_all lo (concat (map (\<lambda>dir. list_prov (dir @ ''/providers'')) (ra_data_dirs r))) w1 = (Ok es, w') \<and>
       set ps = set bs \<union> set es)"
proof -
  from ral_providers_parts [OF assms] obtain bs w1 es where "init_builtin (lo_log lo) builtin w = (Ok bs, w1)"
      and "load_all lo (concat (map (\<lambda>dir. list_prov (dir @ ''/providers'')) (ra_data_dirs r))) w1 = (Ok es, w')"
      and "ps = sort_key qname_of (bs @ es)" .
  moreover from this have "\<forall>p \<in> set ps. usable p" by (auto dest: init_builtin_usable load_all_usable)
  ultimately show ?thesis by (auto simp: sorted_sort_key)
qed

theorem providers_suitable_sorted_witness:
  "\<exists>ps w'. ral_providers (demo_loader demo_exe) [(''d'', fail [], demo_provider [])] (\<lambda>d. [])
     \<lparr>ra_data_dirs = [], ra_target = None, ra_local = True\<rparr> 0 = (Ok ps, w') \<and> sorted (map qname_of ps)"
proof -
  obtain ps w' where p: "ral_providers (demo_loader demo_exe) [(''d'', fail [], demo_provider [])] (\<lambda>d. [])
      \<lparr>ra_data_dirs = [], ra_target = None, ra_local = True\<rparr> 0 = (Ok ps, w')"
    by (simp add: ral_providers_def bnd_def ret_def init_provider_def provider_prepare_def demo_provider_def)
  from providers_suitable_sorted [OF p] p show ?thesis by blast
qed

subsection \<open>Loading always comes to an end\<close>

text \<open>Code that may report an error but never throws.\<close>

definition no_throw :: "('s, 'a) prog \<Rightarrow> bool" where
  "no_throw m \<longleftrightarrow> (\<forall>s x. fst (m s) \<noteq> Exn x)"

lemma no_throw_bnd: "no_throw m \<Longrightarrow> (\<And>a. no_throw (f a)) \<Longrightarrow> no_throw (bnd m f)"
  by (auto simp: no_throw_def bnd_def split: prod.split outcome.split) (metis fst_conv)

lemma no_throw_if: "no_throw m \<Longrightarrow> no_throw m' \<Longrightarrow> no_throw (if b then m else m')"
  by simp

lemma no_throw_value [simp]: "no_throw (ret a)" "no_throw (fail e)"
  by (simp_all add: no_throw_def ret_def fail_def)

text \<open>Code that always gives a result: no error and no exception.\<close>

definition always_ok :: "('s, 'a) prog \<Rightarrow> bool" where
  "always_ok m \<longleftrightarrow> (\<forall>s. \<exists>a t. m s = (Ok a, t))"

lemma always_ok_bnd: "always_ok m \<Longrightarrow> (\<And>a. always_ok (f a)) \<Longrightarrow> always_ok (bnd m f)"
  by (auto simp: always_ok_def bnd_def split: prod.split outcome.split) (metis fst_conv is_Ok.simps)+

lemma always_ok_ret [simp]: "always_ok (ret a)"
  by (simp add: always_ok_def ret_def)

lemma command_upload_no_throw: "(\<And>c. no_throw (t_upload tgt c)) \<Longrightarrow> no_throw (command_upload tgt)"
  by (auto simp: no_throw_def command_upload_def split: prod.split outcome.split) (metis fst_conv)

lemma get_metadata_no_throw:
  assumes "\<And>c. no_throw (t_upload tgt c)"
  shows "no_throw (get_metadata tgt rd path)"
proof -
  note up = command_upload_no_throw [OF assms]
  have "no_throw (command_executable tgt)" "no_throw (command_execute tgt as i)" for as i
    using up by (auto simp: no_throw_def command_executable_def command_execute_def split: prod.split outcome.split) (metis fst_conv)+
  moreover have "no_throw (\<lambda>(c, w). (Err (m c), (c, w)))" for m :: "command \<Rightarrow> string" by (auto simp: no_throw_def)
  ultimately have "no_throw (run_describe tgt)"
    unfolding run_describe_def by (intro no_throw_bnd no_throw_if no_throw_value)
  then show ?thesis by (simp add: get_metadata_def split: option.split)
qed

lemma init_provider_total:
  assumes "no_throw d" and "pv_spec p = None \<or> pv_spec p = Some sp"
  shows "always_ok (init_provider log n d p)"
  unfolding always_ok_def
proof
  fix s
  obtain res t where prep: "provider_prepare d p s = (res, t)" by fastforce
  have "no_throw (provider_prepare d p)"
    unfolding provider_prepare_def using assms(1) by (auto split: option.split prod.split intro!: no_throw_bnd)
  with prep have "res \<noteq> Exn x" for x unfolding no_throw_def by (metis fst_conv)
  moreover have "pv_spec p' \<noteq> None" if "res = Ok p'" for p'
    using prep that by (auto simp: provider_prepare_def bnd_Ok_iff ret_def split: option.splits)
  ultimately show "\<exists>a t. init_provider log n d p s = (Ok a, t)"
    by (cases res) (auto simp: init_provider_def prep split: option.split)
qed

lemma finish_external_total: "pv_spec p = Some sp \<Longrightarrow> always_ok (finish_external lo path sp p)"
  unfolding finish_external_def
  by (intro always_ok_bnd init_provider_total [where sp = sp])
    (auto simp: describe_base_def always_ok_def modify_def bnd_def ret_def split: option.split)

text \<open>What loading relies on: scripts can be turned into commands, uploads and the
  parser of metadata do not throw, and constructors keep the specification they are given.\<close>

definition loader_ok :: "('w, 'p) loader \<Rightarrow> bool" where
  "loader_ok lo \<longleftrightarrow> (\<forall>path w. fst (lo_script lo path w) \<noteq> None) \<and> (\<forall>c. no_throw (t_upload (lo_target lo) c)) \<and>
     (\<forall>n y. no_throw (lo_parse_spec lo n y)) \<and>
     (\<forall>c sp w. pv_spec (fst (lo_simple lo c sp w)) = Some sp \<and> pv_spec (fst (lo_json lo c sp w)) = Some sp)"

lemma load_parsed_total:
  assumes "loader_ok lo"
  shows "always_ok (load_parsed lo path c yaml)"
  unfolding always_ok_def
proof
  fix w
  obtain res w1 where p: "lo_parse_spec lo (lo_stem lo (c_cmd c)) yaml w = (res, w1)" by fastforce
  with assms have x: "res \<noteq> Exn x" for x unfolding loader_ok_def no_throw_def by (metis fst_conv)
  have fin: "\<exists>a t. (case new c sp w1 of (q, w2) \<Rightarrow> finish_external lo path sp q w2) = (Ok a, t)"
    if "pv_spec (fst (new c sp w1)) = Some sp" for new :: "command \<Rightarrow> prov_spec \<Rightarrow> 'a \<Rightarrow> 'b provider \<times> 'a" and sp
    using that finish_external_total [of _ sp lo path] by (cases "new c sp w1") (auto simp: always_ok_def)
  show "\<exists>a t. load_parsed lo path c yaml w = (Ok a, t)"
    using assms x fin [of "lo_simple lo"] fin [of "lo_json lo"] by (cases res) (auto simp: load_parsed_def p loader_ok_def)
qed

lemma load_external_total:
  assumes "loader_ok lo"
  shows "always_ok (load_external lo path)"
  unfolding always_ok_def
proof
  fix w
  obtain cmd w1 where c: "lo_script lo path w = (Some cmd, w1)"
    using assms unfolding loader_ok_def by (metis fst_conv not_None_eq prod.collapse)
  obtain res c' w2 where m: "get_metadata (lo_target lo) (lo_readable lo) path (cmd, w1) = (res, (c', w2))" by (metis prod_cases3)
  have "no_throw (get_metadata (lo_target lo) (lo_readable lo) path)"
    using assms by (intro get_metadata_no_throw) (simp add: loader_ok_def)
  with m have "res \<noteq> Exn x" for x unfolding no_throw_def by (metis fst_conv)
  then show "\<exists>a t. load_external lo path w = (Ok a, t)"
    using load_parsed_total [OF assms] by (cases res) (auto simp: load_external_def c m always_ok_def)
qed

lemma load_all_total: "loader_ok lo \<Longrightarrow> always_ok (load_all lo paths)"
  by (induction paths) (auto intro!: always_ok_bnd load_external_total)

lemma init_builtin_total:
  "(\<And>n d p. (n, d, p) \<in> set bs \<Longrightarrow> no_throw d \<and> pv_spec p = None) \<Longrightarrow> always_ok (init_builtin log bs)"
proof (induction bs)
  case (Cons b bs)
  obtain n d p where b: "b = (n, d, p)" by (cases b)
  with Cons.prems [of n d p] have "always_ok (init_provider log n d p)" by (intro init_provider_total) auto
  moreover have "always_ok (init_builtin log bs)"
    by (rule Cons.IH) (use Cons.prems in \<open>auto intro: list.set_intros(2)\<close>)
  ultimately show ?case by (auto simp: b intro!: always_ok_bnd)
qed simp



end
