(* ===== verification/Emitter.thy ===== *)
theory Emitter
  imports Provider Json "HOL-Library.Word"
begin

section \<open>Emitters\<close>

text \<open>
  \<open>lib/src/emitter/json_emitter.cc\<close>, \<open>lib/src/emitter/puppet_emitter.cc\<close>: how results are shown.
  What is printed is a text; building it can leave by an exception when a provider has no
  metadata or a recorded change is for the name.
\<close>

subsection \<open>The JSON emitter\<close>

text \<open>Here \<open>none\<close> becomes the string \<open>__none__\<close>, not the \<open>null\<close> that providers are given.\<close>

fun json_set_value :: "'j json_ops \<Rightarrow> string \<Rightarrow> value_base \<Rightarrow> 'j \<Rightarrow> 'j" where
  "json_set_value js key VNone j = js_set_string js [key] ''__none__'' j"
| "json_set_value js key (VBool b) j = js_set_bool js [key] b j"
| "json_set_value js key (VStr s) j = js_set_string js [key] s j"
| "json_set_value js key (VArr a) j = js_set_strings js [key] a j"

definition json_meta :: "'j json_ops \<Rightarrow> 'w provider \<Rightarrow> 'j outcome" where
  "json_meta js p = obind (provider_type_name p) (\<lambda>t. obind (provider_qname p) (\<lambda>q.
     Ok (js_set_string js [''provider''] q (js_set_string js [''type''] t (js_empty js)))))"

definition resource_to_json :: "'j json_ops \<Rightarrow> 'w provider \<Rightarrow> resource \<Rightarrow> 'j outcome" where
  "resource_to_json js p r =
     (let j = foldl (\<lambda>j (k, v). json_set_value js k v j) (js_set_string js [''name''] (res_name r) (js_empty js)) (attrs r)
      in obind (json_meta js p) (\<lambda>m. Ok (js_set_object js [''ral''] m j)))"

definition json_error :: "'j json_ops \<Rightarrow> string \<Rightarrow> 'j" where
  "json_error js detail = js_set_object js [''error'']
     (js_set_string js [''message''] (''failed: '' @ detail) (js_empty js)) (js_empty js)"

definition change_to_json :: "'j json_ops \<Rightarrow> change \<Rightarrow> 'j" where
  "change_to_json js ch = json_set_value js ''was'' (ch_was ch) (json_set_value js ''is'' (ch_is ch)
     (js_set_string js [''attr''] (ch_attr ch) (js_empty js)))"

fun outcome_map :: "('x \<Rightarrow> 'y outcome) \<Rightarrow> 'x list \<Rightarrow> 'y list outcome" where
  "outcome_map f [] = Ok []"
| "outcome_map f (x # xs) = obind (f x) (\<lambda>y. obind (outcome_map f xs) (\<lambda>ys. Ok (y # ys)))"

definition pair_to_json :: "'j json_ops \<Rightarrow> 'w provider \<Rightarrow> update \<times> changes \<Rightarrow> 'j outcome" where
  "pair_to_json js p = (\<lambda>(u, chgs). obind (create_updated u chgs) (\<lambda>r. obind (resource_to_json js p r) (\<lambda>j.
     Ok (js_set_objects js [''changes''] (map (change_to_json js) chgs) (js_set_object js [''resource''] j (js_empty js))))))"

definition json_parse_set :: "'j json_ops \<Rightarrow> 'w provider \<Rightarrow> (update \<times> changes) list outcome \<Rightarrow> string outcome" where
  "json_parse_set js p rslt = (case rslt of
      Err e \<Rightarrow> Ok (js_print js (json_error js e))
    | Ok pairs \<Rightarrow> obind (outcome_map (pair_to_json js p) pairs) (\<lambda>l.
        Ok (js_print js (js_set_objects js [''result''] l (js_empty js))))
    | Exn x \<Rightarrow> Exn x)"

definition json_parse_find :: "'j json_ops \<Rightarrow> 'w provider \<Rightarrow> resource option outcome \<Rightarrow> string outcome" where
  "json_parse_find js p inst = (case inst of
      Err e \<Rightarrow> Ok (js_print js (json_error js e))
    | Ok (Some r) \<Rightarrow> obind (resource_to_json js p r) (\<lambda>j. Ok (js_print js (js_set_object js [''resource''] j (js_empty js))))
    | Ok None \<Rightarrow> Ok (js_print js (js_empty js))
    | Exn x \<Rightarrow> Exn x)"

definition json_parse_list :: "'j json_ops \<Rightarrow> 'w provider \<Rightarrow> resource list outcome \<Rightarrow> string outcome" where
  "json_parse_list js p rslt = (case rslt of
      Err e \<Rightarrow> Ok (js_print js (json_error js e))
    | Ok rs \<Rightarrow> obind (outcome_map (resource_to_json js p) rs) (\<lambda>l.
        Ok (js_print js (js_set_objects js [''resources''] l (js_empty js))))
    | Exn x \<Rightarrow> Exn x)"

definition attr_to_json :: "'j json_ops \<Rightarrow> attr_spec \<Rightarrow> 'j" where
  "attr_to_json js a = js_set_string js [''kind''] (show_kind (as_kind a))
     (js_set_string js [''type''] (show_data_type (as_data_type a))
     (js_set_string js [''desc''] (as_desc a) (js_set_string js [''name''] (as_name a) (js_empty js))))"

definition provider_to_json :: "'j json_ops \<Rightarrow> 'w provider \<Rightarrow> 'j outcome" where
  "provider_to_json js p = obind (provider_qname p) (\<lambda>q. obind (provider_type_name p) (\<lambda>t.
     let entry = js_set_string js [''source''] (pv_source p) (js_set_string js [''type''] t (js_set_string js [''name''] q (js_empty js)))
     in Ok (case pv_spec p of
         None \<Rightarrow> entry
       | Some sp \<Rightarrow> js_set_objects js [''attributes''] (map (\<lambda>(k, a). attr_to_json js a) (ps_attrs sp))
           (js_set_bool js [''suitable''] (ps_suitable sp) (js_set_string js [''desc''] (ps_desc sp) entry)))))"

definition json_parse_providers :: "'j json_ops \<Rightarrow> 'w provider list \<Rightarrow> string outcome" where
  "json_parse_providers js provs = obind (outcome_map (provider_to_json js) provs) (\<lambda>l.
     Ok (js_print js (js_set_objects js [''providers''] l (js_empty js))))"

subsection \<open>The puppet emitter\<close>

record colors =
  co_green :: string
  co_red :: string
  co_blue :: string
  co_reset :: string

definition init_colors :: "bool \<Rightarrow> colors" where
  "init_colors tty =
     (if tty then \<lparr>co_green = CHR 0x1B # ''[0;32m'', co_red = CHR 0x1B # ''[0;31m'', co_blue = CHR 0x1B # ''[0;34m'',
                   co_reset = CHR 0x1B # ''[0m''\<rparr>
      else \<lparr>co_green = [], co_red = [], co_blue = [], co_reset = []\<rparr>)"

text \<open>The widest attribute name, kept in 16 bits, and an attribute line padded to it.\<close>

fun max_name :: "(string \<times> value_base) list \<Rightarrow> 16 word \<Rightarrow> 16 word" where
  "max_name [] m = m"
| "max_name ((k, v) # as) m = max_name as (if unat m < length k then of_nat (length k) else m)"

definition pad :: "nat \<Rightarrow> string \<Rightarrow> string" where
  "pad width s = s @ replicate (width - length s) (CHR '' '')"

definition print_resource_attr :: "colors \<Rightarrow> string \<Rightarrow> value_base \<Rightarrow> 16 word \<Rightarrow> string" where
  "print_resource_attr co name v maxlen =
     ''  '' @ co_green co @ pad (unat maxlen) name @ co_reset co @ '' => '' @ to_quoted_string v @ '','' @ newline"

definition print_resource :: "colors \<Rightarrow> 'w provider \<Rightarrow> resource \<Rightarrow> string outcome" where
  "print_resource co p r = obind (provider_qname p) (\<lambda>q.
     let maxlen = max_name (attrs r) 0 in
     Ok (co_blue co @ q @ co_reset co @ '' { '' @ [CHR 0x27] @ co_blue co @ res_name r @ co_reset co @ [CHR 0x27] @ '':'' @ newline @
         (case lookup_ptr as_string r ''ensure'' of
            Some e \<Rightarrow> print_resource_attr co ''ensure'' (VStr e) maxlen | None \<Rightarrow> []) @
         concat (map (\<lambda>(k, v). if k = ''ensure'' then [] else print_resource_attr co k v maxlen) (attrs r)) @
         ''}'' @ newline))"

definition print_failed :: "colors \<Rightarrow> string \<Rightarrow> string" where
  "print_failed co detail = co_red co @ ''failed: '' @ detail @ co_reset co @ newline"

definition puppet_print_set :: "colors \<Rightarrow> 'w provider \<Rightarrow> (update \<times> changes) list outcome \<Rightarrow> string outcome" where
  "puppet_print_set co p rslt = (case rslt of
      Ok pairs \<Rightarrow> obind (outcome_map (\<lambda>(u, chgs). obind (create_updated u chgs) (\<lambda>r. obind (print_resource co p r) (\<lambda>t.
          Ok (t @ show_changes chgs @ newline)))) pairs) (\<lambda>ts. Ok (concat ts))
    | Err e \<Rightarrow> Ok (print_failed co e)
    | Exn x \<Rightarrow> Exn x)"

definition puppet_print_find :: "colors \<Rightarrow> 'w provider \<Rightarrow> resource option outcome \<Rightarrow> string outcome" where
  "puppet_print_find co p inst = (case inst of
      Err e \<Rightarrow> Ok (print_failed co e)
    | Ok (Some r) \<Rightarrow> print_resource co p r
    | Ok None \<Rightarrow> Ok []
    | Exn x \<Rightarrow> Exn x)"

definition puppet_print_list :: "colors \<Rightarrow> 'w provider \<Rightarrow> resource list outcome \<Rightarrow> string outcome" where
  "puppet_print_list co p rslt = (case rslt of
      Err e \<Rightarrow> Ok (print_failed co e)
    | Ok rs \<Rightarrow> obind (outcome_map (print_resource co p) rs) (\<lambda>ts. Ok (concat ts))
    | Exn x \<Rightarrow> Exn x)"

definition puppet_print_providers :: "'w provider list \<Rightarrow> string outcome" where
  "puppet_print_providers provs = obind (outcome_map provider_qname provs) (\<lambda>qs.
     Ok (concat (map (\<lambda>q. q @ newline) qs)))"

subsection \<open>The interface of emitters\<close>

record 'w emitter =
  em_set :: "'w provider \<Rightarrow> (update \<times> changes) list outcome \<Rightarrow> string outcome"
  em_find :: "'w provider \<Rightarrow> resource option outcome \<Rightarrow> string outcome"
  em_list :: "'w provider \<Rightarrow> resource list outcome \<Rightarrow> string outcome"
  em_providers :: "'w provider list \<Rightarrow> string outcome"

definition json_emitter :: "'j json_ops \<Rightarrow> 'w emitter" where
  "json_emitter js = \<lparr>em_set = (\<lambda>p r. obind (json_parse_set js p r) (\<lambda>t. Ok (t @ newline))),
     em_find = (\<lambda>p r. obind (json_parse_find js p r) (\<lambda>t. Ok (t @ newline))),
     em_list = (\<lambda>p r. obind (json_parse_list js p r) (\<lambda>t. Ok (t @ newline))),
     em_providers = (\<lambda>ps. obind (json_parse_providers js ps) (\<lambda>t. Ok (t @ newline)))\<rparr>"

definition puppet_emitter :: "colors \<Rightarrow> 'w emitter" where
  "puppet_emitter co = \<lparr>em_set = puppet_print_set co, em_find = puppet_print_find co,
     em_list = puppet_print_list co, em_providers = puppet_print_providers\<rparr>"

definition quiet_emitter :: "'w emitter" where
  "quiet_emitter = \<lparr>em_set = (\<lambda>p r. Ok []), em_find = (\<lambda>p r. Ok []), em_list = (\<lambda>p r. Ok []), em_providers = (\<lambda>ps. Ok [])\<rparr>"

text \<open>
  An emitter that always prints: for a provider with metadata, whatever result it is given, and
  however many updates, as long as no change is recorded for the name.
\<close>

definition changes_named_ok :: "(update \<times> changes) list outcome \<Rightarrow> bool" where
  "changes_named_ok r \<longleftrightarrow> (case r of Ok pairs \<Rightarrow> \<forall>(u, chgs) \<in> set pairs. ''name'' \<notin> ch_attr ` set chgs | Err e \<Rightarrow> True | Exn x \<Rightarrow> False)"

locale total_emitter =
  fixes em :: "'w emitter"
  assumes set_total: "pv_spec p = Some sp \<Longrightarrow> changes_named_ok r \<Longrightarrow> is_Ok (em_set em p r)"
    and find_total: "pv_spec p = Some sp \<Longrightarrow> \<not> (\<exists>x. i = Exn x) \<Longrightarrow> is_Ok (em_find em p i)"
    and list_total: "pv_spec p = Some sp \<Longrightarrow> \<not> (\<exists>x. l = Exn x) \<Longrightarrow> is_Ok (em_list em p l)"
begin

lemma set_prints: "pv_spec p = Some sp \<Longrightarrow> changes_named_ok r \<Longrightarrow> \<exists>t. em_set em p r = Ok t"
  using set_total by (simp add: is_Ok_iff)

lemma find_prints: "pv_spec p = Some sp \<Longrightarrow> \<not> (\<exists>x. i = Exn x) \<Longrightarrow> \<exists>t. em_find em p i = Ok t"
  using find_total by (simp add: is_Ok_iff)

lemma list_prints: "pv_spec p = Some sp \<Longrightarrow> \<not> (\<exists>x. l = Exn x) \<Longrightarrow> \<exists>t. em_list em p l = Ok t"
  using list_total by (simp add: is_Ok_iff)

end

lemma outcome_map_Ok: "(\<And>x. x \<in> set xs \<Longrightarrow> \<exists>y. f x = Ok y) \<Longrightarrow> \<exists>ys. outcome_map f xs = Ok ys"
proof (induction xs)
  case (Cons x xs)
  then obtain y ys where "f x = Ok y" "outcome_map f xs = Ok ys" by (metis list.set_intros(1,2))
  then show ?case by simp
qed simp

lemma resource_to_json_Ok: "pv_spec p = Some sp \<Longrightarrow> \<exists>j. resource_to_json js p r = Ok j"
  by (simp add: resource_to_json_def json_meta_def provider_type_name_def provider_qname_def Let_def)

lemma print_resource_Ok: "pv_spec p = Some sp \<Longrightarrow> \<exists>t. print_resource co p r = Ok t"
  by (simp add: print_resource_def provider_qname_def Let_def)

lemma pair_to_json_Ok:
  assumes "pv_spec p = Some sp" and "''name'' \<notin> ch_attr ` set chgs"
  shows "\<exists>j. pair_to_json js p (u, chgs) = Ok j"
  using create_updated_eq [OF assms(2), of u] resource_to_json_Ok [OF assms(1)]
  by (auto simp: pair_to_json_def obind_Ok_iff)

lemma puppet_pair_Ok:
  assumes "pv_spec p = Some sp" and "''name'' \<notin> ch_attr ` set chgs"
  shows "\<exists>t. obind (create_updated u chgs) (\<lambda>r. obind (print_resource co p r) (\<lambda>t. Ok (t @ show_changes chgs @ newline))) = Ok t"
  using create_updated_eq [OF assms(2), of u] print_resource_Ok [OF assms(1)]
  by (auto simp: obind_Ok_iff)

lemma json_set_total:
  assumes "pv_spec p = Some sp" and "changes_named_ok r"
  shows "is_Ok (em_set (json_emitter js) p r)"
proof (cases r)
  case (Ok pairs)
  then have "\<exists>l. outcome_map (pair_to_json js p) pairs = Ok l"
    using assms by (intro outcome_map_Ok) (auto simp: changes_named_ok_def intro!: pair_to_json_Ok)
  then show ?thesis by (auto simp: json_emitter_def json_parse_set_def Ok is_Ok_iff)
qed (use assms in \<open>simp_all add: json_emitter_def json_parse_set_def changes_named_ok_def is_Ok_iff\<close>)

lemma puppet_set_total:
  assumes "pv_spec p = Some sp" and "changes_named_ok r"
  shows "is_Ok (em_set (puppet_emitter co) p r)"
proof (cases r)
  case (Ok pairs)
  let ?f = "\<lambda>(u, chgs). obind (create_updated u chgs) (\<lambda>r. obind (print_resource co p r) (\<lambda>t. Ok (t @ show_changes chgs @ newline)))"
  have "\<exists>l. outcome_map ?f pairs = Ok l"
    using assms(2) by (intro outcome_map_Ok) (auto simp: changes_named_ok_def Ok intro!: puppet_pair_Ok [OF assms(1)])
  then show ?thesis by (auto simp: puppet_emitter_def puppet_print_set_def Ok is_Ok_iff)
qed (use assms in \<open>simp_all add: puppet_emitter_def puppet_print_set_def changes_named_ok_def is_Ok_iff\<close>)

lemma resources_to_json_Ok: "pv_spec p = Some sp \<Longrightarrow> \<exists>l. outcome_map (resource_to_json js p) rs = Ok l"
  by (rule outcome_map_Ok) (rule resource_to_json_Ok)

lemma print_resources_Ok: "pv_spec p = Some sp \<Longrightarrow> \<exists>l. outcome_map (print_resource co p) rs = Ok l"
  by (rule outcome_map_Ok) (rule print_resource_Ok)

lemma json_find_total: "pv_spec p = Some sp \<Longrightarrow> \<not> (\<exists>x. i = Exn x) \<Longrightarrow> is_Ok (em_find (json_emitter js) p i)"
  using resource_to_json_Ok [of p sp js]
  by (cases i) (auto simp: json_emitter_def json_parse_find_def is_Ok_iff obind_Ok_iff split: option.split)

lemma puppet_find_total: "pv_spec p = Some sp \<Longrightarrow> \<not> (\<exists>x. i = Exn x) \<Longrightarrow> is_Ok (em_find (puppet_emitter co) p i)"
  using print_resource_Ok [of p sp co]
  by (cases i) (auto simp: puppet_emitter_def puppet_print_find_def is_Ok_iff split: option.split)

lemma json_list_total: "pv_spec p = Some sp \<Longrightarrow> \<not> (\<exists>x. l = Exn x) \<Longrightarrow> is_Ok (em_list (json_emitter js) p l)"
  using resources_to_json_Ok [of p sp js]
  by (cases l) (auto simp: json_emitter_def json_parse_list_def is_Ok_iff obind_Ok_iff)

lemma puppet_list_total: "pv_spec p = Some sp \<Longrightarrow> \<not> (\<exists>x. l = Exn x) \<Longrightarrow> is_Ok (em_list (puppet_emitter co) p l)"
  using print_resources_Ok [of p sp co]
  by (cases l) (auto simp: puppet_emitter_def puppet_print_list_def is_Ok_iff obind_Ok_iff)

interpretation json_total: total_emitter "json_emitter js" for js
  by unfold_locales (erule json_set_total json_find_total json_list_total, assumption)+

interpretation puppet_total: total_emitter "puppet_emitter co" for co
  by unfold_locales (erule puppet_set_total puppet_find_total puppet_list_total, assumption)+

interpretation quiet_total: total_emitter quiet_emitter
  by unfold_locales (simp_all add: quiet_emitter_def is_Ok_iff)

subsection \<open>Alignment\<close>

lemma max_name_eq:
  "\<forall>(k, v) \<in> set as. length k < 2 ^ 16 \<Longrightarrow> unat (max_name as m) = Max (insert (unat m) ((length \<circ> fst) ` set as))"
proof (induction as arbitrary: m)
  case (Cons a as)
  obtain k v where a: "a = (k, v)" by fastforce
  let ?S = "(length \<circ> fst) ` set as"
  let ?m = "if unat m < length k then of_nat (length k) else m"
  have "unat (of_nat (length k) :: 16 word) = length k"
    using Cons.prems by (simp add: a unat_of_nat take_bit_nat_eq_self)
  then have "unat ?m = max (unat m) (length k)" by (simp add: max_def)
  with Cons have "unat (max_name (a # as) m) = Max (insert (max (unat m) (length k)) ?S)" by (simp add: a)
  also have "\<dots> = Max (insert (unat m) (insert (length k) ?S))"
  proof (cases "?S = {}")
    case False
    then show ?thesis by (simp add: max.assoc)
  qed simp
  finally show ?case by (simp add: a)
qed simp

text \<open>The width of the name column is kept in 16 bits; for names of less than 65536 characters it
  does not wrap around, so every line of a printed resource has its arrow in the same column, that
  of the longest name.\<close>

theorem attributes_aligned:
  assumes "\<forall>(k, v) \<in> set (attrs r). length k < 2 ^ 16" and "(k, v) \<in> set (attrs r)"
  shows "length (pad (unat (max_name (attrs r) 0)) k) = Max ((length \<circ> fst) ` set (attrs r))"
proof -
  let ?S = "(length \<circ> fst) ` set (attrs r)"
  have mem: "length k \<in> ?S" using assms(2) by force
  then have "?S \<noteq> {}" by (metis empty_iff)
  then have "unat (max_name (attrs r) 0) = Max ?S" using max_name_eq [OF assms(1), of 0] by simp
  moreover have "length k \<le> Max ?S" using mem by simp
  ultimately show ?thesis by (simp add: pad_def)
qed

theorem attributes_aligned_witness:
  "length (pad (unat (max_name (attrs \<lparr>res_name = ''r'', attrs = [(''ip'', VStr ''::1''), (''target'', VNone)]\<rparr>) 0)) ''ip'') = 6"
  by (subst attributes_aligned [where v = "VStr ''::1''"]) simp_all

end
