(* ===== verification/Ralsh.thy ===== *)
theory Ralsh
  imports Ral Emitter JsonProvider
begin

section \<open>The command line program and the C interface\<close>

text \<open>
  \<open>exe/ralsh.cc\<close>, \<open>lib/src/cwrapper.cc\<close>: from command line to exit code. Parsing the command line
  is Boost's work: the model starts from the variables it stores, or its error message. What is
  printed on standard output and standard error is one text, in order, without the colours that the
  logging library adds. Nothing in the library
  throws \<open>domain_error\<close>, the only exception the program catches, so every exception ends it.
\<close>

subsection \<open>Program name and environment\<close>

definition progname :: "string \<Rightarrow> string" where
  "progname argv0 = rev (takeWhile (\<lambda>c. c \<noteq> CHR ''/'') (rev argv0))"

definition append_to_env :: "string \<Rightarrow> string \<Rightarrow> penv \<Rightarrow> penv" where
  "append_to_env var path env = (case env var of
      Some v \<Rightarrow> env(var \<mapsto> v @ '':'' @ path)
    | None \<Rightarrow> env(var \<mapsto> path))"

text \<open>The layout of the precompiled archive: \<open>topdir\<close> is the canonical parent of the program's directory.\<close>

definition use_fixed_layout :: "string \<Rightarrow> string \<Rightarrow> penv \<Rightarrow> penv" where
  "use_fixed_layout topdir name env =
     (let env1 = append_to_env ''RALSH_DATA_DIR'' (topdir @ ''/data'') env;
          env2 = append_to_env ''RALSH_LIBEXEC_DIR'' (topdir @ ''/bin'') env1
      in if name = ''mruby'' \<or> name = ''mirb'' then append_to_env ''AUGEAS_LENS_LIB'' (topdir @ ''/data/lenses'') env2 else env2)"

text \<open>The name the binary is called by chooses the program: \<open>main\<close> hands over to the programs of \<open>Mruby\<close> and \<open>Mirb\<close>, or goes
  on as \<open>ralsh\<close>.\<close>

datatype program = Run_mruby | Run_mirb | Run_ralsh

definition program_of :: "string \<Rightarrow> program" where
  "program_of argv0 =
     (let name = progname argv0
      in if name = ''mruby'' then Run_mruby else if name = ''mirb'' then Run_mirb else Run_ralsh)"

lemma program_of_path: "CHR ''/'' \<notin> set name \<Longrightarrow> program_of (dir @ ''/'' @ name) = program_of name"
proof -
  assume "CHR ''/'' \<notin> set name"
  then have name: "takeWhile (\<lambda>c. c \<noteq> CHR ''/'') (rev name @ ys) = rev name @ takeWhile (\<lambda>c. c \<noteq> CHR ''/'') ys" for ys
    by (subst takeWhile_append2) auto
  have "progname (dir @ ''/'' @ name) = name"
    using name [of "CHR ''/'' # rev dir"] by (simp add: progname_def)
  moreover have "progname name = name"
    unfolding progname_def using name [of "[]"] by (metis append_Nil2 rev_rev_ident takeWhile.simps(1))
  ultimately show ?thesis by (simp add: program_of_def)
qed

subsection \<open>Options\<close>

record options =
  op_help :: bool
  op_version :: bool
  op_explain :: bool
  op_absent :: bool
  op_json :: bool
  op_quiet :: bool
  op_sudo :: bool
  op_keep :: bool
  op_target :: "string option"
  op_include :: "string list option"
  op_type :: "string option"
  op_name :: "string option"
  op_attr_value :: "string list option"

text \<open>
  What the program finds around it: the build-time directories, the library calls of \<open>Ral\<close>, the
  providers' loader for the target in use, JSON, whether standard output is a terminal, the
  description of the options and the text of \<open>--version\<close>, and whether the logging library saw an error.
\<close>

record ('w, 'j) installation =
  su_absolute :: "string \<Rightarrow> string"
  su_data_dir :: string
  su_libexec :: string
  su_exe :: "'w exe_ops"
  su_loader :: "ral \<Rightarrow> penv \<Rightarrow> ('w ssh_state, 'w ssh_state) loader"
  su_builtin :: "ral \<Rightarrow> penv \<Rightarrow> ('w ssh_state, 'w ssh_state) builtin list"
  su_list_prov :: "string \<Rightarrow> string list"
  su_js :: "'j json_ops"
  su_tty :: bool
  su_help :: string
  su_version :: string
  su_error_logged :: "'w \<Rightarrow> bool"

text \<open>The text of \<open>--help\<close>; Boost prints the description of the options, \<open>su_help\<close>, in its middle.\<close>

definition unlines :: "string list \<Rightarrow> string" where
  "unlines ls = concat (map (\<lambda>l. l @ newline) ls)"

definition help_text :: "string \<Rightarrow> string" where
  "help_text desc = unlines
     [''Usage: ralsh [OPTION]... [TYPE [NAME [ATTRIBUTE=VALUE] ... ] ]'',
      ''Print resources managed by libral and modify them.'',
      [],
      ''The positional arguments make ralsh behave in the following way:'',
      ''  ralsh           : list all the types that libral knows about.'',
      ''  ralsh TYPE      : list all instances of TYPE'',
      ''  ralsh TYPE NAME : list just TYPE[NAME]'',
      ''  ralsh TYPE NAME ATTRIBUTE=VALUE ... :'',
      ''                    modify TYPE[NAME] by setting the provided attributes'',
      ''                    to the corresponding values. Print the resulting resource'',
      ''                    and a list of the changes that were made.'',
      [],
      ''Options:''] @ desc @ newline @ unlines
     [''Exit status:'',
      ''  0 on success'',
      ''  1 when no resource was found'',
      ''  2 when an error happened''] @ newline"

definition su_create :: "('w, 'j) installation \<Rightarrow> penv \<Rightarrow> string list \<Rightarrow> ral \<times> penv" where
  "su_create su = ral_create (su_absolute su) (su_data_dir su) (su_libexec su)"

definition su_providers :: "('w, 'j) installation \<Rightarrow> ral \<Rightarrow> penv \<Rightarrow> ('w ssh_state, 'w ssh_state provider list) prog" where
  "su_providers su r env = ral_providers (su_loader su r env) (su_builtin su r env) (su_list_prov su) r"

definition su_find_provider :: "('w, 'j) installation \<Rightarrow> ral \<Rightarrow> penv \<Rightarrow> string \<Rightarrow> ('w ssh_state, 'w ssh_state provider option) prog" where
  "su_find_provider su r env name = bnd (su_providers su r env) (\<lambda>ps. ret (find_provider ps name))"

subsection \<open>Printing\<close>

definition say :: "string \<Rightarrow> (string \<times> 's, unit) prog" where
  "say t = modify (\<lambda>(out, s). (out @ t, s))"

definition emit :: "string outcome \<Rightarrow> (string \<times> 's, unit) prog" where
  "emit t = bnd (lift t) say"

definition on_system :: "('s, 'a) prog \<Rightarrow> (string \<times> 's, 'a) prog" where
  "on_system m = (\<lambda>(out, s). case m s of (r, s') \<Rightarrow> (r, (out, s')))"

definition choose_emitter :: "('w, 'j) installation \<Rightarrow> options \<Rightarrow> 'w ssh_state emitter" where
  "choose_emitter su opts =
     (if op_quiet opts then quiet_emitter
      else if op_json opts then json_emitter (su_js su)
      else puppet_emitter (init_colors (su_tty su)))"

subsection \<open>Explaining a provider\<close>

definition attr_explanation :: "colors \<Rightarrow> string \<Rightarrow> attr_spec \<Rightarrow> 16 word \<Rightarrow> string" where
  "attr_explanation co name a maxlen =
     ''  '' @ co_green co @ pad (unat maxlen) name @ co_reset co @ '' : '' @ as_desc a @ newline @
     ''  '' @ pad (unat maxlen) '' '' @ '' . kind = '' @ co_blue co @ show_kind (as_kind a) @ co_reset co @ newline @
     ''  '' @ pad (unat maxlen) '' '' @ '' . type = '' @ co_blue co @ show_data_type (as_data_type a) @ co_reset co @ newline"

fun max_attr_name :: "(string, attr_spec) omap \<Rightarrow> 16 word \<Rightarrow> 16 word" where
  "max_attr_name [] m = m"
| "max_attr_name ((k, a) # as) m = max_attr_name as (if unat m < length k then of_nat (length k) else m)"

definition explanation :: "colors \<Rightarrow> string \<Rightarrow> 'w provider \<Rightarrow> string outcome" where
  "explanation co magenta p = (case pv_spec p of
      None \<Rightarrow> obind (provider_qname p) (\<lambda>q. Ok (''internal error: failed to get metadata for '' @ q @ newline))
    | Some sp \<Rightarrow>
        (let m = max_attr_name (ps_attrs sp) 0;
             one = (\<lambda>n. case spec_attr sp n of Some a \<Rightarrow> attr_explanation co n a m | None \<Rightarrow> [])
         in Ok (magenta @ ''Provider '' @ ps_qname sp @ newline @ ''  source: '' @ pv_source p @ co_reset co @ newline @
              ps_desc sp @ newline @ one ''name'' @ one ''ensure'' @
              concat (map (\<lambda>(k, a). if k = ''name'' \<or> k = ''ensure'' then [] else attr_explanation co k a m) (ps_attrs sp)))))"

subsection \<open>Attributes from the command line\<close>

text \<open>
  The loop over the \<open>ATTRIBUTE=VALUE\<close> arguments, the same in \<open>main\<close> and in \<open>set_resource\<close> but for
  the text of the error; an argument without an equals sign is passed over.
\<close>

fun read_args :: "(string \<Rightarrow> string \<Rightarrow> string) \<Rightarrow> 'w provider \<Rightarrow> string list \<Rightarrow> resource \<Rightarrow> resource outcome" where
  "read_args msg p [] should = Ok should"
| "read_args msg p (arg # av) should =
     (case find_char (CHR ''='') arg of
        None \<Rightarrow> read_args msg p av should
      | Some found \<Rightarrow>
          (let attr = take found arg in
           case provider_parse p attr (drop (Suc found) arg) of
             Ok v \<Rightarrow> obind (res_set should attr v) (read_args msg p av)
           | Err e \<Rightarrow> Err (msg attr e)
           | Exn x \<Rightarrow> Exn x))"

subsection \<open>The actions of the program\<close>

text \<open>An action gives the exit code it returns, or none when the program goes on to its end.\<close>

definition ralsh_set :: "colors \<Rightarrow> 's emitter \<Rightarrow> 's provider \<Rightarrow> string \<Rightarrow> string list \<Rightarrow> (string \<times> 's, int option) prog" where
  "ralsh_set co em p name av =
     (case read_args (\<lambda>attr e. ''failed to read attribute '' @ attr @ '': '' @ e) p av (new_resource name) of
        Ok should \<Rightarrow> bnd (on_system (attempt (provider_set p [should]))) (\<lambda>res.
          bnd (emit (em_set em p res)) (\<lambda>_. ret (if is_Ok res then None else Some 2)))
      | Err e \<Rightarrow> bnd (lift (provider_qname p)) (\<lambda>q.
          bnd (say (co_red co @ e @ co_reset co @ newline @ ''run '' @ quoted (''ralsh -e '' @ q) @ '' to get a list of attributes and valid values'' @ newline))
            (\<lambda>_. ret (Some 2)))
      | Exn x \<Rightarrow> throw x)"

definition ralsh_find :: "'s emitter \<Rightarrow> bool \<Rightarrow> 's provider \<Rightarrow> string \<Rightarrow> (string \<times> 's, int option) prog" where
  "ralsh_find em err_on_absent p name =
     bnd (on_system (attempt (provider_find p name))) (\<lambda>inst.
     bnd (emit (em_find em p inst)) (\<lambda>_.
       case inst of
         Ok (Some r) \<Rightarrow>
           if err_on_absent
           then bnd (lift (res_ref r ''ensure'')) (\<lambda>(v, r').
             ret (if value_eq v (VStr ''absent'') then Some 1 else None))
           else ret None
       | Ok None \<Rightarrow> ret (Some 1)
       | Err e \<Rightarrow> ret (Some 2)
       | Exn x \<Rightarrow> throw x))"

definition ralsh_list :: "'s emitter \<Rightarrow> 's provider \<Rightarrow> (string \<times> 's, int option) prog" where
  "ralsh_list em p =
     bnd (on_system (attempt (provider_get p []))) (\<lambda>insts.
     bnd (emit (em_list em p insts)) (\<lambda>_. ret (if is_Ok insts then None else Some 2)))"

definition ralsh_type :: "('w, 'j) installation \<Rightarrow> options \<Rightarrow> ral \<Rightarrow> penv \<Rightarrow> string \<Rightarrow> (string \<times> 'w ssh_state, int option) prog" where
  "ralsh_type su opts r env type_name = (let co = init_colors (su_tty su) in
     bnd (on_system (su_find_provider su r env type_name)) (\<lambda>opt_prov.
       case opt_prov of
         None \<Rightarrow> bnd (say (co_red co @ ''unknown provider: '' @ quoted type_name @ co_reset co @ newline @
             ''run '' @ quoted ''ralsh'' @ '' to see a list of all providers'' @ co_reset co @ newline)) (\<lambda>_. ret (Some 2))
       | Some p \<Rightarrow>
           let em = choose_emitter su opts in
           if op_explain opts
           then bnd (emit (explanation co (if su_tty su then CHR 0x1B # ''[0;35m'' else []) p)) (\<lambda>_. ret (Some 0))
           else (case op_name opts of
               Some name \<Rightarrow> (case op_attr_value opts of
                   Some av \<Rightarrow> ralsh_set co em p name av
                 | None \<Rightarrow> ralsh_find em (op_absent opts) p name)
             | None \<Rightarrow> ralsh_list em p)))"

definition ralsh_all_types :: "('w, 'j) installation \<Rightarrow> options \<Rightarrow> ral \<Rightarrow> penv \<Rightarrow> (string \<times> 'w ssh_state, int option) prog" where
  "ralsh_all_types su opts r env =
     (if op_explain opts
      then (let co = init_colors (su_tty su) in
        bnd (say (co_red co @ ''please provide a type'' @ co_reset co @ newline @
          ''run '' @ quoted ''ralsh'' @ '' to see a list of all types'' @ co_reset co @ newline)) (\<lambda>_. ret (Some 2)))
      else bnd (on_system (su_providers su r env)) (\<lambda>ps.
        bnd (emit (em_providers (choose_emitter su opts) ps)) (\<lambda>_. ret None)))"

text \<open>The session's target, and connecting to it; a \<open>ral\<close> object starts out local.\<close>

definition conf_of :: "options \<Rightarrow> string \<Rightarrow> ssh_conf" where
  "conf_of opts target = \<lparr>sc_target = target, sc_sudo = op_sudo opts, sc_keep = op_keep opts\<rparr>"

definition ralsh_connect :: "('w, 'j) installation \<Rightarrow> options \<Rightarrow> ral \<Rightarrow> 'w ssh_state \<Rightarrow> unit outcome \<times> ral \<times> 'w ssh_state" where
  "ralsh_connect su opts r s = (case op_target opts of
      None \<Rightarrow> (Ok (), r, s)
    | Some target \<Rightarrow> ral_connect (su_exe su) (conf_of opts target) (r, s))"

definition option_warnings :: "bool \<Rightarrow> options \<Rightarrow> string" where
  "option_warnings tty opts =
     (if op_explain opts \<and> op_json opts
      then ''error: you can not specify --json and --explain at the same time'' @ newline @
           ''error: running '' @ quoted ''ralsh --json'' @ '' will contain explanations for all providers'' @ newline
      else []) @
     (if (op_sudo opts \<or> op_keep opts) \<and> op_target opts = None
      then (if tty then CHR 0x1B # ''[0;33m'' else []) @ ''warning: using --keep or --sudo without --target has no effect'' @
           co_reset (init_colors tty) @ newline else [])"

text \<open>The work after the options are known; the temporary directory goes with the target object.\<close>

definition ralsh_work :: "('w, 'j) installation \<Rightarrow> options \<Rightarrow> penv \<Rightarrow> (string \<times> 'w ssh_state, int option) prog" where
  "ralsh_work su opts env =
     (case su_create su env (case op_include opts of Some ds \<Rightarrow> ds | None \<Rightarrow> []) of
        (r, env') \<Rightarrow>
          (\<lambda>(out, s). case ralsh_connect su opts r s of
             (Ok _, r', s') \<Rightarrow>
               (case (case op_type opts of Some t \<Rightarrow> ralsh_type su opts r' env' t | None \<Rightarrow> ralsh_all_types su opts r' env') (out, s') of
                  (Ok code, (out', s2)) \<Rightarrow>
                    (Ok code, (out', case op_target opts of Some t \<Rightarrow> ssh_delete (su_exe su) (conf_of opts t) s2 | None \<Rightarrow> s2))
                | other \<Rightarrow> other)
           | (Err e, r', s') \<Rightarrow>
               (Ok (Some 2), (out @ co_red (init_colors (su_tty su)) @ ''failed to connect to '' @ (case op_target opts of Some t \<Rightarrow> t | None \<Rightarrow> []) @
                 newline @ e @ co_reset (init_colors (su_tty su)) @ newline, s'))
           | (Exn x, r', s') \<Rightarrow> (Exn x, (out, s'))))"

definition ralsh_main :: "('w, 'j) installation \<Rightarrow> string + options \<Rightarrow> penv \<Rightarrow> (string \<times> 'w ssh_state, int) prog" where
  "ralsh_main su parsed env =
     (case parsed of
        Inl e \<Rightarrow> bnd (say (''error: '' @ e @ newline @ newline @ ''try '' @ quoted ''ralsh -h'' @ '' for more information.'' @ newline)) (\<lambda>_. ret 2)
      | Inr opts \<Rightarrow>
          if op_help opts then bnd (say (help_text (su_help su))) (\<lambda>_. ret 0)
          else if op_version opts then bnd (say (su_version su @ newline)) (\<lambda>_. ret 0)
          else bnd (say (option_warnings (su_tty su) opts)) (\<lambda>_.
            bnd (ralsh_work su opts env) (\<lambda>code (out, s).
              (Ok (case code of Some c \<Rightarrow> c | None \<Rightarrow> if su_error_logged su (ss_world s) then 2 else 0), (out, s)))))"

subsection \<open>The C interface\<close>

text \<open>Every call creates a \<open>ral\<close> object of its own, in the environment of the calling process.\<close>

definition cw_call :: "('w, 'j) installation \<Rightarrow> (ral \<Rightarrow> penv \<Rightarrow> ('w ssh_state, 8 word \<times> string) prog) \<Rightarrow>
    (penv \<times> 'w ssh_state, 8 word \<times> string) prog" where
  "cw_call su act = (\<lambda>(env, s). case su_create su env [] of (r, env') \<Rightarrow>
     (case act r env' s of (res, s') \<Rightarrow> (res, (env', s'))))"

definition cw_get_providers :: "('w, 'j) installation \<Rightarrow> (penv \<times> 'w ssh_state, 8 word \<times> string) prog" where
  "cw_get_providers su = cw_call su (\<lambda>r env. bnd (su_providers su r env) (\<lambda>ps.
     bnd (lift (json_parse_providers (su_js su) ps)) (\<lambda>t. ret (0, t))))"

definition cw_with_provider :: "('w, 'j) installation \<Rightarrow> string \<Rightarrow> ('w ssh_state provider \<Rightarrow> ('w ssh_state, 8 word \<times> string) prog) \<Rightarrow>
    (penv \<times> 'w ssh_state, 8 word \<times> string) prog" where
  "cw_with_provider su prov_name act = cw_call su (\<lambda>r env. bnd (su_find_provider su r env prov_name) (\<lambda>opt_prov.
     case opt_prov of
       None \<Rightarrow> ret (1, ''Provider '' @ prov_name @ '' not found'')
     | Some p \<Rightarrow> act p))"

definition cw_get_resources :: "('w, 'j) installation \<Rightarrow> string \<Rightarrow> (penv \<times> 'w ssh_state, 8 word \<times> string) prog" where
  "cw_get_resources su prov_name = cw_with_provider su prov_name (\<lambda>p.
     bnd (attempt (provider_get p [])) (\<lambda>rs.
     bnd (lift (json_parse_list (su_js su) p rs)) (\<lambda>t. ret (0, t))))"

definition cw_get_resource :: "('w, 'j) installation \<Rightarrow> string \<Rightarrow> string \<Rightarrow> (penv \<times> 'w ssh_state, 8 word \<times> string) prog" where
  "cw_get_resource su prov_name resource_name = cw_with_provider su prov_name (\<lambda>p.
     bnd (attempt (provider_find p resource_name)) (\<lambda>inst.
     bnd (lift (json_parse_find (su_js su) p inst)) (\<lambda>t. ret (0, t))))"

definition cw_set :: "'j json_ops \<Rightarrow> string \<Rightarrow> string \<Rightarrow> string list \<Rightarrow> 's provider \<Rightarrow> ('s, 8 word \<times> string) prog" where
  "cw_set js prov_name resource_name av p =
     (if length av < 1 then ret (1, ''Number of desired attributes must be > 0'')
      else (case read_args (\<lambda>attr e. ''Failed to read attribute '' @ attr @ '', resource_name: '' @ prov_name @ '', error: '' @ e)
                  p av (new_resource resource_name) of
          Ok should \<Rightarrow> bnd (attempt (provider_set p [should])) (\<lambda>res.
            bnd (lift (json_parse_set js p res)) (\<lambda>t. ret (0, t)))
        | Err e \<Rightarrow> ret (1, e)
        | Exn x \<Rightarrow> throw x))"

definition cw_set_resource :: "('w, 'j) installation \<Rightarrow> string \<Rightarrow> string \<Rightarrow> string list \<Rightarrow> (penv \<times> 'w ssh_state, 8 word \<times> string) prog" where
  "cw_set_resource su prov_name resource_name av =
     cw_with_provider su prov_name (cw_set (su_js su) prov_name resource_name av)"

subsection \<open>Reading the arguments\<close>

text \<open>The assignments among the arguments, in order.\<close>

fun assignments :: "string list \<Rightarrow> (string \<times> string) list" where
  "assignments [] = []"
| "assignments (arg # av) = (case find_char (CHR ''='') arg of
      None \<Rightarrow> assignments av
    | Some i \<Rightarrow> (take i arg, drop (Suc i) arg) # assignments av)"

text \<open>The text given last for an attribute.\<close>

definition last_text :: "string list \<Rightarrow> string \<Rightarrow> string option" where
  "last_text av = map_of (rev (assignments av))"

lemma last_text_Cons:
  "last_text (arg # av) k = (case last_text av k of
      Some t \<Rightarrow> Some t
    | None \<Rightarrow> (case find_char (CHR ''='') arg of
        Some i \<Rightarrow> if k = take i arg then Some (drop (Suc i) arg) else None
      | None \<Rightarrow> None))"
  by (auto simp: last_text_def map_add_def split: option.splits)

lemma read_args_Ok:
  assumes "read_args msg p av r = Ok r'"
  shows "res_name r' = res_name r \<and>
    (\<forall>(a, t) \<in> set (assignments av). a \<noteq> ''name'' \<and> is_Ok (provider_parse p a t)) \<and>
    (\<forall>k. omap_find (attrs r') k = (case last_text av k of
        None \<Rightarrow> omap_find (attrs r) k
      | Some t \<Rightarrow> (case provider_parse p k t of Ok v \<Rightarrow> Some v | _ \<Rightarrow> None)))"
  using assms
proof (induction msg p av r rule: read_args.induct)
  case (2 msg p arg av r)
  show ?case
  proof (cases "find_char (CHR ''='') arg")
    case None
    with 2 show ?thesis by (auto simp: last_text_Cons split: option.splits)
  next
    case (Some i)
    let ?a = "take i arg" and ?t = "drop (Suc i) arg"
    from "2.prems" Some obtain v where v: "provider_parse p ?a ?t = Ok v" "?a \<noteq> ''name''"
        and rest: "read_args msg p av (put_attr ?a v r) = Ok r'"
      by (auto simp: Let_def res_set_Ok obind_Ok_iff split: outcome.splits)
    from "2.IH"(2) [OF Some refl v(1) rest] Some v show ?thesis
      by (auto simp: last_text_Cons split: option.splits)
  qed
qed (simp add: last_text_def)

lemma read_args_total:
  assumes "\<forall>(a, t) \<in> set (assignments av). a \<noteq> ''name'' \<and> is_Ok (provider_parse p a t)"
  shows "\<exists>r'. read_args msg p av r = Ok r'"
  using assms
proof (induction msg p av r rule: read_args.induct)
  case (2 msg p arg av r)
  then show ?case
    by (cases "find_char (CHR ''='') arg") (auto simp: Let_def is_Ok_iff res_set_def is_name_def)
qed simp

lemma provider_parse_no_exn: "provider_parse p a t \<noteq> Exn x"
proof -
  have "read_data_type d t \<noteq> Exn x" for d
    using trim_elements_no_exn [of t "split_on (CHR '','') t"]
    by (cases d; cases "trim_elements t (split_on (CHR '','') t)")
      (auto simp: read_string_type_def read_boolean_type_def read_array_type_def read_enum_type_def Let_def)
  then show ?thesis by (auto simp: provider_parse_def spec_read_string_def split: option.splits)
qed

lemma read_args_no_name:
  assumes "\<forall>(a, t) \<in> set (assignments av). a \<noteq> ''name''"
  shows "read_args msg p av r \<noteq> Exn x"
  using assms
proof (induction msg p av r rule: read_args.induct)
  case (2 msg p arg av r)
  then show ?case
    by (cases "find_char (CHR ''='') arg")
      (auto simp: Let_def res_set_def is_name_def provider_parse_no_exn split: outcome.split)
qed simp

text \<open>C28: the arguments after type and name describe a resource exactly when each of them that has
  an equals sign names an attribute other than \<open>name\<close> and a text that its type accepts; then every
  attribute has the value of the last argument for it, attributes not mentioned stay as they
  were, and arguments without an equals sign have no effect.\<close>

theorem read_args_exact:
  "is_Ok (read_args msg p av r) = (\<forall>(a, t) \<in> set (assignments av). a \<noteq> ''name'' \<and> is_Ok (provider_parse p a t)) \<and>
   (case read_args msg p av r of
      Ok r' \<Rightarrow> res_name r' = res_name r \<and>
        (\<forall>k. omap_find (attrs r') k = (case last_text av k of
            None \<Rightarrow> omap_find (attrs r) k
          | Some t \<Rightarrow> (case provider_parse p k t of Ok v \<Rightarrow> Some v | _ \<Rightarrow> None)))
    | _ \<Rightarrow> True)"
proof (cases "read_args msg p av r")
  case (Ok r')
  with read_args_Ok [OF Ok] show ?thesis by simp
next
  case (Err e)
  with read_args_total [of av p msg r] show ?thesis by (metis (no_types, lifting) is_Ok.simps(2) outcome.distinct(1) outcome.simps(11))
next
  case (Exn x)
  with read_args_total [of av p msg r] show ?thesis by (metis (no_types, lifting) is_Ok.simps(3) outcome.distinct(3) outcome.simps(12))
qed

theorem read_args_exact_witness:
  "is_Ok (read_args (\<lambda>a e. e) (demo_provider []) [''verbose'', ''on''] (new_resource ''x''))"
  using read_args_exact [of "\<lambda>a e. e" "demo_provider []" "[''verbose'', ''on'']" "new_resource ''x''"] by simp

text \<open>C29: an argument that does not fit is reported before anything is done: both the program and
  the C interface stop with their error code and the managed system is as it was.\<close>

theorem bad_argument_changes_nothing:
  assumes "pv_spec p = Some sp" and "(a, t) \<in> set (assignments av)" and "provider_parse p a t = Err e"
    and "\<forall>(a, t) \<in> set (assignments av). a \<noteq> ''name''"
  shows "(\<exists>txt. ralsh_set co em p n av (out, s) = (Ok (Some 2), (out @ txt, s))) \<and>
    (\<exists>txt. cw_set js pn n av p s = (Ok (1, txt), s))"
proof -
  have bad: "\<exists>d. read_args msg p av r = Err d" for msg r
  proof (cases "read_args msg p av r")
    case (Ok r')
    with read_args_Ok [OF this] assms(2,3) show ?thesis by auto
  qed (use read_args_no_name [OF assms(4)] in auto)
  obtain d d' where d: "read_args (\<lambda>attr e. ''failed to read attribute '' @ attr @ '': '' @ e) p av (new_resource n) = Err d"
      "read_args (\<lambda>attr e. ''Failed to read attribute '' @ attr @ '', resource_name: '' @ pn @ '', error: '' @ e) p av (new_resource n) = Err d'"
    using bad by presburger
  then show ?thesis
    by (auto simp: ralsh_set_def cw_set_def provider_qname_def assms(1) say_def lift_def ret_def bnd_def modify_def)
qed

definition tagged_provider :: "resource list outcome \<Rightarrow> (update list \<Rightarrow> unit outcome) \<Rightarrow> nat provider" where
  "tagged_provider rs res = (demo_provider [])
     \<lparr>pv_spec := Some ((the (pv_spec (demo_provider []))) \<lparr>ps_attrs := [(''mode'',
        \<lparr>as_name = ''mode'', as_desc = [], as_data_type = Boolean_type, as_kind = Kind_rw\<rparr>), (''name'',
        \<lparr>as_name = ''name'', as_desc = [], as_data_type = String_type, as_kind = Kind_rw\<rparr>)]\<rparr>),
      pv_get := (\<lambda>ns s. (rs, s)), pv_set := (\<lambda>us s. (res us, s\<lparr>p_world := Suc (p_world s)\<rparr>))\<rparr>"

theorem bad_argument_changes_nothing_witness:
  "\<exists>txt. ralsh_set (init_colors False) quiet_emitter (tagged_provider (Ok []) (\<lambda>us. Ok ())) ''x'' [''mode=7''] ([], 4) = (Ok (Some 2), (txt, 4))"
proof -
  have "provider_parse (tagged_provider (Ok []) (\<lambda>us. Ok ())) ''mode'' ''7'' =
      Err (''invalid boolean: must be either '' @ quoted ''true'' @ '' or '' @ quoted ''false'')"
    by code_simp
  moreover have "assignments [''mode=7''] = [(''mode'', ''7'')]" by code_simp
  ultimately show ?thesis
    using bad_argument_changes_nothing [of "tagged_provider (Ok []) (\<lambda>us. Ok ())" _ "''mode''" "''7''" "[''mode=7'']" _ "init_colors False" quiet_emitter "''x''" "[]" 4]
    by (fastforce simp: tagged_provider_def)
qed

subsection \<open>Exit codes\<close>

lemma emitters_total:
  "pv_spec p = Some sp \<Longrightarrow> changes_named_ok r \<Longrightarrow> \<exists>t. em_set (choose_emitter su opts) p r = Ok t"
  "pv_spec p = Some sp \<Longrightarrow> \<not> (\<exists>x. i = Exn x) \<Longrightarrow> \<exists>t. em_find (choose_emitter su opts) p i = Ok t"
  "pv_spec p = Some sp \<Longrightarrow> \<not> (\<exists>x. l = Exn x) \<Longrightarrow> \<exists>t. em_list (choose_emitter su opts) p l = Ok t"
  by (simp_all add: choose_emitter_def quiet_total.set_prints json_total.set_prints puppet_total.set_prints
      quiet_total.find_prints json_total.find_prints puppet_total.find_prints
      quiet_total.list_prints json_total.list_prints puppet_total.list_prints)

lemma attempt_value: "\<not> (\<exists>x. r = Exn x) \<Longrightarrow> m s = (r, s') \<Longrightarrow> on_system (attempt m) (out, s) = (Ok r, (out, s'))"
  by (cases r) (auto simp: attempt_def on_system_def)

lemma emit_Ok: "emit (Ok t) (out, s) = (Ok (), (out @ t, s))"
  by (simp add: emit_def lift_def bnd_def say_def modify_def)

text \<open>Looking for one resource with any of the output formats ends with the code for an error
  when the lookup fails, with the code for a missing resource exactly when the lookup gives none
  or, if absent resources count as missing, one that is absent; and goes on to a successful end
  otherwise; the system is left as the lookup left it.\<close>

theorem ralsh_find_exit:
  assumes "pv_spec p = Some sp" and "provider_find p name s = (inst, s')" and "\<not> (\<exists>x. inst = Exn x)"
  shows "\<exists>t. ralsh_find (choose_emitter su opts) err_on_absent p name (out, s) =
    (Ok (case inst of
        Err e \<Rightarrow> Some 2
      | Ok None \<Rightarrow> Some 1
      | Ok (Some r) \<Rightarrow> if err_on_absent \<and> val_at r ''ensure'' = VStr ''absent'' then Some 1 else None
      | Exn x \<Rightarrow> None), (out @ t, s'))"
proof -
  obtain t where "em_find (choose_emitter su opts) p inst = Ok t" using emitters_total(2) [OF assms(1,3)] by blast
  then show ?thesis
    using attempt_value [of inst "provider_find p name", OF assms(3,2)] assms(3)
    by (auto simp: ralsh_find_def bnd_def emit_Ok ret_def lift_def res_ref_def is_name_def split: outcome.split option.split)
qed

definition idle_provider :: "resource list \<Rightarrow> unit ssh_state provider" where
  "idle_provider rs = \<lparr>pv_spec = pv_spec (demo_provider []), pv_source = [], pv_get = (\<lambda>ns. ret rs), pv_set = (\<lambda>us. ret ())\<rparr>"

definition demo_spec :: prov_spec where
  "demo_spec = the (pv_spec (demo_provider []))"

lemma idle_spec: "pv_spec (idle_provider rs) = Some demo_spec"
  by (simp add: idle_provider_def demo_spec_def demo_provider_def)

definition idle_state :: "unit ssh_state" where
  "idle_state = \<lparr>ss_tmpdir = [], ss_world = ()\<rparr>"

theorem ralsh_find_exit_witness:
  "\<forall>su opts. \<exists>t. ralsh_find (choose_emitter su opts) True (idle_provider [absent_resource ''a'']) ''a'' ([], idle_state) =
     (Ok (Some 1), (t, idle_state))"
proof -
  let ?p = "idle_provider [absent_resource ''a'']"
  have "provider_find ?p ''a'' idle_state = (Ok (Some (absent_resource ''a'')), idle_state)"
    by (simp add: provider_find_def provider_get_def idle_provider_def start_def ret_def absent_resource_def)
  from ralsh_find_exit [OF idle_spec this, where err_on_absent = True and out = "[]"] show ?thesis
    by (intro allI) (simp add: absent_resource_def val_at_put)
qed

text \<open>C40: setting a resource from the command line fails with the code for an error exactly when the
  provider's \<open>set\<close> fails, while the C interface gives the code for success in both cases and leaves
  the failure to the JSON text; both leave the system as \<open>set\<close> left it.\<close>

theorem set_exit_codes:
  assumes "pv_spec p = Some sp" and "provider_set p [should] s = (res, s')" and "changes_named_ok res"
    and "\<And>msg. read_args msg p av (new_resource n) = Ok should" and "av \<noteq> []"
  shows "(\<exists>t. ralsh_set co (choose_emitter su opts) p n av (out, s) =
      (Ok (if is_Ok res then None else Some 2), (out @ t, s'))) \<and>
    (\<exists>t. cw_set js pn n av p s = (Ok (0, t), s'))"
proof -
  have nx: "\<not> (\<exists>x. res = Exn x)" using assms(3) by (auto simp: changes_named_ok_def)
  obtain t where "em_set (choose_emitter su opts) p res = Ok t" using emitters_total(1) [OF assms(1,3)] by blast
  moreover obtain t' where "json_parse_set js p res = Ok t'"
    using json_total.set_prints [OF assms(1,3), of js] by (auto simp: json_emitter_def obind_Ok_iff)
  ultimately show ?thesis
    using attempt_value [OF nx, of "provider_set p [should]", OF assms(2)] assms(2,4,5) nx
    by (cases res) (auto simp: ralsh_set_def cw_set_def bnd_def emit_Ok ret_def lift_def attempt_def on_system_def Suc_le_eq)
qed

theorem set_exit_codes_witness:
  "\<exists>t. cw_set demo_json ''p'' ''a'' [''verbose''] ((idle_provider [])\<lparr>pv_set := (\<lambda>us. fail ''no'')\<rparr>) idle_state = (Ok (0, t), idle_state)"
proof -
  let ?p = "(idle_provider [])\<lparr>pv_set := (\<lambda>us. fail ''no'')\<rparr>"
  have "provider_set ?p [new_resource ''a''] idle_state = (Err ''no'', idle_state)"
    by (simp add: provider_set_def idle_provider_def start_def ret_def fail_def)
  moreover have "changes_named_ok (Err ''no'')" by (simp add: changes_named_ok_def)
  ultimately show ?thesis
    using set_exit_codes [of ?p demo_spec "new_resource ''a''" idle_state "Err ''no''" idle_state "[''verbose'']" "''a''", THEN conjunct2]
      idle_spec [of "[]"]
    by simp
qed

text \<open>Every provider has an attribute \<open>name\<close> in its metadata, and giving it as an argument, as in
  \<open>ralsh TYPE NAME name=VALUE\<close>, does not end with a message: the access operator refuses that name by
  an exception that nothing catches.\<close>

theorem name_argument_crashes:
  assumes "pv_spec p = Some sp" and "prov_spec_ok sp" and "spec_attr sp ''name'' = Some a" and "as_data_type a = String_type"
  shows "ralsh_set co em p n ((''name='' @ v) # av) s = (Exn name_access, s)"
proof -
  have "find_char (CHR ''='') (''name='' @ v) = Some 4" by simp
  then show ?thesis
    by (simp add: ralsh_set_def provider_parse_def spec_read_string_def read_string_type_def assms res_set_def is_name_def throw_def)
qed

theorem name_argument_crashes_witness:
  "ralsh_set (init_colors False) quiet_emitter (tagged_provider (Ok []) (\<lambda>us. Ok ())) ''a'' [''name=b''] ([], 0) = (Exn name_access, ([], 0))"
proof -
  let ?p = "tagged_provider (Ok []) (\<lambda>us. Ok ())"
  have "prov_spec_ok (the (pv_spec ?p))"
    by (auto simp: tagged_provider_def demo_provider_def prov_spec_ok_def spec_attr_def make_qname_def omap_ok_def split: if_splits)
  from name_argument_crashes [of ?p, OF _ this, of _ "init_colors False" quiet_emitter "''a''" "''b''" "[]" "([], 0)"]
  show ?thesis by (simp add: tagged_provider_def spec_attr_def)
qed

text \<open>The codes an action can end with.\<close>

lemma find_codes:
  assumes "ralsh_find em b p n s = (Ok c, s')"
  shows "c \<in> {None, Some 1, Some 2}"
proof -
  obtain inst s1 where "(case inst of
         Ok (Some r) \<Rightarrow> if b then bnd (lift (res_ref r ''ensure'')) (\<lambda>(v, r'). ret (if value_eq v (VStr ''absent'') then Some 1 else None)) else ret None
       | Ok None \<Rightarrow> ret (Some 1) | Err e \<Rightarrow> ret (Some 2) | Exn x \<Rightarrow> throw x) s1 = (Ok c, s')"
    using assms by (auto simp: ralsh_find_def bnd_Ok_iff)
  then show ?thesis
    by (cases inst) (auto simp: bnd_Ok_iff ret_def throw_def split: option.splits if_splits)
qed

lemma other_codes:
  "ralsh_set co em p n av s = (Ok c, s') \<Longrightarrow> c \<in> {None, Some 2}"
  "ralsh_list em p s = (Ok c, s') \<Longrightarrow> c \<in> {None, Some 2}"
  "ralsh_all_types su opts r env t = (Ok c, t') \<Longrightarrow> c \<in> {None, Some 2}"
  by (auto simp: ralsh_set_def ralsh_list_def ralsh_all_types_def Let_def bnd_Ok_iff ret_def throw_def split: outcome.splits if_splits)

definition asks_for_one :: "options \<Rightarrow> bool" where
  "asks_for_one opts \<longleftrightarrow> op_type opts \<noteq> None \<and> op_name opts \<noteq> None \<and> op_attr_value opts = None \<and> \<not> op_explain opts"

definition code_allowed :: "options \<Rightarrow> int option \<Rightarrow> bool" where
  "code_allowed opts c \<longleftrightarrow> c \<in> {None, Some 2} \<or> c = Some 0 \<and> op_explain opts \<or> c = Some 1 \<and> asks_for_one opts"

lemma type_codes:
  assumes "ralsh_type su opts r env t s = (Ok c, s')" and "op_type opts = Some t"
  shows "code_allowed opts c"
proof -
  from assms(1) obtain opt_prov s1 where step: "(case opt_prov of
         None \<Rightarrow> bnd (say (co_red (init_colors (su_tty su)) @ ''unknown provider: '' @ quoted t @ co_reset (init_colors (su_tty su)) @ newline @
             ''run '' @ quoted ''ralsh'' @ '' to see a list of all providers'' @ co_reset (init_colors (su_tty su)) @ newline)) (\<lambda>_. ret (Some 2))
       | Some p \<Rightarrow>
           let em = choose_emitter su opts in
           if op_explain opts
           then bnd (emit (explanation (init_colors (su_tty su)) (if su_tty su then CHR 0x1B # ''[0;35m'' else []) p)) (\<lambda>_. ret (Some 0))
           else (case op_name opts of
               Some name \<Rightarrow> (case op_attr_value opts of
                   Some av \<Rightarrow> ralsh_set (init_colors (su_tty su)) em p name av
                 | None \<Rightarrow> ralsh_find em (op_absent opts) p name)
             | None \<Rightarrow> ralsh_list em p)) s1 = (Ok c, s')"
    unfolding ralsh_type_def Let_def [of "init_colors _"] bnd_Ok_iff [of _ "case_option _ _"] by blast
  show ?thesis
  proof (cases opt_prov)
    case (Some p)
    with step assms(2) show ?thesis
      by (auto simp: code_allowed_def asks_for_one_def Let_def bnd_Ok_iff ret_def
          split: option.splits if_splits dest: find_codes other_codes)
  qed (use step in \<open>auto simp: code_allowed_def bnd_Ok_iff ret_def\<close>)
qed

lemma work_codes: "ralsh_work su opts env s = (Ok c, s') \<Longrightarrow> code_allowed opts c"
  by (auto simp: ralsh_work_def code_allowed_def [of _ "Some 2"] split: prod.splits outcome.splits option.splits
      dest!: type_codes) (auto simp: code_allowed_def dest: other_codes)

text \<open>C14: whatever is on the command line and whatever the managed system does, a run that ends
  normally has the exit code 0, 1 or 2, and 1, a missing resource, is kept for looking up one named
  resource; once an error was logged, even by loading a provider that is not used, a run that would
  have succeeded ends with 2.\<close>

theorem main_exit_codes:
  assumes "ralsh_main su parsed env (out, s) = (Ok code, (out', s'))"
  shows "code \<in> {0, 1, 2} \<and>
    (code = 1 \<longrightarrow> (\<exists>opts. parsed = Inr opts \<and> asks_for_one opts)) \<and>
    (\<forall>opts. parsed = Inr opts \<and> \<not> op_help opts \<and> \<not> op_version opts \<and> \<not> op_explain opts \<and> su_error_logged su (ss_world s') \<longrightarrow> code \<noteq> 0)"
proof (cases parsed)
  case (Inl e)
  with assms show ?thesis by (simp add: ralsh_main_def bnd_Ok_iff ret_def)
next
  case (Inr opts)
  show ?thesis
  proof (cases "op_help opts \<or> op_version opts")
    case True
    with assms Inr show ?thesis by (auto simp: ralsh_main_def bnd_Ok_iff ret_def split: if_splits)
  next
    case False
    with assms Inr obtain c t where "ralsh_work su opts env t = (Ok c, (out', s'))"
        and "code = (case c of Some c \<Rightarrow> c | None \<Rightarrow> if su_error_logged su (ss_world s') then 2 else 0)"
      by (auto simp: ralsh_main_def bnd_Ok_iff)
    with work_codes [of su opts env t c] Inr show ?thesis by (auto simp: code_allowed_def)
  qed
qed

definition no_options :: options where
  "no_options = \<lparr>op_help = False, op_version = False, op_explain = False, op_absent = False, op_json = False,
     op_quiet = False, op_sudo = False, op_keep = False, op_target = None, op_include = None, op_type = None,
     op_name = None, op_attr_value = None\<rparr>"

text \<open>A local system with one provider, whose list of resources is empty.\<close>

definition demo_installation :: "(unit, nat) installation" where
  "demo_installation = \<lparr>su_absolute = (\<lambda>p. ''/'' @ p), su_data_dir = ''data'', su_libexec = ''bin'',
     su_exe = \<lparr>ex_execute = (\<lambda>f a i w. (\<lparr>cr_success = False, cr_output = [], cr_error = [], cr_exit_code = 255\<rparr>, w)),
       ex_each_line = (\<lambda>f a w. (([], \<lambda>_. True), w)), ex_which = (\<lambda>n w. []), ex_access_x = (\<lambda>f w. False)\<rparr>,
     su_loader = (\<lambda>r env. \<lparr>lo_target = local_target \<lparr>ex_execute = (\<lambda>f a i w. (\<lparr>cr_success = False, cr_output = [], cr_error = [], cr_exit_code = 255\<rparr>, w)),
         ex_each_line = (\<lambda>f a w. (([], \<lambda>_. True), w)), ex_which = (\<lambda>n w. []), ex_access_x = (\<lambda>f w. False)\<rparr>,
       lo_script = (\<lambda>p w. (None, w)), lo_readable = (\<lambda>p. None), lo_stem = id, lo_parse_spec = (\<lambda>n y. fail []),
       lo_simple = (\<lambda>c sp w. (idle_provider [], w)), lo_json = (\<lambda>c sp w. (idle_provider [], w)), lo_log = (\<lambda>l t w. w)\<rparr>),
     su_builtin = (\<lambda>r env. [(''d'', fail [], idle_provider [])]), su_list_prov = (\<lambda>d. []), su_js = demo_json, su_tty = False,
     su_help = ''help'', su_version = ''0.0.3'', su_error_logged = (\<lambda>w. True)\<rparr>"

lemma concat_nils: "concat (map (\<lambda>x. []) xs) = []"
  by (induction xs) simp_all

lemma demo_providers: "su_providers demo_installation r env s = (Ok [idle_provider []], s)"
  by (simp add: su_providers_def demo_installation_def ral_providers_def init_provider_def provider_prepare_def
      idle_spec demo_spec_def demo_provider_def bnd_def lift_def ret_def concat_nils)

lemma demo_run:
  "ralsh_main demo_installation (Inr (no_options\<lparr>op_quiet := True\<rparr>)) Map.empty ([], idle_state) = (Ok 2, ([], idle_state))"
proof -
  obtain r env' where c: "su_create demo_installation Map.empty [] = (r, env')" by fastforce
  have "ralsh_work demo_installation (no_options\<lparr>op_quiet := True\<rparr>) Map.empty ([], idle_state) = (Ok None, ([], idle_state))"
    by (simp add: ralsh_work_def no_options_def c ralsh_connect_def ralsh_all_types_def bnd_def on_system_def
        demo_providers choose_emitter_def quiet_emitter_def emit_Ok ret_def)
  then show ?thesis
    by (simp add: ralsh_main_def no_options_def option_warnings_def bnd_def say_def modify_def demo_installation_def)
qed

theorem main_exit_codes_witness:
  "\<exists>code out' s'. ralsh_main demo_installation (Inr (no_options\<lparr>op_quiet := True\<rparr>)) Map.empty ([], idle_state) = (Ok code, (out', s')) \<and>
     code \<in> {1, 2}"
  using main_exit_codes [OF demo_run] demo_run
  by (auto simp: no_options_def demo_installation_def)

subsection \<open>The environment of the C interface\<close>

lemma create_env:
  assumes "env ''PATH'' = Some p" and "su_create su env ds = (r, env')"
  shows "env' ''PATH'' = Some ((case env ''RALSH_LIBEXEC_DIR'' of None \<Rightarrow> su_libexec su | Some d \<Rightarrow> d) @ '':'' @ p) \<and>
    env' ''RALSH_LIBEXEC_DIR'' = env ''RALSH_LIBEXEC_DIR''"
  using assms by (auto simp: su_create_def ral_create_def update_augeas_lens_lib_def Let_def split: option.splits)

lemma cw_call_env: "fst (snd (cw_call su act (env, s))) = snd (su_create su env [])"
  by (simp add: cw_call_def split: prod.split)

text \<open>Every call of the C interface puts the directory for helpers in front of \<open>PATH\<close> again, in the
  environment of the calling process: after \<open>n\<close> calls it is there \<open>n\<close> times, so a long-lived client
  that polls makes its environment grow without bound.\<close>

theorem cw_path_grows:
  assumes "env ''PATH'' = Some p" and "env ''RALSH_LIBEXEC_DIR'' = Some d"
  shows "fst (((\<lambda>st. snd (cw_get_resource su prov n st)) ^^ k) (env, s)) ''PATH'' = Some (concat (replicate k (d @ '':'')) @ p)"
proof -
  let ?f = "\<lambda>st. snd (cw_get_resource su prov n st)"
  have "fst ((?f ^^ k) (env, s)) ''PATH'' = Some (concat (replicate k (d @ '':'')) @ p) \<and>
      fst ((?f ^^ k) (env, s)) ''RALSH_LIBEXEC_DIR'' = Some d"
  proof (induction k)
    case (Suc k)
    obtain e t where et: "(?f ^^ k) (env, s) = (e, t)" by fastforce
    obtain r e' where c: "su_create su e [] = (r, e')" by fastforce
    have "(?f ^^ Suc k) (env, s) = ?f (e, t)" by (simp only: funpow.simps comp_apply et)
    then have "fst ((?f ^^ Suc k) (env, s)) = e'"
      by (simp add: cw_get_resource_def cw_with_provider_def cw_call_env c)
    with create_env [OF _ c] Suc.IH et show ?case by simp
  qed (use assms in simp)
  then show ?thesis by blast
qed

theorem cw_path_grows_witness:
  "fst (((\<lambda>st. snd (cw_get_resource demo_installation ''t::d'' ''x'' st)) ^^ 2) ([''PATH'' \<mapsto> ''/bin'', ''RALSH_LIBEXEC_DIR'' \<mapsto> ''/l''], idle_state)) ''PATH'' =
     Some ''/l:/l:/bin''"
  by (subst cw_path_grows [where d = "''/l''" and p = "''/bin''"]) (simp_all add: numeral_2_eq_2)

end
