(* ===== verification/User.thy ===== *)
theory User
  imports Environment "HOL-Library.Word"
begin

section \<open>The user provider\<close>

text \<open>
  \<open>lib/src/user.cc\<close>: users read from the password database and changed by running
  \<open>useradd\<close>, \<open>usermod\<close> and \<open>userdel\<close>. The databases belong to the C library, so their
  contents are functions of the managed system: \<open>db_passwd\<close> lists the entries of \<open>getpwent\<close>,
  \<open>db_gids\<close> is \<open>getgrouplist\<close> and \<open>db_gname\<close> is \<open>getgrgid\<close>. The three commands are the
  runs of the command objects that \<open>describe\<close> stored.
\<close>

record passwd =
  pw_name :: string
  pw_gecos :: string
  pw_gid :: "32 word"
  pw_dir :: string
  pw_shell :: string
  pw_uid :: "32 word"

record 'w account_db =
  db_passwd :: "'w \<Rightarrow> passwd list"
  db_gids :: "'w \<Rightarrow> string \<Rightarrow> 32 word \<Rightarrow> 32 word list"
  db_gname :: "'w \<Rightarrow> 32 word \<Rightarrow> string option"

record 'w account_cmds =
  ac_add :: "string list \<Rightarrow> ('w, unit) prog"
  ac_mod :: "string list \<Rightarrow> ('w, unit) prog"
  ac_del :: "string list \<Rightarrow> ('w, unit) prog"

definition word_str :: "32 word \<Rightarrow> string" where
  "word_str n = show_nat (unat n)"

definition add_group_list :: "'w account_db \<Rightarrow> 'w \<Rightarrow> string \<Rightarrow> 32 word \<Rightarrow> resource \<Rightarrow> resource" where
  "add_group_list db w user gid =
     put_attr ''groups'' (VArr (List.map_filter (db_gname db w) (db_gids db w user gid)))"

definition user_of_passwd :: "'w account_db \<Rightarrow> 'w \<Rightarrow> passwd \<Rightarrow> resource" where
  "user_of_passwd db w p =
     add_group_list db w (pw_name p) (pw_gid p)
       (put_attr ''uid'' (VStr (word_str (pw_uid p)))
       (put_attr ''shell'' (VStr (pw_shell p))
       (put_attr ''home'' (VStr (pw_dir p))
       (put_attr ''gid'' (VStr (word_str (pw_gid p)))
       (put_attr ''comment'' (VStr (pw_gecos p))
       (put_attr ''ensure'' (VStr ''present'') (new_resource (pw_name p))))))))"

definition user_get :: "'w account_db \<Rightarrow> string list \<Rightarrow> ('w pst, resource list) prog" where
  "user_get db names s =
     (Ok (add_absent (map (user_of_passwd db (p_world s)) (db_passwd db (p_world s))) names), s)"

subsection \<open>One update\<close>

definition user_opts :: "(string \<times> string) list" where
  "user_opts = [(''comment'', ''-c''), (''gid'', ''-g''), (''home'', ''-d''), (''shell'', ''-s''), (''uid'', ''-u'')]"

text \<open>
  The loop over the properties: it collects changes and arguments. The pointer to the desired
  string is null when the desired value is of another type.
\<close>

fun user_props :: "update \<Rightarrow> (string \<times> string) list \<Rightarrow> changes \<Rightarrow> string list \<Rightarrow> (changes \<times> string list) outcome" where
  "user_props u [] chgs args = Ok (chgs, args)"
| "user_props u ((prop, opt) # ps) chgs args =
     obind (res_at (upd_should u) prop) (\<lambda>s. obind (res_at (upd_is u) prop) (\<lambda>i.
       if is_present s \<and> value_neq i s
       then (case lookup_ptr as_string (upd_should u) prop of
               None \<Rightarrow> Exn (Undefined ''null pointer'')
             | Some str \<Rightarrow> user_props u ps (chgs @ [mk_change prop (VStr str) i]) (args @ [opt, to_string s]))
       else user_props u ps chgs args))"

definition is_state :: "update \<Rightarrow> string" where
  "is_state u = lookup as_string (upd_is u) ''ensure'' ''absent''"

definition want_state :: "update \<Rightarrow> string" where
  "want_state u = lookup as_string (upd_should u) ''ensure'' (is_state u)"

definition user_groups :: "update \<Rightarrow> string list \<times> string list" where
  "user_groups u = (let is_groups = lookup as_array (upd_is u) ''groups'' [] in
     (is_groups, lookup as_array (upd_should u) ''groups'' is_groups))"

text \<open>The changes and arguments of an update whose goal is \<open>present\<close>, starting from those recorded.\<close>

definition user_args :: "update \<Rightarrow> changes \<Rightarrow> (changes \<times> string list) outcome" where
  "user_args u chgs =
     obind (user_props u user_opts chgs []) (\<lambda>(chgs1, args1).
       let (is_groups, groups) = user_groups u;
           (chgs2, args2) =
             (if set is_groups \<noteq> set groups
              then (changes_add ''groups'' (VArr groups) (VArr is_groups) chgs1, args1 @ [''-G'', join '','' groups])
              else (chgs1, args1));
           args3 =
             (if lookup as_bool (upd_should u) ''managehome'' False then args2 @ [''-m'']
              else if is_state u = ''absent'' then args2 @ [''-M''] else args2)
       in Ok (chgs2, args3 @ [upd_name u]))"

definition user_set_one :: "'w account_cmds \<Rightarrow> update \<Rightarrow> ('w pst, unit) prog" where
  "user_set_one ac u s0 =
     (let n = upd_name u;
          cx = changes_for n (p_ctx s0);
          chgs = changes_of cx n @
            (if want_state u \<noteq> is_state u
             then [mk_change ''ensure'' (VStr (want_state u)) (VStr (is_state u))] else []);
          s1 = s0\<lparr>p_ctx := set_changes n chgs cx\<rparr>
      in if want_state u = ''present''
         then (case user_args u chgs of
             Exn x \<Rightarrow> (Exn x, s1)
           | Err e \<Rightarrow> (Err e, s1)
           | Ok (chgs', args) \<Rightarrow>
               (let s2 = s1\<lparr>p_ctx := set_changes n chgs' cx\<rparr> in
                if chgs' \<noteq> []
                then on_world ((if is_state u = ''present'' then ac_mod ac else ac_add ac) args) s2
                else (Ok (), s2)))
         else if want_state u = ''absent''
         then (if is_state u \<noteq> ''absent'' then on_world (ac_del ac [''-r'', n]) s1 else (Ok (), s1))
         else if want_state u = ''role''
         then (Err ''can not ensure=role with this provider'', s1)
         else (Ok (), s1))"

definition user_set :: "'w account_cmds \<Rightarrow> update list \<Rightarrow> ('w pst, unit) prog" where
  "user_set ac us = for_each (user_set_one ac) us"

text \<open>The provider as the framework sees it; its source is the default \<open>builtin\<close>.\<close>

definition user_provider :: "'w account_db \<Rightarrow> 'w account_cmds \<Rightarrow> prov_spec option \<Rightarrow> 'w provider" where
  "user_provider db ac sp = \<lparr>pv_spec = sp, pv_source = ''builtin'', pv_get = user_get db, pv_set = user_set ac\<rparr>"

definition member_cmds :: "('a, 'w) environment \<Rightarrow> command option list \<Rightarrow> 'w account_cmds" where
  "member_cmds env cs = \<lparr>ac_add = run_member env (cs ! 0), ac_mod = run_member env (cs ! 1), ac_del = run_member env (cs ! 2)\<rparr>"

definition user_describe :: "('a, 'w) environment \<Rightarrow> 'w account_db \<Rightarrow> string \<Rightarrow> ('w, 'w provider \<times> prov_spec) prog" where
  "user_describe env db desc w =
     (case account_commands env [''useradd'', ''usermod'', ''userdel''] w of ((cs, suitable), w1) \<Rightarrow>
        bnd (env_parse_spec env ''user'' desc suitable) (\<lambda>sp. ret (user_provider db (member_cmds env cs) None, sp)) w1)"

subsection \<open>What one update does\<close>

text \<open>The plan of an update: the changes it should record and the argument list that makes them.\<close>

definition user_diffs :: "update \<Rightarrow> (string \<times> string) list" where
  "user_diffs u = filter (\<lambda>(p, opt). differs u p) user_opts"

definition groups_differ :: "update \<Rightarrow> bool" where
  "groups_differ u \<longleftrightarrow> set (fst (user_groups u)) \<noteq> set (snd (user_groups u))"

definition ensure_plan :: "update \<Rightarrow> changes" where
  "ensure_plan u = (if want_state u \<noteq> is_state u
     then [mk_change ''ensure'' (VStr (want_state u)) (VStr (is_state u))] else [])"

definition user_plan :: "update \<Rightarrow> changes" where
  "user_plan u = ensure_plan u @
     (if want_state u = ''present''
      then map (\<lambda>(p, opt). diff_change u p) (user_diffs u) @
        (if groups_differ u
         then [mk_change ''groups'' (VArr (snd (user_groups u))) (VArr (fst (user_groups u)))] else [])
      else [])"

definition user_argv :: "update \<Rightarrow> string list" where
  "user_argv u = concat (map (\<lambda>(p, opt). [opt, to_string (val_at (upd_should u) p)]) (user_diffs u)) @
     (if groups_differ u then [''-G'', join '','' (snd (user_groups u))] else []) @
     (if lookup as_bool (upd_should u) ''managehome'' False then [''-m'']
      else if is_state u = ''absent'' then [''-M''] else []) @ [upd_name u]"

definition user_command :: "'w account_cmds \<Rightarrow> update \<Rightarrow> ('w, unit) prog" where
  "user_command ac u =
     (if want_state u = ''present''
      then (if user_plan u = [] then ret ()
            else if is_state u = ''present'' then ac_mod ac (user_argv u) else ac_add ac (user_argv u))
      else if want_state u = ''absent''
      then (if is_state u = ''absent'' then ret () else ac_del ac [''-r'', upd_name u])
      else if want_state u = ''role'' then fail ''can not ensure=role with this provider'' else ret ())"

definition strings_wanted :: "update \<Rightarrow> bool" where
  "strings_wanted u \<longleftrightarrow> (\<forall>(p, opt) \<in> set user_opts. differs u p \<longrightarrow> (\<exists>s. val_at (upd_should u) p = VStr s))"

lemma user_props_eq:
  assumes "''name'' \<notin> fst ` set ps"
    and "\<And>p opt. (p, opt) \<in> set ps \<Longrightarrow> differs u p \<Longrightarrow> \<exists>s. val_at (upd_should u) p = VStr s"
  shows "user_props u ps chgs args = Ok (chgs @ map (\<lambda>(p, opt). diff_change u p) (filter (\<lambda>(p, opt). differs u p) ps),
     args @ concat (map (\<lambda>(p, opt). [opt, to_string (val_at (upd_should u) p)]) (filter (\<lambda>(p, opt). differs u p) ps)))"
  using assms
proof (induction ps arbitrary: chgs args)
  case (Cons a ps)
  obtain p opt where a: "a = (p, opt)" by (cases a)
  have p: "p \<noteq> ''name''" using Cons.prems(1) by (auto simp: a)
  have IH: "user_props u ps c r = Ok (c @ map (\<lambda>(p, opt). diff_change u p) (filter (\<lambda>(p, opt). differs u p) ps),
     r @ concat (map (\<lambda>(p, opt). [opt, to_string (val_at (upd_should u) p)]) (filter (\<lambda>(p, opt). differs u p) ps)))" for c r
    by (rule Cons.IH) (use Cons.prems in auto)
  show ?case
  proof (cases "differs u p")
    case True
    then obtain s where s: "val_at (upd_should u) p = VStr s" using Cons.prems(2) a by auto
    with True p show ?thesis
      by (auto simp: a IH differs_def diff_change_def lookup_ptr_string [THEN iffD2, OF s])
  next
    case False
    with p show ?thesis by (auto simp: a IH differs_def)
  qed
qed simp

lemma user_args_eq:
  assumes "strings_wanted u" and "want_state u = ''present''"
  shows "user_args u (c @ ensure_plan u) = Ok (c @ user_plan u, user_argv u)"
proof -
  have "user_props u user_opts (c @ ensure_plan u) [] =
     Ok ((c @ ensure_plan u) @ map (\<lambda>(p, opt). diff_change u p) (user_diffs u),
         concat (map (\<lambda>(p, opt). [opt, to_string (val_at (upd_should u) p)]) (user_diffs u)))"
    using assms(1) by (subst user_props_eq) (auto simp: user_opts_def strings_wanted_def user_diffs_def)
  with assms(2) show ?thesis
    by (auto simp: user_args_def user_plan_def user_argv_def groups_differ_def changes_add_def Let_def
        split: prod.split)
qed

lemma user_set_one_plan:
  assumes "strings_wanted u" and "changes_of (p_ctx s) (upd_name u) = []"
  shows "\<exists>r s'. user_set_one ac u s = (r, s') \<and>
    changes_of (p_ctx s') = (changes_of (p_ctx s))(upd_name u := user_plan u) \<and>
    user_command ac u (p_world s) = (r, p_world s')"
proof (cases "want_state u = ''present''")
  case True
  have args: "user_args u (ensure_plan u) = Ok (user_plan u, user_argv u)"
    using user_args_eq [OF assms(1) True, of "[]"] by simp
  let ?cx = "changes_for (upd_name u) (p_ctx s)"
  let ?s2 = "s\<lparr>p_ctx := set_changes (upd_name u) (user_plan u) ?cx\<rparr>"
  obtain r t where run: "(if user_plan u = [] then ret () else
      on_world ((if is_state u = ''present'' then ac_mod ac else ac_add ac) (user_argv u))) ?s2 = (r, t)"
    by fastforce
  then have "user_set_one ac u s = (r, t)"
    using True assms(2) args
    unfolding user_set_one_def ensure_plan_def [symmetric] Let_def
    by (cases "user_plan u = []") (simp_all add: ret_def)
  moreover have "changes_of (p_ctx t) = (changes_of (p_ctx s))(upd_name u := user_plan u)"
    using run by (auto simp: on_world_eq ret_def changes_of_set split: if_splits)
  moreover have "user_command ac u (p_world s) = (r, p_world t)"
    using run True by (auto simp: on_world_eq ret_def user_command_def split: if_splits)
  ultimately show ?thesis by blast
next
  case False
  then have plan: "user_plan u = ensure_plan u" by (simp add: user_plan_def)
  show ?thesis
    using False assms(2)
    by (cases "ac_del ac [''-r'', upd_name u] (p_world s)")
      (auto simp: user_set_one_def user_command_def plan ensure_plan_def Let_def ret_def fail_def
        on_world_def changes_of_set fun_eq_iff)
qed

text \<open>C1: handling one user update follows its plan, on every branch: the changes recorded are
  the plan's, in order, one for each attribute that differs, and the only thing done to the
  system is the plan's single command: \<open>useradd\<close> or \<open>usermod\<close> with the options of
  exactly the attributes that differ, \<open>userdel -r\<close>, or nothing. An error is the command's.\<close>

theorem user_update_follows_plan:
  assumes "strings_wanted u" and "changes_of (p_ctx s) (upd_name u) = []"
  shows "\<exists>r s'. user_set_one ac u s = (r, s') \<and>
    changes_of (p_ctx s') = (changes_of (p_ctx s))(upd_name u := user_plan u) \<and>
    user_command ac u (p_world s) = (r, p_world s')"
  using assms by (rule user_set_one_plan)

text \<open>Commands that log their argument vectors, for concrete runs.\<close>

definition logging_cmds :: "string list list account_cmds" where
  "logging_cmds = \<lparr>ac_add = (\<lambda>args w. (Ok (), w @ [''add'' # args])),
     ac_mod = (\<lambda>args w. (Ok (), w @ [''mod'' # args])), ac_del = (\<lambda>args w. (Ok (), w @ [''del'' # args]))\<rparr>"

definition demo_user_update :: update where
  "demo_user_update = \<lparr>upd_is = put_attr ''uid'' (VStr ''7'') (put_attr ''ensure'' (VStr ''present'') (new_resource ''eve'')),
     upd_should = put_attr ''shell'' (VStr ''/bin/sh'') (put_attr ''uid'' (VStr ''9'') (new_resource ''eve''))\<rparr>"

lemma demo_user_values:
  "upd_name demo_user_update = ''eve''" "strings_wanted demo_user_update"
  "is_state demo_user_update = ''present''" "want_state demo_user_update = ''present''"
  "user_diffs demo_user_update = [(''shell'', ''-s''), (''uid'', ''-u'')]" "user_groups demo_user_update = ([], [])"
  "lookup as_bool (upd_should demo_user_update) ''managehome'' False = False"
  "val_at (upd_should demo_user_update) ''shell'' = VStr ''/bin/sh''"
  "val_at (upd_should demo_user_update) ''uid'' = VStr ''9''"
  by (simp_all add: demo_user_update_def upd_name_def strings_wanted_def user_opts_def user_diffs_def differs_def
      is_state_def want_state_def lookup_val val_at_put user_groups_def lookup_def)

theorem user_update_follows_plan_witness:
  "\<exists>r s'. user_set_one logging_cmds demo_user_update \<lparr>p_ctx = new_context ''user::useradd'', p_world = []\<rparr> = (r, s') \<and>
     p_world s' = [[''mod'', ''-s'', ''/bin/sh'', ''-u'', ''9'', ''eve'']]"
proof -
  let ?s = "\<lparr>p_ctx = new_context ''user::useradd'', p_world = [] :: string list list\<rparr>"
  have "user_plan demo_user_update \<noteq> []"
    "user_argv demo_user_update = [''-s'', ''/bin/sh'', ''-u'', ''9'', ''eve'']"
    by (simp_all add: user_plan_def user_argv_def demo_user_values groups_differ_def)
  then have "user_command logging_cmds demo_user_update [] = (Ok (), [[''mod'', ''-s'', ''/bin/sh'', ''-u'', ''9'', ''eve'']])"
    by (simp add: user_command_def demo_user_values logging_cmds_def)
  with user_update_follows_plan [of demo_user_update ?s logging_cmds] show ?thesis
    by (auto simp: demo_user_values)
qed

subsection \<open>The contracts\<close>

definition user_settled :: "update \<Rightarrow> bool" where
  "user_settled u \<longleftrightarrow> user_plan u = [] \<and> want_state u \<noteq> ''role''"

lemma ensure_plan_empty: "ensure_plan u = [] \<longleftrightarrow> want_state u = is_state u"
  by (simp add: ensure_plan_def)

lemma settled_strings: "user_settled u \<Longrightarrow> want_state u = ''present'' \<Longrightarrow> strings_wanted u"
  by (auto simp: user_settled_def user_plan_def user_diffs_def strings_wanted_def filter_empty_conv)

lemma user_settled_set_one:
  assumes "user_settled u" and "changes_of (p_ctx s) (upd_name u) = []"
  shows "\<exists>s'. user_set_one ac u s = (Ok (), s') \<and> p_world s' = p_world s \<and>
    changes_of (p_ctx s') = changes_of (p_ctx s)"
proof (cases "want_state u = ''present''")
  case True
  from user_set_one_plan [OF settled_strings [OF assms(1) True] assms(2), of ac] obtain r s' where
    *: "user_set_one ac u s = (r, s')" "changes_of (p_ctx s') = (changes_of (p_ctx s))(upd_name u := user_plan u)"
       "user_command ac u (p_world s) = (r, p_world s')" by blast
  with assms True show ?thesis
    by (auto simp: user_settled_def user_command_def ret_def fun_upd_idem)
next
  case False
  with assms have "want_state u = is_state u" by (simp add: user_settled_def user_plan_def ensure_plan_empty)
  with False assms show ?thesis
    by (auto simp: user_set_one_def Let_def user_settled_def changes_of_set fun_upd_idem)
qed

lemma user_set_one_ctx:
  "\<exists>c. p_ctx (snd (user_set_one ac u s)) = set_changes (upd_name u) c (changes_for (upd_name u) (p_ctx s))"
proof (cases "want_state u = ''present''")
  case True
  let ?c = "changes_of (changes_for (upd_name u) (p_ctx s)) (upd_name u) @ ensure_plan u"
  show ?thesis
    unfolding user_set_one_def Let_def ensure_plan_def [symmetric]
    by (cases "user_args u ?c") (auto simp: True split: prod.split)
next
  case False
  then show ?thesis by (auto simp: user_set_one_def Let_def)
qed

lemma user_set_one_frame:
  assumes "user_set_one ac u s = (r, s')" and "n \<noteq> upd_name u"
  shows "changes_of (p_ctx s') n = changes_of (p_ctx s) n"
  using user_set_one_ctx [of ac u s] assms by (auto simp: changes_of_set)

lemma user_provider_simps [simp]:
  "pv_get (user_provider db ac sp) = user_get db" "pv_set (user_provider db ac sp) = user_set ac"
  "pv_spec (user_provider db ac sp) = sp"
  by (simp_all add: user_provider_def)

interpretation user_lookup: lookup_provider "user_get db" for db
  by unfold_locales (use add_absent_covers in \<open>force simp: user_get_def\<close>)+

interpretation user_update: settled_provider "user_set_one ac" user_settled for ac
  by unfold_locales (auto intro: user_set_one_frame user_settled_set_one)

text \<open>Setting users that are already as desired does nothing: when every update of the call
  is settled (nothing differs), the system after \<open>set\<close> is the one before, no command was
  run, and every update is reported without changes.\<close>

theorem user_set_idempotent:
  assumes "user_get db (map res_name shoulds) (start (user_provider db ac sp) w) = (Ok iss, s)"
    and "\<forall>u \<in> set (build_updates shoulds iss). user_settled u"
  shows "provider_set (user_provider db ac sp) shoulds w =
    (Ok (map (\<lambda>u. (u, [])) (build_updates shoulds iss)), w)"
proof -
  have s: "s = start (user_provider db ac sp) w" using assms(1) by (simp add: user_get_def)
  then obtain s' where "user_set ac (build_updates shoulds iss) s = (Ok (), s')" "p_world s' = w"
      "changes_of (p_ctx s') = (\<lambda>n. [])"
    using user_update.set_all_settled [of "build_updates shoulds iss" s ac] assms(2)
    by (auto simp: user_set_def start_def fun_eq_iff)
  then show ?thesis using assms(1) by (simp add: provider_set_def)
qed

definition demo_db :: "'w account_db" where
  "demo_db = \<lparr>db_passwd = (\<lambda>w. [\<lparr>pw_name = ''eve'', pw_gecos = [], pw_gid = 5, pw_dir = ''/home/eve'',
       pw_shell = ''/bin/sh'', pw_uid = 7\<rparr>]),
     db_gids = (\<lambda>w u g. [g, 6]), db_gname = (\<lambda>w g. if g = 5 then Some ''staff'' else None)\<rparr>"

theorem user_set_idempotent_witness:
  "\<exists>us. provider_set (user_provider demo_db logging_cmds None)
     [put_attr ''shell'' (VStr ''/bin/sh'') (new_resource ''eve'')] [] = (Ok (map (\<lambda>u. (u, [])) us), []) \<and> length us = 1"
proof -
  let ?sh = "put_attr ''shell'' (VStr ''/bin/sh'') (new_resource ''eve'')"
  let ?is = "user_of_passwd demo_db ([] :: string list list) \<lparr>pw_name = ''eve'', pw_gecos = [], pw_gid = 5, pw_dir = ''/home/eve'',
       pw_shell = ''/bin/sh'', pw_uid = 7\<rparr>"
  have name: "res_name ?is = ''eve''" by (simp add: user_of_passwd_def add_group_list_def)
  have get: "user_get demo_db (map res_name [?sh]) (start (user_provider demo_db logging_cmds None) []) =
      (Ok [?is], start (user_provider demo_db logging_cmds None) [])"
    using name by (simp add: user_get_def start_def demo_db_def)
  have upds: "build_updates [?sh] [?is] = [\<lparr>upd_is = ?is, upd_should = ?sh\<rparr>]" using name by simp
  have "user_settled \<lparr>upd_is = ?is, upd_should = ?sh\<rparr>"
    by (simp add: user_settled_def user_plan_def ensure_plan_def want_state_def is_state_def user_of_passwd_def
        add_group_list_def lookup_val val_at_put user_diffs_def user_opts_def differs_def groups_differ_def
        user_groups_def lookup_def Let_def)
  with user_set_idempotent [OF get] upds
  have "provider_set (user_provider demo_db logging_cmds None) [?sh] [] =
      (Ok (map (\<lambda>u. (u, [])) [\<lparr>upd_is = ?is, upd_should = ?sh\<rparr>]), [])"
    by (simp only: upds) simp
  then show ?thesis by (intro exI [of _ "[\<lparr>upd_is = ?is, upd_should = ?sh\<rparr>]"]) simp
qed

text \<open>Looking up a user reports its entry of the password database, or the user as absent
  when there is no entry, and changes nothing.\<close>

theorem user_find:
  assumes "distinct (map pw_name (db_passwd db w))"
  shows "provider_find (user_provider db ac sp) n w =
    (Ok (Some (case find (\<lambda>p. pw_name p = n) (db_passwd db w) of
        Some p \<Rightarrow> user_of_passwd db w p
      | None \<Rightarrow> absent_resource n)), w)"
proof -
  have name: "res_name (user_of_passwd db w p) = pw_name p" for p
    by (simp add: user_of_passwd_def add_group_list_def)
  from filter_table_entry [where key = pw_name and f = "user_of_passwd db w", OF assms name, of n]
  show ?thesis
    by (simp add: provider_find_def provider_get_def user_get_def start_def find_unique_eq del: add_absent.simps)
qed

theorem user_find_witness:
  "\<exists>r. provider_find (user_provider demo_db logging_cmds None) ''eve'' [] = (Ok (Some r), []) \<and>
     val_at r ''groups'' = VArr [''staff'']"
  using user_find [of demo_db "[]" logging_cmds None "''eve''"]
  by (simp add: demo_db_def user_of_passwd_def add_group_list_def val_at_put map_filter_simps)

end
