(* ===== verification/Group.thy ===== *)
theory Group
  imports User
begin

section \<open>The group provider\<close>

text \<open>
  \<open>lib/src/group.cc\<close>: groups read from the group database (\<open>getgrent\<close>, a function of the
  managed system) and changed by \<open>groupadd\<close>, \<open>groupmod\<close> and \<open>groupdel\<close>.
\<close>

record group_entry =
  gr_name :: string
  gr_gid :: "32 word"
  gr_mem :: "string list"

definition group_of_entry :: "group_entry \<Rightarrow> resource" where
  "group_of_entry g =
     (let r = put_attr ''gid'' (VStr (word_str (gr_gid g)))
                (put_attr ''ensure'' (VStr ''present'') (new_resource (gr_name g)))
      in if gr_mem g \<noteq> [] then put_attr ''members'' (VArr (gr_mem g)) r else r)"

definition group_get :: "('w \<Rightarrow> group_entry list) \<Rightarrow> string list \<Rightarrow> ('w pst, resource list) prog" where
  "group_get db names s = (Ok (add_absent (map group_of_entry (db (p_world s))) names), s)"

definition group_opts :: "(string \<times> string) list" where
  "group_opts = [(''gid'', ''-g'')]"

fun group_props :: "update \<Rightarrow> (string \<times> string) list \<Rightarrow> changes \<Rightarrow> string list \<Rightarrow> (changes \<times> string list) outcome" where
  "group_props u [] chgs args = Ok (chgs, args)"
| "group_props u ((prop, opt) # ps) chgs args =
     obind (changes_add_upd prop u chgs) (\<lambda>(changed, chgs').
       if changed
       then obind (res_at (upd_should u) prop) (\<lambda>s. group_props u ps chgs' (args @ [opt, to_string s]))
       else group_props u ps chgs' args)"

definition group_set_one :: "'w account_cmds \<Rightarrow> update \<Rightarrow> ('w pst, unit) prog" where
  "group_set_one ac u s0 =
     (let n = upd_name u;
          cx = changes_for n (p_ctx s0);
          chgs = changes_of cx n @
            (if want_state u \<noteq> is_state u
             then [mk_change ''ensure'' (VStr (want_state u)) (VStr (is_state u))] else []);
          s1 = s0\<lparr>p_ctx := set_changes n chgs cx\<rparr>
      in if want_state u = ''present''
         then (case group_props u group_opts chgs [] of
             Exn x \<Rightarrow> (Exn x, s1)
           | Err e \<Rightarrow> (Err e, s1)
           | Ok (chgs', args) \<Rightarrow>
               (let s2 = s1\<lparr>p_ctx := set_changes n chgs' cx\<rparr> in
                if chgs' \<noteq> []
                then on_world ((if is_state u = ''present'' then ac_mod ac else ac_add ac) (args @ [n])) s2
                else (Ok (), s2)))
         else if want_state u = ''absent''
         then (if is_state u \<noteq> ''absent'' then on_world (ac_del ac [n]) s1 else (Ok (), s1))
         else (Ok (), s1))"

definition group_set :: "'w account_cmds \<Rightarrow> update list \<Rightarrow> ('w pst, unit) prog" where
  "group_set ac us = for_each (group_set_one ac) us"

definition group_provider :: "('w \<Rightarrow> group_entry list) \<Rightarrow> 'w account_cmds \<Rightarrow> prov_spec option \<Rightarrow> 'w provider" where
  "group_provider db ac sp = \<lparr>pv_spec = sp, pv_source = ''builtin'', pv_get = group_get db, pv_set = group_set ac\<rparr>"

definition group_describe :: "('a, 'w) environment \<Rightarrow> ('w \<Rightarrow> group_entry list) \<Rightarrow> string \<Rightarrow> ('w, 'w provider \<times> prov_spec) prog" where
  "group_describe env db desc w =
     (case account_commands env [''groupadd'', ''groupmod'', ''groupdel''] w of ((cs, suitable), w1) \<Rightarrow>
        bnd (env_parse_spec env ''group'' desc suitable) (\<lambda>sp. ret (group_provider db (member_cmds env cs) None, sp)) w1)"

subsection \<open>What one update does\<close>

definition group_plan :: "update \<Rightarrow> changes" where
  "group_plan u = ensure_plan u @
     (if want_state u = ''present'' \<and> differs u ''gid'' then [diff_change u ''gid''] else [])"

definition group_argv :: "update \<Rightarrow> string list" where
  "group_argv u = (if differs u ''gid'' then [''-g'', to_string (val_at (upd_should u) ''gid'')] else []) @ [upd_name u]"

definition group_command :: "'w account_cmds \<Rightarrow> update \<Rightarrow> ('w, unit) prog" where
  "group_command ac u =
     (if want_state u = ''present''
      then (if group_plan u = [] then ret ()
            else if is_state u = ''present'' then ac_mod ac (group_argv u) else ac_add ac (group_argv u))
      else if want_state u = ''absent'' \<and> is_state u \<noteq> ''absent'' then ac_del ac [upd_name u]
      else ret ())"

lemma group_props_eq:
  "group_props u group_opts c [] =
     Ok (if differs u ''gid'' then c @ [diff_change u ''gid''] else c,
         if differs u ''gid'' then [''-g'', to_string (val_at (upd_should u) ''gid'')] else [])"
  by (simp add: group_opts_def changes_add_upd_eq)

lemma group_set_one_plan:
  assumes "changes_of (p_ctx s) (upd_name u) = []"
  shows "\<exists>r s'. group_set_one ac u s = (r, s') \<and>
    changes_of (p_ctx s') = (changes_of (p_ctx s))(upd_name u := group_plan u) \<and>
    group_command ac u (p_world s) = (r, p_world s')"
proof (cases "want_state u = ''present''")
  case True
  let ?cx = "changes_for (upd_name u) (p_ctx s)"
  let ?s2 = "s\<lparr>p_ctx := set_changes (upd_name u) (group_plan u) ?cx\<rparr>"
  have props: "group_props u group_opts (ensure_plan u) [] = Ok (group_plan u, butlast (group_argv u))"
    using True by (simp add: group_props_eq group_plan_def group_argv_def)
  have argv: "butlast (group_argv u) @ [upd_name u] = group_argv u" by (simp add: group_argv_def)
  obtain r t where run: "(if group_plan u = [] then ret () else
      on_world ((if is_state u = ''present'' then ac_mod ac else ac_add ac) (group_argv u))) ?s2 = (r, t)"
    by fastforce
  then have "group_set_one ac u s = (r, t)"
    using True assms props
    unfolding group_set_one_def ensure_plan_def [symmetric] Let_def
    by (cases "group_plan u = []") (simp_all add: ret_def argv)
  moreover have "changes_of (p_ctx t) = (changes_of (p_ctx s))(upd_name u := group_plan u)"
    using run by (auto simp: on_world_eq ret_def changes_of_set split: if_splits)
  moreover have "group_command ac u (p_world s) = (r, p_world t)"
    using run True by (auto simp: on_world_eq ret_def group_command_def split: if_splits)
  ultimately show ?thesis by blast
next
  case False
  then have plan: "group_plan u = ensure_plan u" by (simp add: group_plan_def)
  show ?thesis
    using False assms
    by (cases "ac_del ac [upd_name u] (p_world s)")
      (auto simp: group_set_one_def group_command_def plan ensure_plan_def Let_def ret_def
        on_world_def changes_of_set fun_eq_iff)
qed

lemma group_set_one_ctx:
  "\<exists>c. p_ctx (snd (group_set_one ac u s)) = set_changes (upd_name u) c (changes_for (upd_name u) (p_ctx s))"
proof (cases "want_state u = ''present''")
  case True
  let ?c = "changes_of (changes_for (upd_name u) (p_ctx s)) (upd_name u) @ ensure_plan u"
  show ?thesis
    unfolding group_set_one_def Let_def ensure_plan_def [symmetric]
    by (cases "group_props u group_opts ?c []") (auto simp: True split: prod.split)
next
  case False
  then show ?thesis by (auto simp: group_set_one_def Let_def)
qed

lemma group_set_one_frame:
  assumes "group_set_one ac u s = (r, s')" and "n \<noteq> upd_name u"
  shows "changes_of (p_ctx s') n = changes_of (p_ctx s) n"
  using group_set_one_ctx [of ac u s] assms by (auto simp: changes_of_set)

definition group_settled :: "update \<Rightarrow> bool" where
  "group_settled u \<longleftrightarrow> group_plan u = []"

lemma group_settled_set_one:
  assumes "group_settled u" and "changes_of (p_ctx s) (upd_name u) = []"
  shows "\<exists>s'. group_set_one ac u s = (Ok (), s') \<and> p_world s' = p_world s \<and>
    changes_of (p_ctx s') = changes_of (p_ctx s)"
proof -
  from group_set_one_plan [OF assms(2), of ac] obtain r s' where
    *: "group_set_one ac u s = (r, s')" "changes_of (p_ctx s') = (changes_of (p_ctx s))(upd_name u := group_plan u)"
       "group_command ac u (p_world s) = (r, p_world s')" by blast
  moreover have "want_state u = is_state u"
    using assms(1) by (simp add: group_settled_def group_plan_def ensure_plan_empty)
  ultimately show ?thesis
    using assms by (auto simp: group_settled_def group_command_def ret_def fun_upd_idem split: if_splits)
qed

interpretation group_lookup: lookup_provider "group_get db" for db
  by unfold_locales (use add_absent_covers in \<open>force simp: group_get_def\<close>)+

interpretation group_update: settled_provider "group_set_one ac" group_settled for ac
  by unfold_locales (auto intro: group_set_one_frame group_settled_set_one)

text \<open>C32: handling one group update follows its plan on every branch: the changes recorded are
  the plan's and the only thing done to the system is the plan's single \<open>groupadd\<close>,
  \<open>groupmod\<close> or \<open>groupdel\<close>, or nothing when neither \<open>ensure\<close> nor \<open>gid\<close> differs.\<close>

theorem group_update_follows_plan:
  assumes "changes_of (p_ctx s) (upd_name u) = []"
  shows "\<exists>r s'. group_set_one ac u s = (r, s') \<and>
    changes_of (p_ctx s') = (changes_of (p_ctx s))(upd_name u := group_plan u) \<and>
    group_command ac u (p_world s) = (r, p_world s')"
  using assms by (rule group_set_one_plan)

theorem group_update_follows_plan_witness:
  "\<exists>r s'. group_set_one logging_cmds \<lparr>upd_is = new_resource ''wheel'',
       upd_should = put_attr ''gid'' (VStr ''10'') (put_attr ''ensure'' (VStr ''present'') (new_resource ''wheel''))\<rparr>
     \<lparr>p_ctx = new_context ''group::groupadd'', p_world = []\<rparr> = (r, s') \<and>
     p_world s' = [[''add'', ''-g'', ''10'', ''wheel'']]"
proof -
  let ?u = "\<lparr>upd_is = new_resource ''wheel'',
       upd_should = put_attr ''gid'' (VStr ''10'') (put_attr ''ensure'' (VStr ''present'') (new_resource ''wheel''))\<rparr>"
  let ?s = "\<lparr>p_ctx = new_context ''group::groupadd'', p_world = [] :: string list list\<rparr>"
  have "group_command logging_cmds ?u [] = (Ok (), [[''add'', ''-g'', ''10'', ''wheel'']])"
    by (simp add: group_command_def group_plan_def group_argv_def ensure_plan_def is_state_def want_state_def
        lookup_val val_at_put differs_def upd_name_def logging_cmds_def)
  with group_update_follows_plan [of ?s ?u logging_cmds] show ?thesis by auto
qed

text \<open>Whatever the updates of one call, and whether it succeeds or stops at an error, only the
  resources named by the updates get changes recorded, so one group's changes are never
  reported for another.\<close>

theorem group_set_frame:
  assumes "group_set ac us s = (r, s')" and "n \<notin> upd_name ` set us"
  shows "changes_of (p_ctx s') n = changes_of (p_ctx s) n"
  using group_update.set_all_frame [of ac us s r s'] assms by (simp add: group_set_def)

theorem group_set_frame_witness:
  "changes_of (p_ctx (snd (group_set logging_cmds
     [\<lparr>upd_is = new_resource ''wheel'', upd_should = put_attr ''ensure'' (VStr ''present'') (new_resource ''wheel'')\<rparr>]
     \<lparr>p_ctx = set_changes ''staff'' [mk_change ''gid'' VNone VNone] (new_context ''q''), p_world = []\<rparr>))) ''staff'' =
     [mk_change ''gid'' VNone VNone]"
  by (subst group_set_frame [OF prod.collapse [symmetric]]) (auto simp: upd_name_def changes_of_set)

end
