(* ===== verification/System.thy ===== *)
theory System
  imports Ralsh User Group File Mount
begin

section \<open>The whole program in one world\<close>

text \<open>
  The list of built-in providers in \<open>lib/src/ral.cc\<close> and the objects behind it: every provider works on
  a part of one world. The world of a run has the ssh session (its temporary directory and the
  managed system), the augeas trees with their counters that the handles of the mount and the host provider
  own, the command objects of the external providers, each allocated when its provider is
  constructed, and the log.
\<close>

record ('a, 'w) machine =
  ma_mount :: "'a \<times> int"
  ma_host :: "'a \<times> int"
  ma_cmds :: "nat \<Rightarrow> command"
  ma_next :: nat
  ma_log :: "(log_level \<times> string) list"
  ma_sys :: 'w

type_synonym ('a, 'w) world = "('a, 'w) machine ssh_state"

subsection \<open>The parts\<close>

definition sess_part :: "('a, 'w) world \<Rightarrow> 'w ssh_state" where
  "sess_part s = \<lparr>ss_tmpdir = ss_tmpdir s, ss_world = ma_sys (ss_world s)\<rparr>"

definition put_sess :: "'w ssh_state \<Rightarrow> ('a, 'w) world \<Rightarrow> ('a, 'w) world" where
  "put_sess t s = \<lparr>ss_tmpdir = ss_tmpdir t, ss_world = (ss_world s)\<lparr>ma_sys := ss_world t\<rparr>\<rparr>"

definition mount_part :: "('a, 'w) world \<Rightarrow> ('a, 'w ssh_state) aug_world" where
  "mount_part s = \<lparr>aw_aug = fst (ma_mount (ss_world s)), aw_seq = snd (ma_mount (ss_world s)), aw_sys = sess_part s\<rparr>"

definition put_mount :: "('a, 'w ssh_state) aug_world \<Rightarrow> ('a, 'w) world \<Rightarrow> ('a, 'w) world" where
  "put_mount t s = put_sess (aw_sys t) (s\<lparr>ss_world := (ss_world s)\<lparr>ma_mount := (aw_aug t, aw_seq t)\<rparr>\<rparr>)"

definition host_part :: "('a, 'w) world \<Rightarrow> ('a, 'w ssh_state) aug_world" where
  "host_part s = \<lparr>aw_aug = fst (ma_host (ss_world s)), aw_seq = snd (ma_host (ss_world s)), aw_sys = sess_part s\<rparr>"

definition put_host :: "('a, 'w ssh_state) aug_world \<Rightarrow> ('a, 'w) world \<Rightarrow> ('a, 'w) world" where
  "put_host t s = put_sess (aw_sys t) (s\<lparr>ss_world := (ss_world s)\<lparr>ma_host := (aw_aug t, aw_seq t)\<rparr>\<rparr>)"

text \<open>What the external provider with command object number \<open>i\<close> works on.\<close>

definition ext_part :: "nat \<Rightarrow> ('a, 'w) world \<Rightarrow> 'w ssh_state sp_world" where
  "ext_part i s = \<lparr>sw_cmd = ma_cmds (ss_world s) i, sw_sys = sess_part s, sw_log = ma_log (ss_world s)\<rparr>"

definition put_ext :: "nat \<Rightarrow> 'w ssh_state sp_world \<Rightarrow> ('a, 'w) world \<Rightarrow> ('a, 'w) world" where
  "put_ext i t s = put_sess (sw_sys t) (s\<lparr>ss_world := (ss_world s)
     \<lparr>ma_cmds := (ma_cmds (ss_world s))(i := sw_cmd t), ma_log := sw_log t\<rparr>\<rparr>)"

text \<open>The parts that two providers do not share.\<close>

definition mount_tree :: "('a, 'w) world \<Rightarrow> 'a \<times> int" where
  "mount_tree s = ma_mount (ss_world s)"

definition set_mount_tree :: "'a \<times> int \<Rightarrow> ('a, 'w) world \<Rightarrow> ('a, 'w) world" where
  "set_mount_tree t s = s\<lparr>ss_world := (ss_world s)\<lparr>ma_mount := t\<rparr>\<rparr>"

definition host_tree :: "('a, 'w) world \<Rightarrow> 'a \<times> int" where
  "host_tree s = ma_host (ss_world s)"

definition set_host_tree :: "'a \<times> int \<Rightarrow> ('a, 'w) world \<Rightarrow> ('a, 'w) world" where
  "set_host_tree t s = s\<lparr>ss_world := (ss_world s)\<lparr>ma_host := t\<rparr>\<rparr>"

lemmas part_defs = sess_part_def put_sess_def mount_part_def put_mount_def host_part_def put_host_def
  ext_part_def put_ext_def mount_tree_def set_mount_tree_def host_tree_def set_host_tree_def

interpretation sess_view: view sess_part put_sess
  by unfold_locales (simp_all add: part_defs)

interpretation mount_view: separate_views mount_part put_mount host_tree set_host_tree
  by unfold_locales (simp_all add: part_defs)

interpretation host_view: separate_views host_part put_host mount_tree set_mount_tree
  by unfold_locales (simp_all add: part_defs)

interpretation ext_view: separate_views "ext_part i" "put_ext i" mount_tree set_mount_tree for i
  by unfold_locales (simp_all add: part_defs)

subsection \<open>Providers, targets and commands of a part\<close>

definition pst_part :: "('s \<Rightarrow> 't) \<Rightarrow> 's pst \<Rightarrow> 't pst" where
  "pst_part get s = \<lparr>p_ctx = p_ctx s, p_world = get (p_world s)\<rparr>"

definition put_pst :: "('t \<Rightarrow> 's \<Rightarrow> 's) \<Rightarrow> 't pst \<Rightarrow> 's pst \<Rightarrow> 's pst" where
  "put_pst put t s = \<lparr>p_ctx = p_ctx t, p_world = put (p_world t) (p_world s)\<rparr>"

definition zoom_provider :: "('s \<Rightarrow> 't) \<Rightarrow> ('t \<Rightarrow> 's \<Rightarrow> 's) \<Rightarrow> 't provider \<Rightarrow> 's provider" where
  "zoom_provider get put p = \<lparr>pv_spec = pv_spec p, pv_source = pv_source p,
     pv_get = (\<lambda>ns. zoom (pst_part get) (put_pst put) (pv_get p ns)),
     pv_set = (\<lambda>us. zoom (pst_part get) (put_pst put) (pv_set p us))\<rparr>"

definition zoom_describe :: "('s \<Rightarrow> 't) \<Rightarrow> ('t \<Rightarrow> 's \<Rightarrow> 's) \<Rightarrow> ('t, 't provider \<times> prov_spec) prog \<Rightarrow>
    ('s, 's provider \<times> prov_spec) prog" where
  "zoom_describe get put d = bnd (zoom get put d) (\<lambda>(p, sp). ret (zoom_provider get put p, sp))"

definition zoom_exe :: "('s \<Rightarrow> 't) \<Rightarrow> ('t \<Rightarrow> 's \<Rightarrow> 's) \<Rightarrow> 't exe_ops \<Rightarrow> 's exe_ops" where
  "zoom_exe get put ex =
     \<lparr>ex_execute = (\<lambda>f a i s. case ex_execute ex f a i (get s) of (r, t) \<Rightarrow> (r, put t s)),
      ex_each_line = (\<lambda>f a s. case ex_each_line ex f a (get s) of (r, t) \<Rightarrow> (r, put t s)),
      ex_which = (\<lambda>n s. ex_which ex n (get s)), ex_access_x = (\<lambda>f s. ex_access_x ex f (get s))\<rparr>"

definition zoom_target :: "('s \<Rightarrow> 't) \<Rightarrow> ('t \<Rightarrow> 's \<Rightarrow> 's) \<Rightarrow> 't target \<Rightarrow> 's target" where
  "zoom_target get put tgt =
     \<lparr>t_which = (\<lambda>n s. case t_which tgt n (get s) of (r, t) \<Rightarrow> (r, put t s)),
      t_upload = (\<lambda>f. zoom get put (t_upload tgt f)),
      t_executable = (\<lambda>f s. t_executable tgt f (get s)),
      t_execute = (\<lambda>f a i s. case t_execute tgt f a i (get s) of (r, t) \<Rightarrow> (r, put t s)),
      t_each_line = (\<lambda>f a s. case t_each_line tgt f a (get s) of (r, t) \<Rightarrow> (r, put t s))\<rparr>"

text \<open>The operations of a provider of a part are those of the provider itself, run in the part.\<close>

context view begin

lemma pst_view: "view (pst_part get) (put_pst put)"
  by unfold_locales (simp_all add: pst_part_def put_pst_def get_put put_get put_put)

lemma start_part: "pst_part get (start (zoom_provider get put p) s) = start p (get s)"
  by (simp add: start_def pst_part_def zoom_provider_def)

lemma zoom_provider_get: "provider_get (zoom_provider get put p) ns = zoom get put (provider_get p ns)"
  by (rule ext) (simp add: provider_get_def zoom_provider_def zoom_def start_def pst_part_def put_pst_def split: prod.split)

lemma zoom_provider_qname: "provider_qname (zoom_provider get put p) = provider_qname p"
  by (simp add: provider_qname_def zoom_provider_def)

lemma zoom_provider_find: "provider_find (zoom_provider get put p) n = zoom get put (provider_find p n)"
  by (rule ext) (simp add: provider_find_def zoom_provider_get zoom_provider_qname, simp add: zoom_def provider_find_def split: prod.split)

lemma zoom_provider_set: "provider_set (zoom_provider get put p) rs = zoom get put (provider_set p rs)"
proof
  fix s
  have part: "pst_part get (put_pst put t x) = t" for t x by (simp add: pst_part_def put_pst_def get_put)
  have world: "p_world (put_pst put t2 (put_pst put t1 (start (zoom_provider get put p) s))) = put (p_world t2) s"
      "p_world (put_pst put t1 (start (zoom_provider get put p) s)) = put (p_world t1) s" for t1 t2
    by (simp_all add: put_pst_def start_def put_put)
  obtain r t where g: "pv_get p (map res_name rs) (start p (get s)) = (r, t)" by fastforce
  then have zg: "pv_get (zoom_provider get put p) (map res_name rs) (start (zoom_provider get put p) s) =
      (r, put_pst put t (start (zoom_provider get put p) s))"
    by (simp add: zoom_provider_def zoom_def start_part [unfolded zoom_provider_def])
  show "provider_set (zoom_provider get put p) rs s = zoom get put (provider_set p rs) s"
  proof (cases r)
    case (Ok iss)
    obtain r2 t2 where st: "pv_set p (build_updates rs iss) t = (r2, t2)" by fastforce
    then have "pv_set (zoom_provider get put p) (build_updates rs iss) (put_pst put t x) = (r2, put_pst put t2 (put_pst put t x))" for x
      by (simp add: zoom_provider_def zoom_def part)
    with Ok g zg st show ?thesis
      by (cases r2) (simp_all add: provider_set_def zoom_def Let_def world, simp add: put_pst_def)
  qed (use g zg in \<open>simp_all add: provider_set_def zoom_def world\<close>)
qed

lemma zoom_provider_spec: "pv_spec (zoom_provider get put p) = pv_spec p" "pv_source (zoom_provider get put p) = pv_source p"
  by (simp_all add: zoom_provider_def)

end

subsection \<open>The built-in providers\<close>

text \<open>
  Everything outside the repository that a run meets: processes, local files, augeas, Boost's
  paths, mruby, JSON, the account databases, the file system, the logging library, what the
  directories hold, and the texts of the \<open>.yaml\<close> files that are compiled in.
\<close>

record ('a, 'w, 'j) surroundings =
  sr_exe :: "'w exe_ops"
  sr_io :: "'w ssh_state file_io"
  sr_aug :: "'a aug_ops"
  sr_paths :: path_ops
  sr_mrb :: mrb_ops
  sr_js :: "'j json_ops"
  sr_users :: "'w ssh_state account_db"
  sr_groups :: "'w ssh_state \<Rightarrow> group_entry list"
  sr_fs :: "'w ssh_state fs_ops"
  sr_se :: sp_env
  sr_readable :: "string \<Rightarrow> string option"
  sr_stem :: "string \<Rightarrow> string"
  sr_list_prov :: "string \<Rightarrow> string list"
  sr_yaml :: "string \<Rightarrow> string"
  sr_absolute :: "string \<Rightarrow> string"
  sr_data_dir :: string
  sr_libexec :: string
  sr_tty :: bool
  sr_help :: string
  sr_version :: string

definition session_exe :: "'w exe_ops \<Rightarrow> 'w ssh_state exe_ops" where
  "session_exe ex = zoom_exe ss_world (\<lambda>w s. s\<lparr>ss_world := w\<rparr>) ex"

definition machine_exe :: "'w exe_ops \<Rightarrow> ('a, 'w) machine exe_ops" where
  "machine_exe ex = zoom_exe ma_sys (\<lambda>w m. m\<lparr>ma_sys := w\<rparr>) ex"

text \<open>The environment that \<open>make_env\<close> gives to the providers, with the target of the \<open>ral\<close> object.\<close>

definition make_env :: "('a, 'w, 'j) surroundings \<Rightarrow> ral \<Rightarrow> ('a, 'w ssh_state) environment" where
  "make_env sr r = \<lparr>en_ral = r,
     en_target = (case ra_target r of
         None \<Rightarrow> make_local (sr_aug sr) (session_exe (sr_exe sr)) (sr_io sr)
       | Some sc \<Rightarrow> make_ssh (sr_aug sr) (sr_exe sr) (sr_paths sr) sc),
     en_mrb = sr_mrb sr\<rparr>"

text \<open>A provider object before \<open>describe\<close>: its members are null, so it must not be used.\<close>

definition blank_provider :: "'p provider" where
  "blank_provider = \<lparr>pv_spec = None, pv_source = ''builtin'',
     pv_get = (\<lambda>ns. throw (Undefined ''null member'')), pv_set = (\<lambda>us. throw (Undefined ''null member''))\<rparr>"

definition builtin_providers :: "('a, 'w, 'j) surroundings \<Rightarrow> ral \<Rightarrow> (('a, 'w) world, ('a, 'w) world) builtin list" where
  "builtin_providers sr r = (let env = make_env sr r in
     [(''mount'', zoom_describe mount_part put_mount (mount_describe env (sr_yaml sr ''mount'')), blank_provider),
      (''user'', zoom_describe sess_part put_sess (user_describe env (sr_users sr) (sr_yaml sr ''user'')), blank_provider),
      (''group'', zoom_describe sess_part put_sess (group_describe env (sr_groups sr) (sr_yaml sr ''group'')), blank_provider),
      (''host'', zoom_describe host_part put_host (host_describe env (sr_yaml sr ''host'')), blank_provider),
      (''file'', zoom_describe sess_part put_sess (file_describe env (sr_fs sr) (sr_yaml sr ''file'')), blank_provider)])"

subsection \<open>External providers and the installation\<close>

definition world_log :: "('a, 'w, 'j) surroundings \<Rightarrow> ('a, 'w) world logger" where
  "world_log sr level t s = (if se_enabled (sr_se sr) level
     then s\<lparr>ss_world := (ss_world s)\<lparr>ma_log := ma_log (ss_world s) @ [(level, t)]\<rparr>\<rparr> else s)"

definition allocate :: "command \<Rightarrow> ('a, 'w) world \<Rightarrow> nat \<times> ('a, 'w) world" where
  "allocate c s = (let m = ss_world s; i = ma_next m in
     (i, s\<lparr>ss_world := m\<lparr>ma_cmds := (ma_cmds m)(i := c), ma_next := Suc i\<rparr>\<rparr>))"

definition new_simple :: "('a, 'w, 'j) surroundings \<Rightarrow> ral \<Rightarrow> command \<Rightarrow> prov_spec \<Rightarrow> ('a, 'w) world \<Rightarrow>
    ('a, 'w) world provider \<times> ('a, 'w) world" where
  "new_simple sr r c sp s = (case allocate c s of (i, s') \<Rightarrow>
     (zoom_provider (ext_part i) (put_ext i)
        (simple_provider (sr_se sr) (target.truncate (en_target (make_env sr r))) sp (c_cmd c)), s'))"

definition new_json :: "('a, 'w, 'j) surroundings \<Rightarrow> ral \<Rightarrow> command \<Rightarrow> prov_spec \<Rightarrow> ('a, 'w) world \<Rightarrow>
    ('a, 'w) world provider \<times> ('a, 'w) world" where
  "new_json sr r c sp s = (case allocate c s of (i, s') \<Rightarrow>
     (zoom_provider (ext_part i) (put_ext i)
        (json_provider (sr_js sr) (sr_se sr) (target.truncate (en_target (make_env sr r))) sp (c_cmd c)), s'))"

definition ext_loader :: "('a, 'w, 'j) surroundings \<Rightarrow> ral \<Rightarrow> (('a, 'w) world, ('a, 'w) world) loader" where
  "ext_loader sr r = (let env = make_env sr r in
     \<lparr>lo_target = zoom_target sess_part put_sess (target.truncate (en_target env)),
      lo_script = (\<lambda>path s. case env_script env path (sess_part s) of (c, t) \<Rightarrow> (c, put_sess t s)),
      lo_readable = sr_readable sr, lo_stem = sr_stem sr,
      lo_parse_spec = (\<lambda>name yaml. zoom sess_part put_sess (env_parse_spec env name yaml True)),
      lo_simple = new_simple sr r, lo_json = new_json sr r, lo_log = world_log sr\<rparr>)"

lemma ext_loader_simps [simp]:
  "lo_script (ext_loader sr r) path s = (case env_script (make_env sr r) path (sess_part s) of (c, t) \<Rightarrow> (c, put_sess t s))"
  "lo_target (ext_loader sr r) = zoom_target sess_part put_sess (target.truncate (en_target (make_env sr r)))"
  "lo_parse_spec (ext_loader sr r) n y = zoom sess_part put_sess (env_parse_spec (make_env sr r) n y True)"
  "lo_simple (ext_loader sr r) = new_simple sr r" "lo_json (ext_loader sr r) = new_json sr r"
  "lo_log (ext_loader sr r) = world_log sr" "lo_readable (ext_loader sr r) = sr_readable sr" "lo_stem (ext_loader sr r) = sr_stem sr"
  by (simp_all add: ext_loader_def Let_def)

definition error_logged :: "(log_level \<times> string) list \<Rightarrow> bool" where
  "error_logged log \<longleftrightarrow> Log_error \<in> fst ` set log"

definition install :: "('a, 'w, 'j) surroundings \<Rightarrow> (('a, 'w) machine, 'j) installation" where
  "install sr = \<lparr>su_absolute = sr_absolute sr, su_data_dir = sr_data_dir sr, su_libexec = sr_libexec sr,
     su_exe = machine_exe (sr_exe sr), su_loader = (\<lambda>r env. ext_loader sr r), su_builtin = (\<lambda>r env. builtin_providers sr r),
     su_list_prov = sr_list_prov sr, su_js = sr_js sr, su_tty = sr_tty sr, su_help = sr_help sr, su_version = sr_version sr,
     su_error_logged = (\<lambda>m. error_logged (ma_log m))\<rparr>"

definition installed_providers :: "('a, 'w, 'j) surroundings \<Rightarrow> ral \<Rightarrow> (('a, 'w) world, ('a, 'w) world provider list) prog" where
  "installed_providers sr r = ral_providers (ext_loader sr r) (builtin_providers sr r) (sr_list_prov sr) r"

lemma install_providers: "su_providers (install sr) r env = installed_providers sr r"
  by (simp add: su_providers_def install_def installed_providers_def)

subsection \<open>Which providers a run offers\<close>

lemma init_provider_blank:
  assumes "init_provider log n d blank_provider v = (Ok (Some q), v')"
  shows "\<exists>p sp. d v = (Ok (p, sp), v') \<and> q = p\<lparr>pv_spec := Some sp\<rparr> \<and> ps_suitable sp"
  using assms by (auto simp: init_provider_def provider_prepare_def blank_provider_def bnd_Ok_iff ret_def
      split: prod.splits outcome.splits option.splits if_splits)

lemma zoom_describe_Ok:
  assumes "zoom_describe get put d s = (Ok (p, sp), s')"
  shows "\<exists>q t. d (get s) = (Ok (q, sp), t) \<and> p = zoom_provider get put q"
  using assms by (auto simp: zoom_describe_def zoom_def bnd_Ok_iff ret_def split: prod.splits)

text \<open>The descriptions of the account providers and of the file provider are never suitable remotely.\<close>

lemma remote_unsuitable:
  assumes "\<not> env_is_local env"
  shows "user_describe env db y w = (Ok (p, sp), w') \<Longrightarrow> \<not> ps_suitable sp"
    and "group_describe env gs y w = (Ok (p, sp), w') \<Longrightarrow> \<not> ps_suitable sp"
    and "file_describe env fo y w = (Ok (p, sp), w') \<Longrightarrow> \<not> ps_suitable sp"
  using assms env_parse_spec_suitable
  by (fastforce simp: user_describe_def group_describe_def file_describe_def account_commands_remote bnd_Ok_iff ret_def)+

definition host_like :: "('a, 'w) world provider \<Rightarrow> bool" where
  "host_like p \<longleftrightarrow> (\<exists>h sp. p = zoom_provider host_part put_host (host_provider h (Some sp)))"

definition mount_like :: "('a, 'w) world provider \<Rightarrow> bool" where
  "mount_like p \<longleftrightarrow> (\<exists>h mc sp. p = zoom_provider mount_part put_mount (mount_provider h mc (Some sp)))"

lemma likeI:
  "host_like (zoom_provider host_part put_host (host_provider h (Some sp)))"
  "mount_like (zoom_provider mount_part put_mount (mount_provider h mc (Some sp)))"
  by (auto simp: host_like_def mount_like_def)

definition external_like :: "('a, 'w, 'j) surroundings \<Rightarrow> 'w ssh_state target \<Rightarrow> ('a, 'w) world provider \<Rightarrow> bool" where
  "external_like sr tgt p \<longleftrightarrow> (\<exists>i sp path. p = zoom_provider (ext_part i) (put_ext i) (simple_provider (sr_se sr) tgt sp path) \<or>
     p = zoom_provider (ext_part i) (put_ext i) (json_provider (sr_js sr) (sr_se sr) tgt sp path))"

lemma zoom_provider_spec_upd: "(zoom_provider get put p)\<lparr>pv_spec := sp\<rparr> = zoom_provider get put (p\<lparr>pv_spec := sp\<rparr>)"
  by (simp add: zoom_provider_def)

lemma mount_describe_provider: "mount_describe env y v = (Ok (p, sp), t) \<Longrightarrow> \<exists>h mc. p = mount_provider h mc None"
  by (auto simp: mount_describe_def bnd_Ok_iff ret_def)

lemma host_describe_provider: "host_describe env y v = (Ok (p, sp), t) \<Longrightarrow> \<exists>h. p = host_provider h None"
  by (auto simp: host_describe_def bnd_Ok_iff ret_def)

lemma table_provider_spec [simp]:
  "(mount_provider h mc x)\<lparr>pv_spec := y\<rparr> = mount_provider h mc y" "(host_provider h x)\<lparr>pv_spec := y\<rparr> = host_provider h y"
  by (simp_all add: mount_provider_def host_provider_def)

lemma remote_builtin:
  assumes "init_builtin log (builtin_providers sr r) s = (Ok bs, s')" and "q \<in> set bs" and "\<not> ra_local r"
  shows "host_like q \<or> mount_like q"
proof -
  let ?env = "make_env sr r"
  have remote: "\<not> env_is_local ?env" using assms(3) by (simp add: env_is_local_def make_env_def)
  from init_builtin_from [OF assms(1,2)] obtain n d p v v' where "(n, d, p) \<in> set (builtin_providers sr r)"
      and i: "init_provider log n d p v = (Ok (Some q), v')" by blast
  then have p: "p = blank_provider" and d: "d \<in> {zoom_describe mount_part put_mount (mount_describe ?env (sr_yaml sr ''mount'')),
      zoom_describe sess_part put_sess (user_describe ?env (sr_users sr) (sr_yaml sr ''user'')),
      zoom_describe sess_part put_sess (group_describe ?env (sr_groups sr) (sr_yaml sr ''group'')),
      zoom_describe host_part put_host (host_describe ?env (sr_yaml sr ''host'')),
      zoom_describe sess_part put_sess (file_describe ?env (sr_fs sr) (sr_yaml sr ''file''))}"
    by (auto simp: builtin_providers_def Let_def)
  from init_provider_blank [OF i [unfolded p]] obtain p' sp where
    dv: "d v = (Ok (p', sp), v')" and q: "q = p'\<lparr>pv_spec := Some sp\<rparr>" and suit: "ps_suitable sp" by blast
  from d consider (m) "d = zoom_describe mount_part put_mount (mount_describe ?env (sr_yaml sr ''mount''))"
    | (h) "d = zoom_describe host_part put_host (host_describe ?env (sr_yaml sr ''host''))"
    | (x) "d \<in> {zoom_describe sess_part put_sess (user_describe ?env (sr_users sr) (sr_yaml sr ''user'')),
      zoom_describe sess_part put_sess (group_describe ?env (sr_groups sr) (sr_yaml sr ''group'')),
      zoom_describe sess_part put_sess (file_describe ?env (sr_fs sr) (sr_yaml sr ''file''))}" by blast
  then show ?thesis
  proof cases
    case m
    from zoom_describe_Ok [OF dv [unfolded m]] q show ?thesis
      by (auto simp: zoom_provider_spec_upd dest!: mount_describe_provider intro: likeI)
  next
    case h
    from zoom_describe_Ok [OF dv [unfolded h]] q show ?thesis
      by (auto simp: zoom_provider_spec_upd dest!: host_describe_provider intro: likeI)
  next
    case x
    with dv suit show ?thesis by (auto dest!: zoom_describe_Ok remote_unsuitable [OF remote])
  qed
qed

lemma finish_external_same: "finish_external lo path sp p w = (Ok (Some q), w') \<Longrightarrow> pv_spec p = Some sp' \<Longrightarrow> q = p"
  by (auto simp: finish_external_def init_provider_def provider_prepare_def bnd_Ok_iff ret_def
      split: option.splits if_splits prod.splits outcome.splits)

lemma load_external_parts:
  assumes "load_external lo path w = (Ok (Some q), w')"
  shows "\<exists>c sp w3 p w4. ((p, w4) = lo_simple lo c sp w3 \<or> (p, w4) = lo_json lo c sp w3) \<and>
    finish_external lo path sp p w4 = (Ok (Some q), w')"
  using assms by (auto simp: load_external_def load_parsed_def split: prod.splits option.splits outcome.splits if_splits) metis+

lemma load_external_kind:
  assumes "load_external (ext_loader sr r) path w = (Ok (Some q), w')"
  shows "external_like sr (target.truncate (en_target (make_env sr r))) q"
proof -
  let ?tgt = "target.truncate (en_target (make_env sr r))"
  from assms obtain c sp w3 p w4 where "(p, w4) = new_simple sr r c sp w3 \<or> (p, w4) = new_json sr r c sp w3"
      and fin: "finish_external (ext_loader sr r) path sp p w4 = (Ok (Some q), w')"
    using load_external_parts [OF assms] unfolding ext_loader_simps by blast
  then obtain i where p: "p = zoom_provider (ext_part i) (put_ext i) (simple_provider (sr_se sr) ?tgt sp (c_cmd c)) \<or>
      p = zoom_provider (ext_part i) (put_ext i) (json_provider (sr_js sr) (sr_se sr) ?tgt sp (c_cmd c))"
    by (auto simp: new_simple_def new_json_def split: prod.splits)
  then have "pv_spec p = Some sp" by (auto simp: zoom_provider_def simple_provider_def json_provider_def)
  from finish_external_same [OF fin this] p show ?thesis by (auto simp: external_like_def)
qed

lemma load_all_kind:
  "load_all (ext_loader sr r) paths w = (Ok ps, w') \<Longrightarrow> q \<in> set ps \<Longrightarrow>
    external_like sr (target.truncate (en_target (make_env sr r))) q"
proof (induction paths arbitrary: w ps)
  case (Cons path paths)
  from Cons.prems(1) obtain p w1 qs where p: "load_external (ext_loader sr r) path w = (Ok p, w1)"
      and rest: "load_all (ext_loader sr r) paths w1 = (Ok qs, w')" and ps: "ps = (case p of Some x \<Rightarrow> x # qs | None \<Rightarrow> qs)"
    by (auto simp: bnd_Ok_iff ret_def)
  from ps Cons.prems(2) have "p = Some q \<or> q \<in> set qs" by (auto split: option.splits)
  with p load_external_kind Cons.IH [OF rest] show ?case by blast
qed (simp add: ret_def)


subsection \<open>A provider in the whole program\<close>


text \<open>C30: bringing a user to the state it is already in changes nothing at all, from the arguments to the exit
  code: when the state the arguments ask for differs from the current one in nothing, \<open>ralsh user\<close>
  goes on to a successful end, and neither a command is run nor is any part of the world
  touched.\<close>

theorem settled_user_run:
  assumes "\<And>msg. read_args msg p av (new_resource n) = Ok should"
    and "p = zoom_provider sess_part put_sess (user_provider db ac (Some sp))"
    and "user_get db [n] (start (user_provider db ac (Some sp)) (sess_part s)) = (Ok iss, s1)"
    and "\<forall>u \<in> set (build_updates [should] iss). user_settled u"
  shows "\<exists>t. ralsh_set co (choose_emitter su opts) p n av (out, s) = (Ok None, (out @ t, s))"
proof -
  let ?us = "build_updates [should] iss"
  have "res_name should = n" using read_args_Ok [OF assms(1)] by simp
  then have "provider_set (user_provider db ac (Some sp)) [should] (sess_part s) = (Ok (map (\<lambda>u. (u, [])) ?us), sess_part s)"
    using assms(3,4) by (intro user_set_idempotent) simp_all
  then have set: "provider_set p [should] s = (Ok (map (\<lambda>u. (u, [])) ?us), s)"
    by (simp add: assms(2) sess_view.zoom_provider_set zoom_def sess_view.put_get)
  have named: "changes_named_ok (Ok (map (\<lambda>u. (u, [])) ?us))" by (auto simp: changes_named_ok_def)
  have "pv_spec p = Some sp" by (simp add: assms(2) zoom_provider_def)
  from emitters_total(1) [OF this named] obtain t where "em_set (choose_emitter su opts) p (Ok (map (\<lambda>u. (u, [])) ?us)) = Ok t" by blast
  with attempt_value [of _ "provider_set p [should]", OF _ set] show ?thesis
    by (auto simp: ralsh_set_def assms(1) bnd_def emit_Ok ret_def simp del: build_updates.simps)
qed

definition shell_spec :: prov_spec where
  "shell_spec = demo_spec\<lparr>ps_attrs := [(''shell'', \<lparr>as_name = ''shell'', as_desc = [], as_data_type = String_type, as_kind = Kind_rw\<rparr>)]\<rparr>"

subsection \<open>The log while providers are loaded\<close>

definition has_error :: "('a, 'w) world \<Rightarrow> bool" where
  "has_error s \<longleftrightarrow> error_logged (ma_log (ss_world s))"

lemma has_error_parts [simp]:
  "has_error (put_sess t s) = has_error s" "has_error (put_mount u s) = has_error s"
  "has_error (put_host u s) = has_error s" "has_error (snd (allocate c s)) = has_error s"
  by (simp_all add: has_error_def part_defs allocate_def Let_def)

lemma world_log_keeps: "has_error s \<Longrightarrow> has_error (world_log sr l t s)"
  by (auto simp: has_error_def world_log_def error_logged_def)

lemma world_log_error: "se_enabled (sr_se sr) Log_error \<Longrightarrow> has_error (world_log sr Log_error t s)"
  by (auto simp: has_error_def world_log_def error_logged_def)

text \<open>Commands on a zoomed target only touch the session.\<close>

definition cmd_error :: "command \<times> ('a, 'w) world \<Rightarrow> bool" where
  "cmd_error cw = has_error (snd cw)"

lemma upload_preserves [preserves_intros]: "preserves cmd_error (command_upload (zoom_target sess_part put_sess tgt))"
  by (auto simp: preserves_def cmd_error_def command_upload_def zoom_target_def zoom_def split: prod.split outcome.split)

lemma commands_preserve [preserves_intros]:
  "preserves cmd_error (command_executable (zoom_target sess_part put_sess tgt))"
  "preserves cmd_error (command_execute (zoom_target sess_part put_sess tgt) args stdin)"
  using preservesD [OF upload_preserves, of tgt]
  by (fastforce simp: preserves_def command_executable_def command_execute_def cmd_error_def zoom_target_def
      split: prod.split outcome.split)+

lemma get_metadata_preserves: "preserves cmd_error (get_metadata (zoom_target sess_part put_sess tgt) rd path)"
  unfolding get_metadata_def run_describe_def
  by (intro preserves_intros) (simp_all add: preserves_def cmd_error_def split: prod.split)

lemma zoom_describe_preserves:
  "(\<And>t s. P (put t s) = P s) \<Longrightarrow> preserves P (zoom_describe get put d)"
  unfolding zoom_describe_def split_def by (intro preserves_intros preserves_zoom)

lemma init_provider_preserves:
  fixes d :: "(('a, 'w) world, 'p provider \<times> prov_spec) prog"
  assumes "preserves has_error d"
  shows "preserves has_error (init_provider (world_log sr) n d p)"
proof -
  have "preserves has_error (provider_prepare d p)"
    unfolding provider_prepare_def split_def using assms by (intro preserves_intros)
  note keep = preservesD [OF this]
  show ?thesis
    unfolding preserves_def
  proof (intro allI impI)
    fix s :: "('a, 'w) world" assume "has_error s"
    moreover obtain res s1 where "provider_prepare d p s = (res, s1)" by fastforce
    ultimately show "has_error (snd (init_provider (world_log sr) n d p s))"
      using keep [of s res s1] by (cases res) (simp_all add: init_provider_def world_log_keeps split: option.split)
  qed
qed

lemma init_builtin_preserves:
  "(\<And>n d p. (n, d, p) \<in> set bs \<Longrightarrow> preserves has_error d) \<Longrightarrow> preserves has_error (init_builtin (world_log sr) bs)"
proof (induction bs)
  case (Cons b bs)
  obtain n d p where b: "b = (n, d, p)" by (cases b)
  with Cons show ?case by (auto intro!: preserves_intros init_provider_preserves)
qed (auto intro: preserves_intros)

lemma init_external_preserves [preserves_intros]:
  "preserves has_error (init_provider (world_log sr) n (describe_base p) q)"
  by (intro init_provider_preserves) (simp add: describe_base_def preserves_value split: option.split)

lemma finish_external_keeps: "has_error s \<Longrightarrow> has_error (snd (finish_external (ext_loader sr r) path sp p s))"
proof -
  have "preserves has_error (finish_external (ext_loader sr r) path sp p)"
    unfolding finish_external_def ext_loader_simps
    by (intro preserves_intros preserves_modify world_log_keeps)
  then show "has_error s \<Longrightarrow> ?thesis" by (simp add: preserves_def)
qed

lemma new_provider_error:
  "new_simple sr r c sp s = (p, s') \<Longrightarrow> has_error s \<Longrightarrow> has_error s'" "new_json sr r c sp s = (p, s') \<Longrightarrow> has_error s \<Longrightarrow> has_error s'"
  by (auto simp: new_simple_def new_json_def allocate_def Let_def has_error_def)

lemma parse_error:
  "lo_parse_spec (ext_loader sr r) n y s = (res, s') \<Longrightarrow> has_error s \<Longrightarrow> has_error s'"
  unfolding ext_loader_simps by (erule preservesD [rotated]) (auto intro: preserves_zoom)

lemma load_parsed_preserves: "has_error s \<Longrightarrow> has_error (snd (load_parsed (ext_loader sr r) path c yaml s))"
  by (auto simp: load_parsed_def world_log_keeps finish_external_keeps simp del: ext_loader_simps(3) split: prod.split outcome.split
      dest!: parse_error new_provider_error)

lemma metadata_error:
  "get_metadata (zoom_target sess_part put_sess tgt) rd path (c, s) = (res, (c', s')) \<Longrightarrow> has_error s \<Longrightarrow> has_error s'"
  using preservesD [OF get_metadata_preserves, of tgt rd path "(c, s)"] by (fastforce simp: cmd_error_def)

lemma load_external_preserves: "preserves has_error (load_external (ext_loader sr r) path)"
  unfolding preserves_def
  by (auto simp: load_external_def world_log_keeps load_parsed_preserves split: prod.split outcome.split option.split
      dest: metadata_error)

lemma load_all_preserves: "preserves has_error (load_all (ext_loader sr r) paths)"
  by (induction paths) (auto intro!: preserves_intros load_external_preserves simp: preserves_value)

text \<open>Metadata that mruby cannot parse is logged as an error, whatever the state.\<close>

lemma broken_metadata_logged:
  assumes "load_external (ext_loader sr r) path s = (Ok p, s')" and "sr_readable sr (yaml_path path) = Some yaml"
    and "mo_open (sr_mrb sr)" and "mo_load (sr_mrb sr) yaml = Err e" and "se_enabled (sr_se sr) Log_error"
  shows "has_error s'"
proof -
  have "env_parse_spec (make_env sr r) n yaml True t = (Err (''failed to parse provider metadata: '' @ e), t)" for n t
    using assms(3,4) by (simp add: env_parse_spec_def spec_read_def make_env_def fail_def)
  then have "load_parsed (ext_loader sr r) path c yaml t = (Ok None, world_log sr Log_error
      (prov_prefix path @ '': '' @ ''failed to parse provider metadata: '' @ e) t)" for c t
    by (simp add: load_parsed_def zoom_def sess_view.put_get del: append_Cons)
  then show ?thesis
    using assms(1,2,5) by (auto simp: load_external_def get_metadata_def ret_def world_log_error split: prod.splits option.splits)
qed

lemma load_all_logged:
  assumes "load_all (ext_loader sr r) paths s = (Ok ps, s')" and "path \<in> set paths" and "sr_readable sr (yaml_path path) = Some yaml"
    and "mo_open (sr_mrb sr)" and "mo_load (sr_mrb sr) yaml = Err e" and "se_enabled (sr_se sr) Log_error"
  shows "has_error s'"
  using assms(1,2)
proof (induction paths arbitrary: s ps)
  case (Cons q paths)
  from Cons.prems(1) obtain p s1 qs where one: "load_external (ext_loader sr r) q s = (Ok p, s1)"
      and rest: "load_all (ext_loader sr r) paths s1 = (Ok qs, s')"
    by (auto simp: bnd_Ok_iff ret_def)
  show ?case
  proof (cases "q = path")
    case True
    from broken_metadata_logged [OF one [unfolded True] assms(3-6)] preservesD [OF load_all_preserves rest] show ?thesis by blast
  next
    case False
    with Cons.prems(2) Cons.IH [OF rest] show ?thesis by simp
  qed
qed simp

lemma installed_logged:
  assumes "installed_providers sr r s = (Ok ps, s')" and "dir \<in> set (ra_data_dirs r)"
    and "path \<in> set (sr_list_prov sr (dir @ ''/providers''))" and "sr_readable sr (yaml_path path) = Some yaml"
    and "mo_open (sr_mrb sr)" and "mo_load (sr_mrb sr) yaml = Err e" and "se_enabled (sr_se sr) Log_error"
  shows "has_error s'"
proof -
  from ral_providers_parts [OF assms(1) [unfolded installed_providers_def]] obtain w1 es where
    "load_all (ext_loader sr r) (concat (map (\<lambda>dir. sr_list_prov sr (dir @ ''/providers'')) (ra_data_dirs r))) w1 = (Ok es, s')"
    by blast
  from load_all_logged [OF this _ assms(4-7)] assms(2,3) show ?thesis by auto
qed

lemma delete_keeps_log: "ma_log (ss_world (ssh_delete (machine_exe ex) sc s)) = ma_log (ss_world s)"
  by (simp add: ssh_delete_def run_ssh_def ssh_run_def machine_exe_def zoom_exe_def split: prod.split)

lemma all_types_logged:
  assumes "ralsh_all_types (install sr) opts r env (out, s) = (Ok None, (out', s'))"
    and "\<And>ps s1. installed_providers sr r s = (Ok ps, s1) \<Longrightarrow> has_error s1"
  shows "has_error s'"
  using assms by (auto simp: ralsh_all_types_def install_providers Let_def bnd_Ok_iff on_system_def ret_def emit_def lift_def say_def
      modify_def split: if_splits prod.splits)

lemma connect_dirs: "ralsh_connect su opts r s = (res, r', s') \<Longrightarrow> ra_data_dirs r' = ra_data_dirs r"
  by (auto simp: ralsh_connect_def ral_connect_def split: option.splits prod.splits outcome.splits)

lemma listing_work:
  assumes "ralsh_work su opts env (out, s) = (Ok c, (out', s'))" and "op_type opts = None"
    and "su_create su env (case op_include opts of Some ds \<Rightarrow> ds | None \<Rightarrow> []) = (r, env')"
  shows "c = Some 2 \<or> (\<exists>r' s1 s2. ra_data_dirs r' = ra_data_dirs r \<and> ralsh_all_types su opts r' env' (out, s1) = (Ok c, (out', s2)) \<and>
    s' = (case op_target opts of Some t \<Rightarrow> ssh_delete (su_exe su) (conf_of opts t) s2 | None \<Rightarrow> s2))"
  using assms by (auto simp: ralsh_work_def split: prod.splits outcome.splits dest!: connect_dirs)

text \<open>C18: one provider file whose metadata cannot be parsed is enough to make every listing of the
  providers end with the code for an error, on any target and although the other providers
  are listed: no run without a type can then end with success.\<close>

theorem broken_provider_fails_listing:
  assumes "ralsh_main (install sr) (Inr opts) env (out, s) = (Ok code, (out', s'))"
    and "\<not> op_help opts" and "\<not> op_version opts" and "op_type opts = None"
    and "su_create (install sr) env (case op_include opts of Some ds \<Rightarrow> ds | None \<Rightarrow> []) = (r, env')"
    and "dir \<in> set (ra_data_dirs r)" and "path \<in> set (sr_list_prov sr (dir @ ''/providers''))"
    and "sr_readable sr (yaml_path path) = Some yaml" and "mo_open (sr_mrb sr)" and "mo_load (sr_mrb sr) yaml = Err e"
    and "se_enabled (sr_se sr) Log_error"
  shows "code = 2"
proof -
  obtain c t where w: "ralsh_work (install sr) opts env t = (Ok c, (out', s'))"
      and code: "code = (case c of Some c \<Rightarrow> c | None \<Rightarrow> if error_logged (ma_log (ss_world s')) then 2 else 0)"
    using assms(1-3) by (auto simp: ralsh_main_def bnd_Ok_iff install_def)
  obtain out1 s0 where t: "t = (out1, s0)" by fastforce
  from listing_work [OF w [unfolded t] assms(4,5)] show ?thesis
  proof (elim disjE exE conjE)
    assume "c = Some 2"
    with code show ?thesis by simp
  next
    fix r' s1 s2
    assume dirs: "ra_data_dirs r' = ra_data_dirs r" and run: "ralsh_all_types (install sr) opts r' env' (out1, s1) = (Ok c, (out', s2))"
      and s': "s' = (case op_target opts of Some t \<Rightarrow> ssh_delete (su_exe (install sr)) (conf_of opts t) s2 | None \<Rightarrow> s2)"
    have log: "ma_log (ss_world s') = ma_log (ss_world s2)"
      by (simp add: s' install_def delete_keeps_log split: option.split)
    from other_codes(3) [OF run] show ?thesis
    proof (elim insertE emptyE)
      assume c: "c = None"
      have "has_error s2"
        using all_types_logged [OF run [unfolded c]] installed_logged [of sr r'] assms(6-11) by (auto simp: dirs)
      with code c log show ?thesis by (simp add: has_error_def)
    qed (use code in simp)
  qed
qed

text \<open>A system where nothing works: commands are found but fail, no metadata can be parsed.\<close>

definition bare_system :: "(unit, unit, nat) surroundings" where
  "bare_system = \<lparr>sr_exe = \<lparr>ex_execute = (\<lambda>f a i w. (\<lparr>cr_success = a \<noteq> [], cr_output = ''inlikeflynn'', cr_error = [], cr_exit_code = 255\<rparr>, w)),
       ex_each_line = (\<lambda>f a w. (([], \<lambda>_. True), w)), ex_which = (\<lambda>n w. ''/bin/'' @ n), ex_access_x = (\<lambda>f w. True)\<rparr>,
     sr_io = \<lparr>io_read = (\<lambda>f w. None), io_write = (\<lambda>f t w. w)\<rparr>, sr_aug = fixed_aug [],
     sr_paths = \<lparr>pa_filename = id, pa_join = (@)\<rparr>,
     sr_mrb = \<lparr>mo_open = True, mo_load = (\<lambda>y. Err ''bad YAML''), mo_exc = (\<lambda>y. None)\<rparr>, sr_js = demo_json,
     sr_users = \<lparr>db_passwd = (\<lambda>w. []), db_gids = (\<lambda>w u g. []), db_gname = (\<lambda>w g. None)\<rparr>, sr_groups = (\<lambda>w. []),
     sr_fs = \<lparr>fo_absolute = (\<lambda>p w. p), fo_symlink_status = (\<lambda>p w. None), fo_read_symlink = (\<lambda>p w. Err []),
       fo_last_write_time = (\<lambda>p w. Err []), fo_iso_time = (\<lambda>t. []), fo_lstat = (\<lambda>p w. None), fo_lchown = (\<lambda>p u g w. (None, w)),
       fo_permissions = (\<lambda>p m w. (None, w)), fo_read_file = (\<lambda>p w. None), fo_write_file = (\<lambda>p t w. (False, w)),
       fo_create_symlink = (\<lambda>t p w. (None, w)), fo_create_directory = (\<lambda>p w. (None, w)), fo_remove_all = (\<lambda>p w. (None, w))\<rparr>,
     sr_se = \<lparr>se_fmt = (\<lambda>t as. t), se_enabled = (\<lambda>l. True), se_unknown = False\<rparr>,
     sr_readable = (\<lambda>p. Some ''provider: ?''), sr_stem = id,
     sr_list_prov = (\<lambda>d. if d = ''/data/providers'' then [''/data/providers/x.prov''] else []), sr_yaml = id, sr_absolute = (\<lambda>p. ''/'' @ p),
     sr_data_dir = ''data'', sr_libexec = ''bin'', sr_tty = False, sr_help = ''help'', sr_version = ''0.0.3''\<rparr>"

definition fresh_world :: "(unit, unit) world" where
  "fresh_world = \<lparr>ss_tmpdir = [], ss_world = \<lparr>ma_mount = ((), 0), ma_host = ((), 0),
     ma_cmds = (\<lambda>i. \<lparr>c_cmd = [], c_needs_upload = False\<rparr>), ma_next = 0, ma_log = [], ma_sys = ()\<rparr>\<rparr>"

definition bare_ral :: ral where
  "bare_ral = fst (su_create (install bare_system) Map.empty [])"

lemma bare_ral_eq: "bare_ral = \<lparr>ra_data_dirs = [''/data''], ra_target = None, ra_local = True\<rparr>"
  by (simp add: bare_ral_def su_create_def install_def ral_create_def ral_data_dirs_def bare_system_def Let_def)

lemma bare_parse: "env_parse_spec (make_env bare_system r) n y b t =
    (Err (''failed to parse provider metadata: '' @ ''bad YAML''), t)"
  by (simp add: env_parse_spec_def spec_read_def make_env_def bare_system_def fail_def)

lemma zoom_describe_Err:
  "\<exists>e t. d (get s) = (Err e, t) \<Longrightarrow> \<exists>e t. zoom_describe get put d s = (Err e, t)"
  by (auto simp: zoom_describe_def zoom_def bnd_def)

lemma init_builtin_none:
  assumes "\<And>n d p s. (n, d, p) \<in> set bs \<Longrightarrow> p = blank_provider \<and> (\<exists>e t. d s = (Err e, t))"
  shows "\<exists>s'. init_builtin log bs s = (Ok [], s')"
  using assms
proof (induction bs arbitrary: s)
  case (Cons b bs)
  obtain n d p where b: "b = (n, d, p)" by (cases b)
  from Cons.prems [of n d p s] b obtain e t where "p = blank_provider" "d s = (Err e, t)" by auto
  then have "\<exists>s1. init_provider log n d p s = (Ok None, s1)"
    by (simp add: init_provider_def provider_prepare_def blank_provider_def bnd_def)
  then obtain s1 where "init_provider log n d p s = (Ok None, s1)" ..
  moreover have "\<exists>s2. init_builtin log bs s1 = (Ok [], s2)" 
  proof (rule Cons.IH)
    fix n d p s assume "(n, d, p) \<in> set bs"
    then show "p = blank_provider \<and> (\<exists>e t. d s = (Err e, t))" by (intro Cons.prems [of n]) simp
  qed
  then obtain s2 where "init_builtin log bs s1 = (Ok [], s2)" ..
  ultimately show ?case by (simp add: b bnd_def ret_def)
qed (simp add: ret_def)

lemma include_fixed: "\<exists>t. for_each (\<lambda>(lens, file). on_aug (handle_include (default_handle (fixed_aug []) :: (unit, 'w) aug_handle) lens file)) xs (s :: (unit, 'w) aug_world) = (Ok (), t)"
  by (induction xs arbitrary: s)
    (auto simp: ret_def bnd_def on_aug_def handle_include_def default_handle_def fixed_aug_def check_error_def Let_def)

lemma bare_augeas: "\<exists>h t. env_augeas (make_env bare_system bare_ral) xs s = (Ok h, t)"
proof -
  have "env_augeas (make_env bare_system bare_ral) xs = local_augeas (fixed_aug []) xs"
    by (simp add: env_augeas_def make_env_def bare_ral_eq make_local_def full_target.defs target.defs bare_system_def)
  moreover have "handle_make (fixed_aug []) None None s = (Ok (default_handle (fixed_aug [])), s)"
    by (simp add: handle_make_def default_handle_def fixed_aug_def)
  moreover obtain t where "for_each (\<lambda>(lens, file). on_aug (handle_include (default_handle (fixed_aug []) :: (unit, unit ssh_state) aug_handle) lens file)) xs s = (Ok (), t)"
    using include_fixed by blast
  moreover have "handle_load (default_handle (fixed_aug [])) t = (Ok (), t)"
    by (simp add: handle_load_def default_handle_def fixed_aug_def bnd_def on_aug_def modify_def check_error_def)
  ultimately show ?thesis by (simp add: local_augeas_def bnd_def ret_def)
qed

lemma bare_describes:
  "\<exists>e t. mount_describe (make_env bare_system bare_ral) y v = (Err e, t)"
  "\<exists>e t. host_describe (make_env bare_system bare_ral) y v = (Err e, t)"
proof -
  obtain h t where "env_augeas (make_env bare_system bare_ral) [(''Mount_Fstab.lns'', ''/etc/fstab''), (''Mount_Fstab.lns'', ''/etc/mtab'')] v = (Ok h, t)"
    using bare_augeas by blast
  then show "\<exists>e t. mount_describe (make_env bare_system bare_ral) y v = (Err e, t)"
    by (simp add: mount_describe_def bare_parse bnd_def on_sys_def split: prod.split del: find_commands.simps append_Cons)
  obtain h t where "env_augeas (make_env bare_system bare_ral) [(''Hosts.lns'', ''/etc/hosts'')] v = (Ok h, t)"
    using bare_augeas by blast
  then show "\<exists>e t. host_describe (make_env bare_system bare_ral) y v = (Err e, t)"
    by (simp add: host_describe_def bare_parse bnd_def on_sys_def del: append_Cons)
qed

lemma bare_accounts:
  "\<exists>e t. user_describe (make_env bare_system bare_ral) db y w = (Err e, t)"
  "\<exists>e t. group_describe (make_env bare_system bare_ral) gs y w = (Err e, t)"
  "\<exists>e t. file_describe (make_env bare_system bare_ral) fo y w = (Err e, t)"
  by (simp_all add: user_describe_def group_describe_def file_describe_def bare_parse bnd_def split: prod.split del: append_Cons)

lemma bare_builtin:
  "\<exists>s'. init_builtin (world_log bare_system) (builtin_providers bare_system bare_ral) s = (Ok [], s')"
  by (rule init_builtin_none) (auto simp: builtin_providers_def Let_def intro!: zoom_describe_Err bare_describes bare_accounts)

lemma bare_providers: "\<exists>s'. installed_providers bare_system bare_ral s = (Ok [], s')"
proof -
  obtain s1 where b: "init_builtin (world_log bare_system) (builtin_providers bare_system bare_ral) s = (Ok [], s1)"
    using bare_builtin by blast
  have "load_parsed (ext_loader bare_system bare_ral) p c y t = (Ok None, world_log bare_system Log_error
      (prov_prefix p @ '': '' @ ''failed to parse provider metadata: '' @ ''bad YAML'') t)" for p c y t
    by (simp add: load_parsed_def zoom_def sess_view.put_get bare_parse del: append_Cons)
  then have "\<exists>t'. load_external (ext_loader bare_system bare_ral) p t = (Ok None, t')" for p t
    by (simp add: load_external_def get_metadata_def ret_def env_script_def make_env_def bare_ral_eq make_local_def
        full_target.defs target.defs local_script_def local_command_def local_which_def session_exe_def zoom_exe_def bare_system_def
        del: append_Cons)
  then obtain s2 where "load_external (ext_loader bare_system bare_ral) ''/data/providers/x.prov'' s1 = (Ok None, s2)" by blast
  then have "installed_providers bare_system bare_ral s = (Ok [], s2)"
    using b by (simp add: installed_providers_def ral_providers_def bnd_def ret_def bare_ral_eq bare_system_def)
  then show ?thesis ..
qed

lemma bare_run:
  "\<exists>code out' s'. ralsh_main (install bare_system) (Inr (no_options\<lparr>op_quiet := True\<rparr>)) Map.empty ([], fresh_world) = (Ok code, (out', s'))"
proof -
  let ?su = "install bare_system" and ?o = "no_options\<lparr>op_quiet := True\<rparr>"
  obtain env' where c: "su_create ?su Map.empty [] = (bare_ral, env')" by (simp add: bare_ral_def prod_eq_iff)
  obtain s' where "installed_providers bare_system bare_ral fresh_world = (Ok [], s')" using bare_providers by blast
  then have "ralsh_work ?su ?o Map.empty ([], fresh_world) = (Ok None, ([], s'))"
    by (simp add: ralsh_work_def no_options_def c ralsh_connect_def ralsh_all_types_def bnd_def on_system_def
        install_providers choose_emitter_def quiet_emitter_def emit_Ok ret_def)
  then show ?thesis
    by (simp add: ralsh_main_def no_options_def option_warnings_def bnd_def say_def modify_def)
qed

theorem broken_provider_fails_listing_witness:
  "\<exists>out' s'. ralsh_main (install bare_system) (Inr (no_options\<lparr>op_quiet := True\<rparr>)) Map.empty ([], fresh_world) = (Ok 2, (out', s'))"
proof -
  obtain env' where c: "su_create (install bare_system) Map.empty [] = (bare_ral, env')" by (simp add: bare_ral_def prod_eq_iff)
  obtain code out' s' where run: "ralsh_main (install bare_system) (Inr (no_options\<lparr>op_quiet := True\<rparr>)) Map.empty ([], fresh_world) = (Ok code, (out', s'))"
    using bare_run by blast
  have "code = 2"
    by (rule broken_provider_fails_listing [OF run, of bare_ral env' "''/data''" "''/data/providers/x.prov''" "''provider: ?''" "''bad YAML''"])
      (simp_all add: no_options_def c bare_ral_eq, simp_all add: bare_system_def)
  with run show ?thesis by blast
qed

definition remote_ral :: ral where
  "remote_ral = \<lparr>ra_data_dirs = [], ra_target = Some \<lparr>sc_target = ''web1'', sc_sudo = True, sc_keep = False\<rparr>, ra_local = False\<rparr>"

definition good_system :: "(unit, unit, nat) surroundings" where
  "good_system = bare_system\<lparr>sr_mrb := demo_mrb\<rparr>"

lemma good_parse:
  "\<exists>sp. env_parse_spec (make_env good_system r) n y b t = (Ok sp, t) \<and> ps_suitable sp = b"
proof -
  have a: "spec_create ''name'' ''(missing description)'' ''string'' ''rw'' =
      Ok \<lparr>as_name = ''name'', as_desc = ''(missing description)'', as_data_type = String_type, as_kind = Kind_rw\<rparr>"
    by code_simp
  show ?thesis
    by (simp add: env_parse_spec_def make_env_def good_system_def spec_read_def demo_mrb_def Let_def a omap_emplace_def
        read_suitable_def bnd_def lift_def ret_def)
qed

lemma good_augeas:
  "\<exists>h t. env_augeas (make_env good_system remote_ral) xs s = (Ok h, t)"
proof -
  let ?sc = "\<lparr>sc_target = ''web1'', sc_sudo = True, sc_keep = False\<rparr>"
  have env: "env_augeas (make_env good_system remote_ral) xs = ssh_augeas (fixed_aug []) (sr_exe bare_system) (sr_paths bare_system) ?sc xs"
    by (simp add: env_augeas_def make_env_def remote_ral_def make_ssh_def full_target.defs target.defs good_system_def bare_system_def)
  have one: "\<exists>t. read_one (fixed_aug []) (sr_exe bare_system) ?sc x s = (Ok (), t)" for x and s :: "(unit, unit ssh_state) aug_world"
    by (cases x) (simp add: read_one_def bnd_def on_sys_def attempt_def ssh_read_def run_ssh_def ssh_run_def ssh_opts_def bare_system_def
        on_aug_def modify_def)
  have "\<exists>t. ssh_reader (fixed_aug []) (sr_exe bare_system) ?sc xs s = (Ok (), t)" for s :: "(unit, unit ssh_state) aug_world"
    unfolding ssh_reader_def
  proof (induction xs arbitrary: s)
    case (Cons x xs)
    obtain t where "read_one (fixed_aug []) (sr_exe bare_system) ?sc x s = (Ok (), t)" using one by blast
    with Cons.IH [of t] show ?case by (simp add: bnd_def)
  qed (simp add: ret_def)
  then obtain t where "ssh_reader (fixed_aug []) (sr_exe bare_system) ?sc xs (s\<lparr>aw_aug := ()\<rparr>) = (Ok (), t)" by blast
  moreover have "au_init (fixed_aug []) r = ()" "au_error (fixed_aug []) a = None" for r a
    by (simp_all add: fixed_aug_def)
  ultimately show ?thesis
    by (simp add: env ssh_augeas_def bnd_def handle_make_def handle_load_def on_aug_def check_error_def ret_def)
qed

lemma good_mount: "\<exists>p sp t. mount_describe (make_env good_system remote_ral) y v = (Ok (p, sp), t) \<and> ps_suitable sp"
proof -
  obtain h t where "env_augeas (make_env good_system remote_ral) [(''Mount_Fstab.lns'', ''/etc/fstab''), (''Mount_Fstab.lns'', ''/etc/mtab'')] v = (Ok h, t)"
    using good_augeas by blast
  moreover obtain cs w where "find_commands (make_env good_system remote_ral) [''mount'', ''umount''] (aw_sys t) = (cs, w)" by fastforce
  moreover obtain sp where "env_parse_spec (make_env good_system remote_ral) ''mount'' y True w = (Ok sp, w)" "ps_suitable sp"
    using good_parse [of remote_ral "''mount''" y True w] by auto
  ultimately show ?thesis
    by (simp add: mount_describe_def bnd_def on_sys_def ret_def del: find_commands.simps)
qed

lemma good_host: "\<exists>p sp t. host_describe (make_env good_system remote_ral) y v = (Ok (p, sp), t)"
proof -
  obtain h t where "env_augeas (make_env good_system remote_ral) [(''Hosts.lns'', ''/etc/hosts'')] v = (Ok h, t)"
    using good_augeas by blast
  moreover obtain sp where "env_parse_spec (make_env good_system remote_ral) ''host'' y True (aw_sys t) = (Ok sp, aw_sys t)"
    using good_parse [of remote_ral "''host''" y True "aw_sys t"] by auto
  ultimately show ?thesis by (simp add: host_describe_def bnd_def on_sys_def ret_def)
qed

lemma good_others:
  "\<exists>p sp t. user_describe (make_env good_system remote_ral) db y w = (Ok (p, sp), t)"
  "\<exists>p sp t. group_describe (make_env good_system remote_ral) gs y w = (Ok (p, sp), t)"
  "\<exists>p sp t. file_describe (make_env good_system remote_ral) fo y w = (Ok (p, sp), t)"
proof -
  have "\<not> env_is_local (make_env good_system remote_ral)" by (simp add: env_is_local_def make_env_def remote_ral_def)
  moreover obtain sp where "env_parse_spec (make_env good_system remote_ral) ''user'' y False w = (Ok sp, w)"
    using good_parse [of remote_ral "''user''" y False w] by auto
  moreover obtain sp' where "env_parse_spec (make_env good_system remote_ral) ''group'' y False w = (Ok sp', w)"
    using good_parse [of remote_ral "''group''" y False w] by auto
  moreover obtain sp2 where "env_parse_spec (make_env good_system remote_ral) ''file'' y False w = (Ok sp2, w)"
    using good_parse [of remote_ral "''file''" y False w] by auto
  ultimately show "\<exists>p sp t. user_describe (make_env good_system remote_ral) db y w = (Ok (p, sp), t)"
      "\<exists>p sp t. group_describe (make_env good_system remote_ral) gs y w = (Ok (p, sp), t)"
      "\<exists>p sp t. file_describe (make_env good_system remote_ral) fo y w = (Ok (p, sp), t)"
    by (simp_all add: user_describe_def group_describe_def file_describe_def account_commands_remote bnd_def ret_def)
qed

lemma init_zoom_run:
  "(\<And>t. \<exists>p sp u. d t = (Ok (p, sp), u)) \<Longrightarrow> \<exists>q t. init_provider log n (zoom_describe get put d) blank_provider s = (Ok q, t)"
  "(\<And>t. \<exists>p sp u. d t = (Ok (p, sp), u) \<and> ps_suitable sp) \<Longrightarrow>
    \<exists>q t. init_provider log n (zoom_describe get put d) blank_provider s = (Ok (Some q), t)"
proof -
  assume "\<And>t. \<exists>p sp u. d t = (Ok (p, sp), u)"
  then obtain p sp u where "d (get s) = (Ok (p, sp), u)" by blast
  then show "\<exists>q t. init_provider log n (zoom_describe get put d) blank_provider s = (Ok q, t)"
    by (simp add: init_provider_def provider_prepare_def blank_provider_def bnd_def ret_def zoom_describe_def zoom_def)
next
  assume "\<And>t. \<exists>p sp u. d t = (Ok (p, sp), u) \<and> ps_suitable sp"
  then obtain p sp u where "d (get s) = (Ok (p, sp), u)" "ps_suitable sp" by blast
  then show "\<exists>q t. init_provider log n (zoom_describe get put d) blank_provider s = (Ok (Some q), t)"
    by (simp add: init_provider_def provider_prepare_def blank_provider_def bnd_def ret_def zoom_describe_def zoom_def)
qed

lemma init_builtin_run:
  "always_ok (init_provider log n d p) \<Longrightarrow> always_ok (init_builtin log bs) \<Longrightarrow> always_ok (init_builtin log ((n, d, p) # bs))"
  by (auto intro!: always_ok_bnd)

lemma good_builtin: "\<exists>bs t. init_builtin log (builtin_providers good_system remote_ral) s = (Ok bs, t) \<and> bs \<noteq> []"
proof -
  obtain n d bs where all: "builtin_providers good_system remote_ral = (n, zoom_describe mount_part put_mount d, blank_provider) # bs"
      and d: "d = mount_describe (make_env good_system remote_ral) (sr_yaml good_system ''mount'')"
      and bs: "bs = tl (builtin_providers good_system remote_ral)"
    by (simp add: builtin_providers_def Let_def)
  have "always_ok (init_builtin log bs)"
    unfolding bs builtin_providers_def Let_def list.sel
    by (intro init_builtin_run) (simp_all add: always_ok_def init_zoom_run(1) good_others good_host, simp add: ret_def)
  moreover obtain q t where "init_provider log n (zoom_describe mount_part put_mount d) blank_provider s = (Ok (Some q), t)"
    using init_zoom_run(2) [of d] good_mount by (metis d)
  moreover from calculation obtain qs t' where "init_builtin log bs t = (Ok qs, t')" unfolding always_ok_def by metis
  ultimately show ?thesis by (simp add: all bnd_def ret_def)
qed


theorem settled_user_run_witness:
  "\<exists>t. ralsh_set (init_colors False) (choose_emitter (install bare_system) no_options)
     (zoom_provider sess_part put_sess (user_provider demo_db \<lparr>ac_add = (\<lambda>a. fail []), ac_mod = (\<lambda>a. fail []), ac_del = (\<lambda>a. fail [])\<rparr> (Some shell_spec)))
     ''eve'' [''shell=/bin/sh''] ([], fresh_world) = (Ok None, ([] @ t, fresh_world))"
proof -
  let ?ac = "\<lparr>ac_add = (\<lambda>a. fail []), ac_mod = (\<lambda>a. fail []), ac_del = (\<lambda>a. fail [])\<rparr> :: unit ssh_state account_cmds"
  let ?q = "user_provider demo_db ?ac (Some shell_spec)"
  let ?p = "zoom_provider sess_part put_sess ?q :: (unit, unit) world provider"
  let ?sh = "put_attr ''shell'' (VStr ''/bin/sh'') (new_resource ''eve'')"
  let ?is = "user_of_passwd demo_db (sess_part fresh_world) \<lparr>pw_name = ''eve'', pw_gecos = [], pw_gid = 5, pw_dir = ''/home/eve'',
       pw_shell = ''/bin/sh'', pw_uid = 7\<rparr>"
  have find: "find_char (CHR ''='') ''shell=/bin/sh'' = Some 5" by code_simp
  have parse: "provider_parse ?p ''shell'' ''/bin/sh'' = Ok (VStr ''/bin/sh'')"
    by (simp add: provider_parse_def zoom_provider_def shell_spec_def spec_attr_def spec_read_string_def read_string_type_def)
  have args: "read_args m ?p [''shell=/bin/sh''] (new_resource ''eve'') = Ok ?sh" for m
    using find parse by (simp add: res_set_def is_name_def)
  have name: "res_name ?is = ''eve''" by (simp add: user_of_passwd_def add_group_list_def)
  have get: "user_get demo_db [''eve''] (start ?q (sess_part fresh_world)) = (Ok [?is], start ?q (sess_part fresh_world))"
    using name by (simp add: user_get_def start_def demo_db_def)
  have upds: "build_updates [?sh] [?is] = [\<lparr>upd_is = ?is, upd_should = ?sh\<rparr>]" using name by simp
  have "user_settled \<lparr>upd_is = ?is, upd_should = ?sh\<rparr>"
    by (simp add: user_settled_def user_plan_def ensure_plan_def want_state_def is_state_def user_of_passwd_def
        add_group_list_def lookup_val val_at_put user_diffs_def user_opts_def differs_def groups_differ_def
        user_groups_def lookup_def Let_def)
  then have "\<forall>u \<in> set (build_updates [?sh] [?is]). user_settled u" unfolding upds by simp
  from settled_user_run [OF args refl get this, of "init_colors False" "install bare_system" no_options "[]"] show ?thesis .
qed

end
