(* ===== verification/Ruby.thy ===== *)
theory Ruby
  imports Ralsh
begin

section \<open>The Ruby binding\<close>

text \<open>
  \<open>ruby/ext/libral/libral.cc\<close>: providers as Ruby objects, and resources, changes and updates as
  instances of the classes in \<open>ruby/lib/libral/\<close>. Ruby is the interpreter that calls this code:
  its values are a datatype, of which \<open>ROther\<close> stands for objects that are none of
  the others and convert to nothing, and its exceptions are the left side of a sum. A C++
  exception that reaches the interpreter ends the process. \<open>inspect\<close> is a parameter.
\<close>

datatype rb_value =
    RNil
  | RBool bool
  | RStr string
  | RArr "rb_value list"
  | RHash "(rb_value \<times> rb_value) list"
  | RResource rb_value rb_value
  | RChange rb_value rb_value rb_value
  | RUpdate rb_value rb_value rb_value
  | ROther

datatype rb_error =
    Type_error string
  | Argument_error string
  | No_method_error string
  | Provider_error string
  | Cpp_exception exn

type_synonym 'a ruby = "rb_error + 'a"

fun rbind :: "'a ruby \<Rightarrow> ('a \<Rightarrow> 'b ruby) \<Rightarrow> 'b ruby" where
  "rbind (Inl e) f = Inl e"
| "rbind (Inr a) f = f a"

fun rmap :: "('a \<Rightarrow> 'b ruby) \<Rightarrow> 'a list \<Rightarrow> 'b list ruby" where
  "rmap f [] = Inr []"
| "rmap f (x # xs) = rbind (f x) (\<lambda>y. rbind (rmap f xs) (\<lambda>ys. Inr (y # ys)))"

subsection \<open>Values\<close>

text \<open>\<open>StringValueCStr\<close> refuses strings that contain a zero byte.\<close>

fun string_value_cstr :: "rb_value \<Rightarrow> string ruby" where
  "string_value_cstr (RStr s) = (if nul \<in> set s then Inl (Argument_error ''string contains null byte'') else Inr s)"
| "string_value_cstr _ = Inl (Type_error ''no implicit conversion into String'')"

fun value_to_ruby :: "value_base \<Rightarrow> rb_value" where
  "value_to_ruby VNone = RNil"
| "value_to_ruby (VBool b) = RBool b"
| "value_to_ruby (VStr s) = RStr (c_str s)"
| "value_to_ruby (VArr ss) = RArr (map (\<lambda>s. RStr (c_str s)) ss)"

definition element_from_ruby :: "(rb_value \<Rightarrow> string) \<Rightarrow> rb_value \<Rightarrow> rb_value \<Rightarrow> string ruby" where
  "element_from_ruby inspect val elt = (case elt of
      RStr s \<Rightarrow> string_value_cstr elt
    | _ \<Rightarrow> Inl (Provider_error (''only array[string], but not '' @ inspect val @ '' can be converted to a libral::value'')))"

fun value_from_ruby :: "(rb_value \<Rightarrow> string) \<Rightarrow> rb_value \<Rightarrow> value_base ruby" where
  "value_from_ruby inspect (RStr s) = rbind (string_value_cstr (RStr s)) (\<lambda>t. Inr (VStr t))"
| "value_from_ruby inspect (RArr vs) = rbind (rmap (element_from_ruby inspect (RArr vs)) vs) (\<lambda>ss. Inr (VArr ss))"
| "value_from_ruby inspect v = Inl (Provider_error (''cannot convert '' @ inspect v @ '' to a libral::value''))"

subsection \<open>Resources\<close>

fun hash_aset :: "(rb_value \<times> rb_value) list \<Rightarrow> rb_value \<Rightarrow> rb_value \<Rightarrow> (rb_value \<times> rb_value) list" where
  "hash_aset [] k v = [(k, v)]"
| "hash_aset ((k', v') # h) k v = (if k' = k then (k, v) # h else (k', v') # hash_aset h k v)"

definition resource_to_ruby :: "resource \<Rightarrow> rb_value" where
  "resource_to_ruby r = RResource (RStr (c_str (res_name r)))
     (RHash (foldl (\<lambda>h (k, v). hash_aset h (RStr (c_str k)) (value_to_ruby v)) [] (attrs r)))"

fun iv_name :: "rb_value \<Rightarrow> rb_value" where
  "iv_name (RResource n a) = n"
| "iv_name _ = RNil"

fun iv_attrs :: "rb_value \<Rightarrow> rb_value" where
  "iv_attrs (RResource n a) = a"
| "iv_attrs _ = RNil"

text \<open>
  The loop over the keys. C++ leaves open whether the value or the key is converted first, which
  matters only for the error when both are wrong.
\<close>

fun assign_attrs :: "(rb_value \<Rightarrow> string) \<Rightarrow> (rb_value \<times> rb_value) list \<Rightarrow> resource \<Rightarrow> resource ruby" where
  "assign_attrs inspect [] res = Inr res"
| "assign_attrs inspect ((key, val) # h) res =
     rbind (value_from_ruby inspect val) (\<lambda>v. rbind (string_value_cstr key) (\<lambda>k.
       case res_set res k v of
         Ok res' \<Rightarrow> assign_attrs inspect h res'
       | Exn x \<Rightarrow> Inl (Cpp_exception x)
       | Err e \<Rightarrow> Inl (Cpp_exception (Logic_error e))))"

definition resource_from_ruby :: "(rb_value \<Rightarrow> string) \<Rightarrow> rb_value \<Rightarrow> resource ruby" where
  "resource_from_ruby inspect rb_res = rbind (string_value_cstr (iv_name rb_res)) (\<lambda>name.
     case iv_attrs rb_res of
       RHash h \<Rightarrow> assign_attrs inspect h (new_resource name)
     | _ \<Rightarrow> Inl (No_method_error ''keys''))"

subsection \<open>The methods\<close>

fun get_names :: "rb_value list \<Rightarrow> string list ruby" where
  "get_names [] = Inr []"
| "get_names (RArr elts # args) =
     rbind (rmap string_value_cstr elts) (\<lambda>ns. rbind (get_names args) (\<lambda>ms. Inr (ns @ ms)))"
| "get_names (RStr s # args) =
     rbind (string_value_cstr (RStr s)) (\<lambda>n. rbind (get_names args) (\<lambda>ms. Inr (n # ms)))"
| "get_names (_ # args) = Inl (Type_error ''arguments to get must be strings or arrays of strings'')"

definition libral_prov_get :: "'s provider \<Rightarrow> rb_value list \<Rightarrow> 's \<Rightarrow> rb_value ruby \<times> 's" where
  "libral_prov_get p argv s = (case get_names argv of
      Inl e \<Rightarrow> (Inl e, s)
    | Inr names \<Rightarrow> (case provider_get p names s of
        (Ok rs, s') \<Rightarrow> (Inr (RArr (map resource_to_ruby rs)), s')
      | (Err e, s') \<Rightarrow> (Inl (Provider_error (''get failed: '' @ c_str e)), s')
      | (Exn x, s') \<Rightarrow> (Inl (Cpp_exception x), s')))"

definition change_to_ruby :: "change \<Rightarrow> rb_value" where
  "change_to_ruby ch = RChange (RStr (c_str (ch_attr ch))) (value_to_ruby (ch_is ch)) (value_to_ruby (ch_was ch))"

definition update_to_ruby :: "update \<times> changes \<Rightarrow> rb_value" where
  "update_to_ruby uc = RUpdate (resource_to_ruby (upd_is (fst uc))) (resource_to_ruby (upd_should (fst uc)))
     (RArr (map change_to_ruby (snd uc)))"

definition libral_prov_set :: "(rb_value \<Rightarrow> string) \<Rightarrow> 's provider \<Rightarrow> rb_value \<Rightarrow> 's \<Rightarrow> rb_value ruby \<times> 's" where
  "libral_prov_set inspect p rb_resource_ary s = (case rb_resource_ary of
      RArr vs \<Rightarrow> (case rmap (resource_from_ruby inspect) vs of
          Inl e \<Rightarrow> (Inl e, s)
        | Inr rsrcs \<Rightarrow> (case provider_set p rsrcs s of
            (Ok pairs, s') \<Rightarrow> (Inr (RArr (map update_to_ruby pairs)), s')
          | (Err e, s') \<Rightarrow> (Inl (Provider_error (c_str e)), s')
          | (Exn x, s') \<Rightarrow> (Inl (Cpp_exception x), s')))
    | _ \<Rightarrow> (Inl (Type_error ''the resources argument must be an array''), s))"

definition libral_prov_name :: "'s provider \<Rightarrow> rb_value ruby" where
  "libral_prov_name p = (case provider_qname p of Ok q \<Rightarrow> Inr (RStr q) | Exn x \<Rightarrow> Inl (Cpp_exception x)
     | Err e \<Rightarrow> Inl (Cpp_exception (Logic_error e)))"

definition libral_ral_provider :: "('w, 'j) installation \<Rightarrow> ral \<Rightarrow> penv \<Rightarrow> rb_value \<Rightarrow> 'w ssh_state \<Rightarrow> 'w ssh_state provider ruby \<times> 'w ssh_state" where
  "libral_ral_provider su r env rb_name s = (case string_value_cstr rb_name of
      Inl e \<Rightarrow> (Inl e, s)
    | Inr name \<Rightarrow> (case su_find_provider su r env name s of
        (Ok (Some p), s') \<Rightarrow> (Inr p, s')
      | (Ok None, s') \<Rightarrow> (Inl (Provider_error (''Failed to find provider '' @ quoted name)), s')
      | (Err e, s') \<Rightarrow> (Inl (Cpp_exception (Logic_error e)), s')
      | (Exn x, s') \<Rightarrow> (Inl (Cpp_exception x), s')))"

definition libral_open :: "('w, 'j) installation \<Rightarrow> penv \<Rightarrow> ral \<times> penv" where
  "libral_open su env = su_create su env []"

subsection \<open>From libral to Ruby and back\<close>

definition no_nul :: "resource \<Rightarrow> bool" where
  "no_nul r \<longleftrightarrow> nul \<notin> set (res_name r) \<and> (\<forall>(k, v) \<in> set (attrs r). nul \<notin> set k)"

definition cut_value :: "value_base \<Rightarrow> value_base" where
  "cut_value v = (case v of VStr s \<Rightarrow> VStr (c_str s) | VArr ss \<Rightarrow> VArr (map c_str ss) | _ \<Rightarrow> v)"

definition ruby_writable :: "value_base \<Rightarrow> bool" where
  "ruby_writable v \<longleftrightarrow> (case v of VStr s \<Rightarrow> True | VArr ss \<Rightarrow> True | _ \<Rightarrow> False)"

lemma rmap_Inr: "(\<And>x. x \<in> set xs \<Longrightarrow> f x = Inr (g x)) \<Longrightarrow> rmap f xs = Inr (map g xs)"
  by (induction xs) simp_all

lemma value_back:
  "value_from_ruby inspect (value_to_ruby v) =
     (if ruby_writable v then Inr (cut_value v)
      else Inl (Provider_error (''cannot convert '' @ inspect (value_to_ruby v) @ '' to a libral::value'')))"
proof (cases v)
  case (VArr ss)
  have "rmap (element_from_ruby inspect x) (map (\<lambda>s. RStr (c_str s)) ss) = Inr (map c_str ss)" for x
    by (induction ss) (simp_all add: element_from_ruby_def c_str_no_nul)
  with VArr show ?thesis by (simp add: ruby_writable_def cut_value_def)
qed (simp_all add: ruby_writable_def cut_value_def c_str_no_nul)

lemma hash_aset_new: "k \<notin> fst ` set h \<Longrightarrow> hash_aset h k v = h @ [(k, v)]"
  by (induction h k v rule: hash_aset.induct) auto

text \<open>The hash of a resource without zero bytes in its keys lists the attributes in their order.\<close>

lemma attrs_hash:
  assumes "distinct (map fst as)" and "\<forall>(k, v) \<in> set as. nul \<notin> set k"
  shows "foldl (\<lambda>h (k, v). hash_aset h (RStr (c_str k)) (value_to_ruby v)) [] as = map (\<lambda>(k, v). (RStr k, value_to_ruby v)) as"
  using assms
proof (induction as rule: rev_induct)
  case (snoc a as)
  obtain k v where a: "a = (k, v)" by (cases a)
  with snoc have "foldl (\<lambda>h (k, v). hash_aset h (RStr (c_str k)) (value_to_ruby v)) [] as = map (\<lambda>(k, v). (RStr k, value_to_ruby v)) as"
      and "k \<notin> fst ` set as" and "c_str k = k" by (auto simp: c_str_id)
  then show ?case by (auto simp: a image_iff intro!: hash_aset_new) (metis fst_conv imageI)
qed simp

lemma resource_to_ruby_eq:
  assumes "resource_ok r" and "no_nul r"
  shows "resource_to_ruby r = RResource (RStr (res_name r)) (RHash (map (\<lambda>(k, v). (RStr k, value_to_ruby v)) (attrs r)))"
  using assms attrs_hash [of "attrs r"] by (simp add: resource_to_ruby_def resource_ok_def no_nul_def omap_ok_distinct c_str_id)

lemma assign_back:
  assumes "\<forall>(k, v) \<in> set as. nul \<notin> set k \<and> k \<noteq> ''name'' \<and> ruby_writable v"
  shows "assign_attrs inspect (map (\<lambda>(k, v). (RStr k, value_to_ruby v)) as) r =
    Inr (fold (\<lambda>(k, v). put_attr k v) (map (\<lambda>(k, v). (k, cut_value v)) as) r)"
  using assms by (induction as arbitrary: r) (auto simp: value_back res_set_def is_name_def)

lemma assign_bad:
  assumes "\<forall>(k, v) \<in> set as. nul \<notin> set k \<and> k \<noteq> ''name''" and "\<exists>(k, v) \<in> set as. \<not> ruby_writable v"
  shows "\<exists>m. assign_attrs inspect (map (\<lambda>(k, v). (RStr k, value_to_ruby v)) as) r = Inl (Provider_error m)"
  using assms
proof (induction as arbitrary: r)
  case (Cons a as)
  obtain k v where "a = (k, v)" by (cases a)
  with Cons show ?case by (auto simp: value_back res_set_def is_name_def)
qed simp

lemma from_ruby_back:
  assumes "resource_ok r" and "no_nul r" and "\<forall>(k, v) \<in> set (attrs r). ruby_writable v"
  shows "resource_from_ruby inspect (resource_to_ruby r) = Inr \<lparr>res_name = res_name r, attrs = map (\<lambda>(k, v). (k, cut_value v)) (attrs r)\<rparr>"
proof -
  have ok: "omap_ok (map (\<lambda>(k, v). (k, cut_value v)) (attrs r))"
    using assms(1) by (simp add: resource_ok_def omap_ok_def comp_def split_def)
  have "\<forall>(k, v) \<in> set (attrs r). nul \<notin> set k \<and> k \<noteq> ''name'' \<and> ruby_writable v"
    using assms by (force simp: resource_ok_def no_nul_def)
  from assign_back [OF this] show ?thesis
    using assms(2) by (simp add: resource_from_ruby_def resource_to_ruby_eq [OF assms(1,2)] no_nul_def new_resource_def fold_put_attr
        fold_omap_put [OF ok])
qed

lemma from_ruby_bad:
  assumes "resource_ok r" and "no_nul r" and "\<exists>(k, v) \<in> set (attrs r). \<not> ruby_writable v"
  shows "\<exists>m. resource_from_ruby inspect (resource_to_ruby r) = Inl (Provider_error m)"
proof -
  have "\<forall>(k, v) \<in> set (attrs r). nul \<notin> set k \<and> k \<noteq> ''name''"
    using assms by (force simp: resource_ok_def no_nul_def)
  from assign_bad [OF this assms(3)] assms(2) show ?thesis
    by (simp add: resource_from_ruby_def resource_to_ruby_eq [OF assms(1,2)] no_nul_def)
qed

text \<open>C15: what \<open>get\<close> gives to Ruby can be given back to \<open>set\<close> exactly when no attribute is a boolean or nil:
  then the desired resources are the reported ones (strings are cut at a zero
  byte); otherwise \<open>set\<close> raises an error, before any resource, also one that could be
  written, is touched.\<close>

theorem ruby_write_back:
  assumes "\<forall>r \<in> set rs. resource_ok r \<and> no_nul r"
  shows "if \<forall>r \<in> set rs. \<forall>(k, v) \<in> set (attrs r). ruby_writable v
    then rmap (resource_from_ruby inspect) (map resource_to_ruby rs) =
      Inr (map (\<lambda>r. \<lparr>res_name = res_name r, attrs = map (\<lambda>(k, v). (k, cut_value v)) (attrs r)\<rparr>) rs)
    else (\<exists>m. libral_prov_set inspect p (RArr (map resource_to_ruby rs)) s = (Inl (Provider_error m), s))"
proof (cases "\<forall>r \<in> set rs. \<forall>(k, v) \<in> set (attrs r). ruby_writable v")
  case True
  have "rmap (resource_from_ruby inspect) (map resource_to_ruby rs) =
      Inr (map (\<lambda>r. \<lparr>res_name = res_name r, attrs = map (\<lambda>(k, v). (k, cut_value v)) (attrs r)\<rparr>) rs)"
    using assms True by (induction rs) (simp_all add: from_ruby_back)
  with True show ?thesis by simp
next
  case False
  then have "\<exists>m. rmap (resource_from_ruby inspect) (map resource_to_ruby rs) = Inl (Provider_error m)"
    using assms
  proof (induction rs)
    case (Cons r rs)
    show ?case
    proof (cases "\<forall>(k, v) \<in> set (attrs r). ruby_writable v")
      case True
      with Cons.prems have "\<not> (\<forall>r \<in> set rs. \<forall>(k, v) \<in> set (attrs r). ruby_writable v)" by auto
      then obtain m where "rmap (resource_from_ruby inspect) (map resource_to_ruby rs) = Inl (Provider_error m)"
        using Cons.IH Cons.prems(2) by auto
      moreover have "resource_from_ruby inspect (resource_to_ruby r) = Inr \<lparr>res_name = res_name r, attrs = map (\<lambda>(k, v). (k, cut_value v)) (attrs r)\<rparr>"
        using Cons.prems(2) True by (intro from_ruby_back) auto
      ultimately show ?thesis by simp
    next
      case bad: False
      then have "\<exists>(k, v) \<in> set (attrs r). \<not> ruby_writable v" by auto
      from from_ruby_bad [OF _ _ this, of inspect] Cons.prems(2) obtain m where
        "resource_from_ruby inspect (resource_to_ruby r) = Inl (Provider_error m)" by auto
      then show ?thesis by simp
    qed
  qed simp
  then show ?thesis using False by (auto simp: libral_prov_set_def)
qed

theorem ruby_write_back_witness:
  "\<exists>m. libral_prov_set (\<lambda>v. ''true'') (demo_provider []) (RArr (map resource_to_ruby
     [put_attr ''shell'' (VStr ''/bin/sh'') (new_resource ''a''), put_attr ''managed'' (VBool True) (new_resource ''b'')])) 7 =
     (Inl (Provider_error m), 7)"
proof -
  let ?rs = "[put_attr ''shell'' (VStr ''/bin/sh'') (new_resource ''a''), put_attr ''managed'' (VBool True) (new_resource ''b'')]"
  have "\<forall>r \<in> set ?rs. resource_ok r \<and> no_nul r"
    by (simp add: resource_ok_def no_nul_def put_attr_def new_resource_def nul_def omap_ok_Cons)
  from ruby_write_back [OF this, of "\<lambda>v. ''true''" "demo_provider []" 7] show ?thesis
    by (simp add: put_attr_def new_resource_def ruby_writable_def)
qed

text \<open>The example in \<open>ruby/lib/libral.rb\<close>, \<open>prov.set(rs)\<close> with one resource, is refused: \<open>set\<close> wants an array.\<close>

lemma set_wants_array: "libral_prov_set inspect p (RResource n a) s = (Inl (Type_error ''the resources argument must be an array''), s)"
  by (simp add: libral_prov_set_def)

text \<open>The documentation there says that only resources that were changed are in the result of \<open>set\<close>; there is one
  entry for every update, with or without changes.\<close>

lemma set_reports_all:
  "rmap (resource_from_ruby inspect) vs = Inr shoulds \<Longrightarrow> provider_set p shoulds s = (Ok pairs, s') \<Longrightarrow>
    libral_prov_set inspect p (RArr vs) s = (Inr (RArr (map update_to_ruby pairs)), s')"
  by (simp add: libral_prov_set_def)

end
