(* ===== verification/Mruby.thy ===== *)
theory Mruby
  imports Prelude
begin

section \<open>The mruby program\<close>

text \<open>
  \<open>exe/mruby.c\<close>: reading the switches, loading the program they name, and the exit code. The interpreter is code
  of another repository and is a parameter, \<open>vm_ops\<close>, over a state of its own; so is \<open>fopen\<close>. What the
  program prints, and the files and memory it acquires and releases, is a list of events. Evaluating Ruby code is
  taken to return; an evaluation that does not return, or ends the process, is outside the model.
\<close>

subsection \<open>What the program does to its surroundings\<close>

datatype event =
    Printed string
  | Complained string
  | Showed_version
  | Showed_copyright
  | Opened string
  | Closed string
  | Allocated
  | Freed

text \<open>How a run ends: with an exit code, or by \<open>abort\<close>.\<close>

datatype ending = Exited int | Aborted

subsection \<open>The interpreter\<close>

record rb_context =
  rc_filename :: string
  rc_dump_result :: bool
  rc_no_exec :: bool

datatype rb_file = Stdin | Program string

text \<open>A loaded program gives a value, or none where the interpreter's is undefined. The printers give the text and
  the state after making it.\<close>

record ('i, 'v) vm_ops =
  vm_open :: "'i option"
  vm_utf8 :: "string \<Rightarrow> string option"
  vm_define_argv :: "string list \<Rightarrow> 'i \<Rightarrow> 'i"
  vm_set_zero :: "string \<Rightarrow> 'i \<Rightarrow> 'i"
  vm_load_irep :: "rb_context \<Rightarrow> rb_file option \<Rightarrow> 'i \<Rightarrow> 'v option \<times> 'i"
  vm_load_file :: "rb_context \<Rightarrow> rb_file \<Rightarrow> 'i \<Rightarrow> 'v option \<times> 'i"
  vm_load_string :: "rb_context \<Rightarrow> string \<Rightarrow> 'i \<Rightarrow> 'v option \<times> 'i"
  vm_exc :: "'i \<Rightarrow> 'v option"
  vm_p :: "'v \<Rightarrow> 'i \<Rightarrow> string \<times> 'i"
  vm_print_error :: "'i \<Rightarrow> string \<times> 'i"

subsection \<open>The switches\<close>

text \<open>\<open>struct _args\<close>. The pointer \<open>cmdline\<close> is null, an allocated text, or an entry of \<open>argv\<close>.\<close>

datatype cmdline = No_cmdline | Heap string | Argument string

record mruby_args =
  ma_rfp :: "rb_file option"
  ma_cmdline :: cmdline
  ma_fname :: bool
  ma_mrbfile :: bool
  ma_check_syntax :: bool
  ma_verbose :: bool
  ma_argv :: "string list option"

definition args_zero :: mruby_args where
  "args_zero = \<lparr>ma_rfp = None, ma_cmdline = No_cmdline, ma_fname = False, ma_mrbfile = False, ma_check_syntax = False,
     ma_verbose = False, ma_argv = None\<rparr>"

definition mruby_usage :: "string \<Rightarrow> event list" where
  "mruby_usage name = map Printed ((''Usage: '' @ name @ '' [switches] programfile'' @ newline) # map (\<lambda>l. ''  '' @ l @ newline)
     [''switches:'',
      ''-b           load and execute RiteBinary (mrb) file'',
      ''-c           check syntax only'',
      ''-e '' @ quoted ''command'' @ '' one line of script'',
      ''-v           print version number, then run in verbose mode'',
      ''--verbose    run in verbose mode'',
      ''--version    print the version'',
      ''--copyright  print the copyright''])"

text \<open>The text of one \<open>-e\<close>: a new allocation for the first, the old one extended by a line for the next.\<close>

fun append_cmdline :: "string \<Rightarrow> mruby_args \<times> event list \<Rightarrow> mruby_args \<times> event list" where
  "append_cmdline item (a, ev) = (case ma_cmdline a of
      No_cmdline \<Rightarrow> (a\<lparr>ma_cmdline := Heap item\<rparr>, ev @ [Allocated])
    | Heap c \<Rightarrow> (a\<lparr>ma_cmdline := Heap (c @ newline @ item)\<rparr>, ev)
    | Argument c \<Rightarrow> (a\<lparr>ma_cmdline := Heap (c @ newline @ item)\<rparr>, ev))"

text \<open>Where reading the switches ends: with the arguments that are left, with a code that is returned, or with the
  process.\<close>

datatype switches_end = Left_over "string list" | Returned int | Process_exit

definition show_version_once :: "bool \<Rightarrow> event list" where
  "show_version_once verbose = (if verbose then [] else [Showed_version])"

fun mruby_switches :: "string \<Rightarrow> string list \<Rightarrow> mruby_args \<times> event list \<Rightarrow> switches_end \<times> mruby_args \<times> event list" where
  "mruby_switches prog [] (a, ev) = (Left_over [], a, ev)"
| "mruby_switches prog (x # xs) (a, ev) =
     (if take 1 x \<noteq> ''-'' then (Left_over (x # xs), a, ev)
      else if length x \<le> 1 then (Left_over xs, a\<lparr>ma_rfp := Some Stdin\<rparr>, ev)
      else let c = x ! 1; item = drop 2 x in
        if c = CHR ''b'' then mruby_switches prog xs (a\<lparr>ma_mrbfile := True\<rparr>, ev)
        else if c = CHR ''c'' then mruby_switches prog xs (a\<lparr>ma_check_syntax := True\<rparr>, ev)
        else if c = CHR ''e'' then
          (if item \<noteq> [] then mruby_switches prog xs (append_cmdline item (a, ev))
           else (case xs of
               y # ys \<Rightarrow> mruby_switches prog ys (append_cmdline y (a, ev))
             | [] \<Rightarrow> (Returned 0, a, ev @ [Printed (prog @ '': No code specified for -e'' @ newline)])))
        else if c = CHR ''v'' then mruby_switches prog xs (a\<lparr>ma_verbose := True\<rparr>, ev @ show_version_once (ma_verbose a))
        else if c = CHR ''-'' \<and> item = ''version'' then (Process_exit, a, ev @ [Showed_version])
        else if c = CHR ''-'' \<and> item = ''verbose'' then mruby_switches prog xs (a\<lparr>ma_verbose := True\<rparr>, ev)
        else if c = CHR ''-'' \<and> item = ''copyright'' then (Process_exit, a, ev @ [Showed_copyright])
        else (Returned 1, a, ev))"

text \<open>\<open>parse_args\<close>: without a program so far, the next argument is the file to run.\<close>

definition set_argv :: "string list \<Rightarrow> mruby_args \<times> event list \<Rightarrow> switches_end \<times> mruby_args \<times> event list" where
  "set_argv rest = (\<lambda>(a, ev). (Returned 0, a\<lparr>ma_argv := Some rest\<rparr>, ev @ [Allocated]))"

definition mruby_parse_args :: "(string \<Rightarrow> string \<Rightarrow> bool) \<Rightarrow> string \<Rightarrow> string list \<Rightarrow> switches_end \<times> mruby_args \<times> event list" where
  "mruby_parse_args fopen prog xs = (case mruby_switches prog xs (args_zero, []) of
      (Left_over rest, a, ev) \<Rightarrow>
        if ma_rfp a = None \<and> ma_cmdline a = No_cmdline then
          (case rest of
             [] \<Rightarrow> set_argv [] (a\<lparr>ma_rfp := Some Stdin\<rparr>, ev)
           | f # others \<Rightarrow>
               if fopen f (if ma_mrbfile a then ''rb'' else ''r'')
               then set_argv others (a\<lparr>ma_rfp := Some (Program f), ma_fname := True, ma_cmdline := Argument f\<rparr>, ev @ [Opened f])
               else (Returned 1, a, ev @ [Printed (prog @ '': Cannot open program file. ('' @ f @ '')'' @ newline)]))
        else set_argv rest (a, ev)
    | early \<Rightarrow> early)"

text \<open>Freeing a null pointer does nothing; freeing an entry of \<open>argv\<close> would be undefined.\<close>

definition free_cmdline :: "cmdline \<Rightarrow> event list outcome" where
  "free_cmdline c = (case c of
      No_cmdline \<Rightarrow> Ok []
    | Heap t \<Rightarrow> Ok [Freed]
    | Argument t \<Rightarrow> Exn (Undefined ''freeing an entry of argv''))"

definition mruby_cleanup :: "mruby_args \<Rightarrow> event list outcome" where
  "mruby_cleanup a = obind (if ma_fname a then Ok [] else free_cmdline (ma_cmdline a)) (\<lambda>freed.
     Ok ((case ma_rfp a of Some (Program f) \<Rightarrow> [Closed f] | _ \<Rightarrow> []) @ freed @
       (if ma_argv a = None then [] else [Freed])))"

subsection \<open>Running the program\<close>

fun cmdline_text :: "cmdline \<Rightarrow> string option" where
  "cmdline_text No_cmdline = None"
| "cmdline_text (Heap t) = Some t"
| "cmdline_text (Argument t) = Some t"

definition argv_strings :: "(string \<Rightarrow> string option) \<Rightarrow> string list \<Rightarrow> string list" where
  "argv_strings utf8 argv = List.map_filter utf8 argv"

definition script_name :: "mruby_args \<Rightarrow> string" where
  "script_name a = (if ma_rfp a \<noteq> None then (case cmdline_text (ma_cmdline a) of Some c \<Rightarrow> c | None \<Rightarrow> ''-'') else ''-e'')"

text \<open>Loading and running: the value and the interpreter afterwards, or none when \<open>abort\<close> was called.\<close>

definition mruby_load :: "('i, 'v) vm_ops \<Rightarrow> rb_context \<Rightarrow> mruby_args \<Rightarrow> 'i \<Rightarrow> ('v option \<times> 'i) option" where
  "mruby_load vm c a i =
     (if ma_mrbfile a then Some (vm_load_irep vm c (ma_rfp a) i)
      else case ma_rfp a of
        Some f \<Rightarrow> Some (vm_load_file vm c f i)
      | None \<Rightarrow> (case vm_utf8 vm (case cmdline_text (ma_cmdline a) of Some t \<Rightarrow> t | None \<Rightarrow> []) of
            None \<Rightarrow> None
          | Some t \<Rightarrow> Some (vm_load_string vm c t i)))"

definition mruby_run :: "('i, 'v) vm_ops \<Rightarrow> mruby_args \<Rightarrow> 'i \<Rightarrow> (int \<times> event list) option" where
  "mruby_run vm a i =
     (let argv = (case ma_argv a of Some xs \<Rightarrow> xs | None \<Rightarrow> []);
          c = \<lparr>rc_filename = script_name a, rc_dump_result = ma_verbose a, rc_no_exec = ma_check_syntax a\<rparr>
      in map_option (\<lambda>(v, i').
          (case vm_exc vm i' of
             Some e \<Rightarrow> (-1, if v = None then [Printed (fst (vm_p vm e i'))] else [Complained (fst (vm_print_error vm i'))])
           | None \<Rightarrow> (0, if ma_check_syntax a then [Printed (''Syntax OK'' @ newline)] else [])))
        (mruby_load vm c a (vm_set_zero vm (script_name a) (vm_define_argv vm (argv_strings (vm_utf8 vm) argv) i))))"

definition prog_mruby :: "('i, 'v) vm_ops \<Rightarrow> (string \<Rightarrow> string \<Rightarrow> bool) \<Rightarrow> string \<Rightarrow> string list \<Rightarrow> (ending \<times> event list) outcome" where
  "prog_mruby vm fopen prog xs = (case vm_open vm of
      None \<Rightarrow> Ok (Exited 1, [Complained (''Invalid mrb_state, exiting mruby'' @ newline)])
    | Some i \<Rightarrow> (case mruby_parse_args fopen prog xs of
          (Returned n, a, ev) \<Rightarrow>
            if n = 1 \<or> ma_cmdline a = No_cmdline \<and> ma_rfp a = None
            then obind (mruby_cleanup a) (\<lambda>cl. Ok (Exited n, ev @ cl @ mruby_usage prog))
            else (case mruby_run vm a i of
                None \<Rightarrow> Ok (Aborted, ev)
              | Some (m, out) \<Rightarrow> obind (mruby_cleanup a) (\<lambda>cl.
                  Ok (Exited (if (if m = -1 then m else n) = 0 then 0 else 1), ev @ out @ cl)))
        | (_, a, ev) \<Rightarrow> Ok (Exited 0, ev)))"

subsection \<open>Reading the switches\<close>

lemma switches_induct [case_names Nil Word Step]:
  assumes "P []" and "\<And>x xs. take 1 x \<noteq> ''-'' \<Longrightarrow> P (x # xs)"
    and "\<And>x xs. P xs \<Longrightarrow> (\<And>y ys. xs = y # ys \<Longrightarrow> P ys) \<Longrightarrow> P (x # xs)"
  shows "P xs"
proof -
  have "P xs \<and> (\<forall>y ys. xs = y # ys \<longrightarrow> P ys)"
    by (induction xs) (auto intro: assms)
  then show ?thesis by blast
qed

text \<open>What holds of the arguments while switches are read: the program text is owned, and accounted for.\<close>

definition switches_ok :: "mruby_args \<times> event list \<Rightarrow> bool" where
  "switches_ok = (\<lambda>(a, ev). \<not> ma_fname a \<and> ma_argv a = None \<and> ma_rfp a \<in> {None, Some Stdin} \<and>
     (case ma_cmdline a of No_cmdline \<Rightarrow> count_list ev Allocated = 0 | Heap t \<Rightarrow> count_list ev Allocated = 1 | Argument t \<Rightarrow> False) \<and>
     count_list ev Freed = 0 \<and> (\<forall>f. count_list ev (Opened f) = 0 \<and> count_list ev (Closed f) = 0))"

lemma append_cmdline_ok: "switches_ok (a, ev) \<Longrightarrow> switches_ok (append_cmdline item (a, ev))"
  by (cases "ma_cmdline a") (simp_all add: switches_ok_def)

lemma mruby_switches_ok: "switches_ok (a, ev) \<Longrightarrow> switches_ok (snd (mruby_switches prog xs (a, ev)))"
proof (induction xs arbitrary: a ev rule: switches_induct)
  case (Step x xs)
  have go: "switches_ok (snd (mruby_switches prog xs (b, ev')))" if "switches_ok (b, ev')" for b ev'
    by (rule Step.IH(1)) (rule that)
  have app: "switches_ok (snd (mruby_switches prog xs (append_cmdline item (a, ev))))" for item
    using append_cmdline_ok [OF Step.prems, of item] go by (cases "append_cmdline item (a, ev)") simp
  have app2: "switches_ok (snd (mruby_switches prog ys (append_cmdline y (a, ev))))" if "xs = y # ys" for y ys
    using append_cmdline_ok [OF Step.prems, of y] Step.IH(2) [OF that] by (cases "append_cmdline y (a, ev)") simp
  have upd: "switches_ok (a\<lparr>ma_rfp := Some Stdin\<rparr>, ev)" "switches_ok (a\<lparr>ma_mrbfile := True\<rparr>, ev)"
    "switches_ok (a\<lparr>ma_check_syntax := True\<rparr>, ev)" "switches_ok (a\<lparr>ma_verbose := True\<rparr>, ev)"
    "switches_ok (a, ev @ [Printed t])" "switches_ok (a, ev @ [Showed_version])" "switches_ok (a, ev @ [Showed_copyright])"
    "switches_ok (a\<lparr>ma_verbose := True\<rparr>, ev @ show_version_once b)" for t b
    using Step.prems by (auto simp: switches_ok_def show_version_once_def split: cmdline.splits)
  have operand: "switches_ok (snd (case xs of
       [] \<Rightarrow> (Returned 0, a, ev @ [Printed t])
     | y # ys \<Rightarrow> mruby_switches prog ys (append_cmdline y (a, ev))))" for t
    by (cases xs) (simp_all only: list.case snd_conv upd app2)
  show ?case
    by (simp only: mruby_switches.simps(2) Let_def if_distrib [of snd] if_distrib [of switches_ok] snd_conv go app operand upd Step.prems if_True
      cong: if_cong) simp
qed auto

subsection \<open>Files and memory\<close>

definition balanced :: "event list \<Rightarrow> bool" where
  "balanced ev \<longleftrightarrow> count_list ev Allocated = count_list ev Freed \<and> (\<forall>f. count_list ev (Opened f) = count_list ev (Closed f))"

lemma usage_counts [simp]:
  "count_list (mruby_usage prog) Allocated = 0" "count_list (mruby_usage prog) Freed = 0"
  "count_list (mruby_usage prog) (Opened f) = 0" "count_list (mruby_usage prog) (Closed f) = 0"
  by (simp_all add: mruby_usage_def)

lemma mruby_run_counts:
  "mruby_run vm a i = Some (m, out) \<Longrightarrow> count_list out Allocated = 0 \<and> count_list out Freed = 0 \<and>
     (\<forall>f. count_list out (Opened f) = 0 \<and> count_list out (Closed f) = 0)"
  by (auto simp: mruby_run_def Let_def split: option.splits if_splits)

text \<open>Whatever the arguments, what they made the program acquire is what the cleanup releases.\<close>

lemma mruby_cleanup_releases:
  assumes "mruby_parse_args fopen prog xs = (Returned n, a, ev)"
  shows "\<exists>cl. mruby_cleanup a = Ok cl \<and> balanced (ev @ cl)"
proof -
  obtain r a1 ev1 where sw: "mruby_switches prog xs (args_zero, []) = (r, a1, ev1)" by (metis prod_cases3)
  have "switches_ok (args_zero, [])" by (simp add: switches_ok_def args_zero_def)
  from mruby_switches_ok [OF this, of prog xs] have ok: "switches_ok (a1, ev1)" by (simp add: sw)
  have early: "\<exists>cl. mruby_cleanup a1 = Ok cl \<and> balanced (ev1 @ cl)" "balanced ev1 \<Longrightarrow> balanced (ev1 @ [Printed t])" for t
    using ok by (auto simp: switches_ok_def mruby_cleanup_def free_cmdline_def balanced_def split: cmdline.splits)
  from assms sw ok show ?thesis
    by (cases r) (auto simp: mruby_parse_args_def set_argv_def switches_ok_def mruby_cleanup_def free_cmdline_def balanced_def
        split: if_splits list.splits cmdline.splits)
qed

text \<open>C23: mruby never frees an entry of \<open>argv\<close>, and when it comes to its end all that it acquired is released: every
  allocation of the arguments is freed once, and the program file is closed.\<close>

theorem mruby_releases:
  assumes "fst (mruby_parse_args fopen prog xs) \<noteq> Process_exit"
  shows "\<exists>e ev. prog_mruby vm fopen prog xs = Ok (e, ev) \<and> (e \<noteq> Aborted \<longrightarrow> balanced ev)"
proof -
  obtain r a ev where parsed: "mruby_parse_args fopen prog xs = (r, a, ev)" by (metis prod_cases3)
  have "r \<noteq> Left_over ys" for ys
    using parsed by (auto simp: mruby_parse_args_def set_argv_def split: prod.splits switches_end.splits if_splits list.splits)
  with assms parsed obtain n where r: "r = Returned n" by (cases r) auto
  with mruby_cleanup_releases parsed obtain cl where cl: "mruby_cleanup a = Ok cl" "balanced (ev @ cl)" by blast
  show ?thesis
    using cl by (auto simp: prog_mruby_def parsed r balanced_def dest: mruby_run_counts split: option.splits)
qed

text \<open>An interpreter that prints the program it is given, and a file system with one program.\<close>

definition demo_vm :: "(string, string) vm_ops" where
  "demo_vm = \<lparr>vm_open = Some [], vm_utf8 = Some, vm_define_argv = (\<lambda>xs i. i), vm_set_zero = (\<lambda>z i. i),
     vm_load_irep = (\<lambda>c f i. (None, ''no irep'')), vm_load_file = (\<lambda>c f i. (Some ''file'', i)),
     vm_load_string = (\<lambda>c t i. (Some t, i)), vm_exc = (\<lambda>i. if i = [] then None else Some i), vm_p = (\<lambda>v i. (v, i)),
     vm_print_error = (\<lambda>i. (i, i))\<rparr>"

definition demo_fopen :: "string \<Rightarrow> string \<Rightarrow> bool" where
  "demo_fopen f mode \<longleftrightarrow> f = ''a.rb''"

lemma demo_vm_open [simp]: "vm_open demo_vm = Some []"
  by (simp add: demo_vm_def)

lemma demo_parse:
  "mruby_parse_args demo_fopen ''mruby'' [''-c'', ''a.rb'', ''x''] =
     (Returned 0, args_zero\<lparr>ma_check_syntax := True, ma_rfp := Some (Program ''a.rb''), ma_fname := True,
        ma_cmdline := Argument ''a.rb'', ma_argv := Some [''x'']\<rparr>, [Opened ''a.rb'', Allocated])"
  by (simp add: mruby_parse_args_def demo_fopen_def args_zero_def set_argv_def Let_def)

theorem mruby_releases_witness:
  "fst (mruby_parse_args demo_fopen ''mruby'' [''-c'', ''a.rb'', ''x'']) \<noteq> Process_exit \<and>
    (\<exists>e ev. prog_mruby demo_vm demo_fopen ''mruby'' [''-c'', ''a.rb'', ''x''] = Ok (e, ev) \<and> (e \<noteq> Aborted \<longrightarrow> balanced ev))"
  using mruby_releases [of demo_fopen "''mruby''" "[''-c'', ''a.rb'', ''x'']" demo_vm] by (simp add: demo_parse)

subsection \<open>Programs on the command line\<close>

text \<open>A line of the program is given as the argument after \<open>-e\<close> or in the same one.\<close>

definition script_args :: "bool \<times> string \<Rightarrow> string list" where
  "script_args = (\<lambda>(attached, t). if attached then [''-e'' @ t] else [''-e'', t])"

definition script_arg_ok :: "bool \<times> string \<Rightarrow> bool" where
  "script_arg_ok = (\<lambda>(attached, t). attached \<longrightarrow> t \<noteq> [])"

lemma switches_script:
  "script_arg_ok l \<Longrightarrow> mruby_switches prog (script_args l @ xs) (a, ev) = mruby_switches prog xs (append_cmdline (snd l) (a, ev))"
  by (cases l) (auto simp: script_args_def script_arg_ok_def Let_def simp del: append_cmdline.simps)

lemma join_merge: "join sep (c # t # ts) = join sep ((c @ sep @ t) # ts)"
  by (cases ts) simp_all

lemma switches_scripts:
  assumes "\<forall>l \<in> set ls. script_arg_ok l" and "ma_cmdline a = Heap c"
  shows "mruby_switches prog (concat (map script_args ls) @ xs) (a, ev) =
     mruby_switches prog xs (a\<lparr>ma_cmdline := Heap (join newline (c # map snd ls))\<rparr>, ev)"
  using assms
proof (induction ls arbitrary: a c)
  case (Cons l ls)
  have "append_cmdline (snd l) (a, ev) = (a\<lparr>ma_cmdline := Heap (c @ newline @ snd l)\<rparr>, ev)"
    using Cons.prems(2) by simp
  moreover note Cons.IH [of "a\<lparr>ma_cmdline := Heap (c @ newline @ snd l)\<rparr>" "c @ newline @ snd l"]
  ultimately show ?case
    using Cons.prems(1) by (simp add: switches_script join_merge del: mruby_switches.simps append_cmdline.simps join.simps)
next
  case Nil
  then have "a\<lparr>ma_cmdline := Heap c\<rparr> = a" by (cases a) simp
  then show ?case by simp
qed

lemma switches_stop: "xs = [] \<or> take 1 (hd xs) \<noteq> ''-'' \<Longrightarrow> mruby_switches prog xs (a, ev) = (Left_over xs, a, ev)"
  by (cases xs) simp_all

text \<open>The texts given with \<open>-e\<close>, each attached to the switch or after it, are the lines of one program, in order; what
  follows them are the arguments of that program, and no file is opened.\<close>

theorem mruby_scripts_joined:
  assumes "\<forall>l \<in> set ls. script_arg_ok l" and "ls \<noteq> []" and "xs = [] \<or> take 1 (hd xs) \<noteq> ''-''"
  shows "mruby_parse_args fopen prog (concat (map script_args ls) @ xs) =
     (Returned 0, args_zero\<lparr>ma_cmdline := Heap (join newline (map snd ls)), ma_argv := Some xs\<rparr>, [Allocated, Allocated])"
proof -
  from assms(2) obtain l ls' where ls: "ls = l # ls'" by (cases ls) auto
  with assms show ?thesis
    by (simp add: mruby_parse_args_def switches_script switches_scripts switches_stop args_zero_def set_argv_def
        del: mruby_switches.simps)
qed

theorem mruby_scripts_joined_witness:
  "mruby_parse_args demo_fopen ''mruby'' [''-e'', ''a = 1'', ''-ep a'', ''x''] =
     (Returned 0, args_zero\<lparr>ma_cmdline := Heap (''a = 1'' @ newline @ ''p a''), ma_argv := Some [''x'']\<rparr>, [Allocated, Allocated])"
  using mruby_scripts_joined [of "[(False, ''a = 1''), (True, ''p a'')]" "[''x'']" demo_fopen "''mruby''"]
  by (simp add: script_args_def script_arg_ok_def)

text \<open>A last \<open>-e\<close> without a text is reported, and the usage is printed, but the exit code is that of success.\<close>

lemma mruby_no_code:
  "vm_open vm = Some i \<Longrightarrow> prog_mruby vm fopen prog [''-e''] =
     Ok (Exited 0, Printed (prog @ '': No code specified for -e'' @ newline) # mruby_usage prog)"
  by (simp add: prog_mruby_def mruby_parse_args_def args_zero_def mruby_cleanup_def free_cmdline_def Let_def)

text \<open>After \<open>-e\<close>, a dash makes the program read standard input; the text of \<open>-e\<close> is only the name of the script.\<close>

lemma mruby_dash_wins:
  "mruby_parse_args fopen prog [''-e'', t, ''-''] =
     (Returned 0, args_zero\<lparr>ma_cmdline := Heap t, ma_rfp := Some Stdin, ma_argv := Some []\<rparr>, [Allocated, Allocated])"
  "ma_rfp a = Some Stdin \<Longrightarrow> \<not> ma_mrbfile a \<Longrightarrow> mruby_load vm c a i = Some (vm_load_file vm c Stdin i)"
  "ma_rfp a = Some Stdin \<Longrightarrow> ma_cmdline a = Heap t \<Longrightarrow> script_name a = t"
  by (simp_all add: mruby_parse_args_def args_zero_def set_argv_def mruby_load_def script_name_def Let_def)

text \<open>With \<open>-b\<close> and \<open>-e\<close> the loader of compiled programs gets a null file.\<close>

lemma mruby_irep_without_file:
  "ma_rfp a = None \<Longrightarrow> ma_mrbfile a \<Longrightarrow> mruby_load vm c a i = Some (vm_load_irep vm c None i)"
  by (simp add: mruby_load_def)

subsection \<open>Exit codes\<close>

lemma parse_codes: "mruby_parse_args fopen prog xs = (Returned n, a, ev) \<Longrightarrow> n = 0 \<or> n = 1"
proof -
  have "fst (mruby_switches prog xs st) = Returned n \<Longrightarrow> n = 0 \<or> n = 1" for st
  proof (induction xs arbitrary: st rule: switches_induct)
    case (Step x xs)
    then show ?case
      by (cases st) (auto simp del: append_cmdline.simps simp: Let_def split: if_splits list.splits)
  qed (auto split: prod.splits)
  from this [of "(args_zero, [])"] show "mruby_parse_args fopen prog xs = (Returned n, a, ev) \<Longrightarrow> n = 0 \<or> n = 1"
    by (cases "mruby_switches prog xs (args_zero, [])")
      (auto simp: mruby_parse_args_def set_argv_def split: switches_end.splits if_splits list.splits)
qed

lemma mruby_exit_codes: "prog_mruby vm fopen prog xs = Ok (Exited n, ev) \<Longrightarrow> n = 0 \<or> n = 1"
  by (auto simp: prog_mruby_def obind_Ok_iff dest: parse_codes split: option.splits prod.splits switches_end.splits if_splits)

end
