(* ===== verification/Mirb.thy ===== *)
theory Mirb
  imports Mruby
begin

section \<open>The interactive Ruby shell\<close>

text \<open>
  \<open>exe/mirb.c\<close> with the readline library, as \<open>exe/CMakeLists.txt\<close> builds it. The shell reads lines from the console or
  from a program file, collects the lines of a block in a buffer of fixed size until the parser is satisfied,
  runs them and prints the value. The state of the loop is a record; the two buffers are C strings whose room is checked
  at every write, so that running over the end of a buffer would be an outcome of its own.
  The interpreter is a parameter, as in \<open>Mruby\<close>. What the user does at the console is a list: lines and interrupts, and
  the end of input where the list ends. Line numbers are natural numbers; the interpreter's own type for
  them is not part of this repository.
\<close>

subsection \<open>The parser's verdict\<close>

datatype lex_state = EXPR_BEG | EXPR_END | EXPR_ENDARG | EXPR_ENDFN | EXPR_ARG | EXPR_CMDARG | EXPR_MID | EXPR_FNAME |
  EXPR_DOT | EXPR_CLASS | EXPR_VALUE | EXPR_MAX_STATE

record parser_state =
  pa_parsing_heredoc :: bool
  pa_heredoc_end_now :: bool
  pa_lex_strterm :: bool
  pa_nerr :: nat
  pa_error_line :: int
  pa_error_message :: string
  pa_lstate :: lex_state

definition unexpected_end :: string where
  "unexpected_end = ''syntax error, unexpected $end''"

definition state_open :: "lex_state \<Rightarrow> bool" where
  "state_open st = (case st of
      EXPR_BEG \<Rightarrow> False
    | EXPR_DOT \<Rightarrow> True
    | EXPR_CLASS \<Rightarrow> True
    | EXPR_FNAME \<Rightarrow> True
    | EXPR_VALUE \<Rightarrow> True
    | EXPR_ARG \<Rightarrow> False
    | _ \<Rightarrow> False)"

definition is_code_block_open :: "parser_state \<Rightarrow> bool \<times> parser_state" where
  "is_code_block_open pa =
     (if pa_parsing_heredoc pa then (True, pa)
      else if pa_heredoc_end_now pa then (False, pa\<lparr>pa_heredoc_end_now := False\<rparr>)
      else if pa_lex_strterm pa then (True, pa)
      else if 0 < pa_nerr pa then
        (if take (length unexpected_end) (pa_error_message pa) = unexpected_end then (True, pa)
         else if pa_error_message pa = ''syntax error, unexpected keyword_end'' then (False, pa)
         else if pa_error_message pa = ''syntax error, unexpected tREGEXP_BEG'' then (False, pa)
         else (False, pa))
      else (state_open (pa_lstate pa), pa))"

text \<open>A line that holds only the keyword, and space around it.\<close>

definition check_keyword :: "string \<Rightarrow> string \<Rightarrow> bool" where
  "check_keyword buf word =
     (let p = dropWhile is_space buf
      in take (length word) p = word \<and> dropWhile is_space (drop (length word) p) = [])"

subsection \<open>The interpreter\<close>

record ('i, 'v, 't, 'c) irb_ops = "('i, 'v) vm_ops" +
  ir_parse :: "rb_context \<Rightarrow> string \<Rightarrow> nat \<Rightarrow> 'i \<Rightarrow> (parser_state \<times> 't) option \<times> 'i"
  ir_generate :: "'t \<Rightarrow> 'i \<Rightarrow> 'c option \<times> 'i"
  ir_nlocals :: "'c \<Rightarrow> nat"
  ir_env_len :: "'i \<Rightarrow> nat option"
  ir_set_env_len :: "nat \<Rightarrow> 'i \<Rightarrow> 'i"
  ir_run :: "'c \<Rightarrow> nat \<Rightarrow> 'i \<Rightarrow> 'v \<times> 'i"
  ir_clear_exc :: "'i \<Rightarrow> 'i"
  ir_responds :: "'v \<Rightarrow> 'i \<Rightarrow> bool"
  ir_any_to_s :: "'v \<Rightarrow> 'i \<Rightarrow> 'v \<times> 'i"
  ir_inspect :: "'v \<Rightarrow> 'i \<Rightarrow> 'v \<times> 'i"
  ir_string :: "'v \<Rightarrow> 'i \<Rightarrow> string option"
  ir_as_string :: "'v \<Rightarrow> 'i \<Rightarrow> string \<times> 'i"

text \<open>\<open>p\<close>: the text it prints for a value.\<close>

definition mirb_p :: "('i, 'v, 't, 'c) irb_ops \<Rightarrow> 'v \<Rightarrow> bool \<Rightarrow> 'i \<Rightarrow> string \<times> 'i" where
  "mirb_p ir obj prompt i =
     (let (v, i1) = ir_inspect ir obj i;
          (arrow, v, i2) = (if prompt
            then (case vm_exc ir i1 of None \<Rightarrow> ('' => '', v, i1) | Some e \<Rightarrow> ([], ir_inspect ir e i1))
            else ([], v, i1));
          (t, i3) = (case ir_string ir v i2 of Some t \<Rightarrow> (t, i2) | None \<Rightarrow> ir_as_string ir obj i2)
      in (arrow @ t @ newline, i3))"

subsection \<open>Switches and the history file\<close>

record mirb_args =
  mi_rfp :: "string option"
  mi_verbose :: bool
  mi_argv :: "string list option"

definition mirb_args_zero :: mirb_args where
  "mirb_args_zero = \<lparr>mi_rfp = None, mi_verbose = False, mi_argv = None\<rparr>"

definition mirb_usage :: "string \<Rightarrow> event list" where
  "mirb_usage name = map Printed ((''Usage: '' @ name @ '' [switches]'' @ newline) # map (\<lambda>l. ''  '' @ l @ newline)
     [''switches:'',
      ''-v           print version number, then run in verbose mode'',
      ''--verbose    run in verbose mode'',
      ''--version    print the version'',
      ''--copyright  print the copyright''])"

fun mirb_switches :: "string list \<Rightarrow> mirb_args \<times> event list \<Rightarrow> switches_end \<times> mirb_args \<times> event list" where
  "mirb_switches [] (a, ev) = (Left_over [], a, ev)"
| "mirb_switches (x # xs) (a, ev) =
     (if take 1 x \<noteq> ''-'' then (Left_over (x # xs), a, ev)
      else if take 1 (drop 1 x) = ''v'' then mirb_switches xs (a\<lparr>mi_verbose := True\<rparr>, ev @ show_version_once (mi_verbose a))
      else if take 1 (drop 1 x) = ''-'' \<and> drop 2 x = ''version'' then (Process_exit, a, ev @ [Showed_version])
      else if take 1 (drop 1 x) = ''-'' \<and> drop 2 x = ''verbose'' then mirb_switches xs (a\<lparr>mi_verbose := True\<rparr>, ev)
      else if take 1 (drop 1 x) = ''-'' \<and> drop 2 x = ''copyright'' then (Process_exit, a, ev @ [Showed_copyright])
      else (Returned 1, a, ev))"

definition mirb_parse_args :: "(string \<Rightarrow> string option) \<Rightarrow> string list \<Rightarrow> switches_end \<times> mirb_args \<times> event list" where
  "mirb_parse_args fopen xs = (case mirb_switches xs (mirb_args_zero, []) of
      (Left_over [], a, ev) \<Rightarrow> (Returned 0, a\<lparr>mi_argv := Some []\<rparr>, ev @ [Allocated])
    | (Left_over (f # rest), a, ev) \<Rightarrow>
        if fopen f = None
        then (Returned 1, a, ev @ [Printed (''Cannot open program file. ('' @ f @ '')'' @ newline)])
        else (Returned 0, a\<lparr>mi_rfp := Some f, mi_argv := Some rest\<rparr>, ev @ [Opened f, Allocated])
    | early \<Rightarrow> early)"

definition mirb_cleanup :: "mirb_args \<Rightarrow> event list" where
  "mirb_cleanup a = (case mi_rfp a of Some f \<Rightarrow> [Closed f] | None \<Rightarrow> []) @ (if mi_argv a = None then [] else [Freed])"

text \<open>The path of the history, without one when there is no home directory or no memory.\<close>

definition get_history_path :: "string option \<Rightarrow> bool \<Rightarrow> string option" where
  "get_history_path home memory = (case home of
      None \<Rightarrow> None
    | Some h \<Rightarrow> if memory then Some (h @ ''/'' @ ''.mirb_history'') else None)"

subsection \<open>The state of the loop\<close>

text \<open>\<open>Parse\<close> records a call of the parser: the text, its line number and whether more lines are wanted.\<close>

datatype mirb_event = Io event | Prompt string | Dumped | Parse string nat bool

record 'i mirb =
  mb_ruby_code :: string
  mb_last_line :: string
  mb_open :: bool
  mb_lineno :: nat
  mb_stack_keep :: nat
  mb_history :: "string list"
  mb_events :: "mirb_event list"
  mb_vm :: 'i

definition code_size :: nat where
  "code_size = 4096"

definition line_size :: nat where
  "line_size = 1024"

definition emit :: "mirb_event list \<Rightarrow> 'i mirb \<Rightarrow> 'i mirb" where
  "emit ev s = s\<lparr>mb_events := mb_events s @ ev\<rparr>"

definition complain :: "string \<Rightarrow> 'i mirb \<Rightarrow> 'i mirb" where
  "complain t = emit [Io (Complained (t @ newline))]"

definition print_line :: "string \<Rightarrow> 'i mirb \<Rightarrow> 'i mirb" where
  "print_line t = emit [Io (Printed (t @ newline))]"

text \<open>Writing a C string, with its zero byte, to the start of a buffer.\<close>

definition room :: "nat \<Rightarrow> string \<Rightarrow> ('i mirb, unit) prog" where
  "room cap t = (if length t < cap then ret () else throw (Undefined ''write past the end of a buffer''))"

definition set_line :: "string \<Rightarrow> ('i mirb, unit) prog" where
  "set_line t = bnd (room line_size t) (\<lambda>_. modify (\<lambda>s. s\<lparr>mb_last_line := t\<rparr>))"

definition set_code :: "string \<Rightarrow> ('i mirb, unit) prog" where
  "set_code t = bnd (room code_size t) (\<lambda>_. modify (\<lambda>s. s\<lparr>mb_ruby_code := t\<rparr>))"

definition reset_buffers :: "'i mirb \<Rightarrow> 'i mirb" where
  "reset_buffers s = s\<lparr>mb_ruby_code := [], mb_last_line := []\<rparr>"

definition next_line :: "'i mirb \<Rightarrow> 'i mirb" where
  "next_line s = s\<lparr>mb_lineno := mb_lineno s + 1\<rparr>"

subsection \<open>Running a complete block\<close>

datatype step_end = Next_round | Leave | Abort_now

text \<open>The stack of the top level is made to fit before the code runs.\<close>

definition fit_stack :: "('i, 'v, 't, 'c) irb_ops \<Rightarrow> 'c \<Rightarrow> 'i \<Rightarrow> 'i" where
  "fit_stack ir c i = (case ir_env_len ir i of
      Some n \<Rightarrow> if n < ir_nlocals ir c then ir_set_env_len ir (ir_nlocals ir c) i else i
    | None \<Rightarrow> i)"

definition show_result :: "('i, 'v, 't, 'c) irb_ops \<Rightarrow> 'v \<Rightarrow> 'i \<Rightarrow> string \<times> 'i" where
  "show_result ir v i = (case vm_exc ir i of
      Some e \<Rightarrow> (case mirb_p ir e False i of (t, i') \<Rightarrow> (t, ir_clear_exc ir i'))
    | None \<Rightarrow> if ir_responds ir v i then mirb_p ir v True i
             else (case ir_any_to_s ir v i of (v', i') \<Rightarrow> mirb_p ir v' True i'))"

definition run_block :: "('i, 'v, 't, 'c) irb_ops \<Rightarrow> bool \<Rightarrow> 't \<Rightarrow> 'i mirb \<Rightarrow> step_end \<times> 'i mirb" where
  "run_block ir verbose tree s = (case ir_generate ir tree (mb_vm s) of
      (None, i) \<Rightarrow> (Leave, complain ''codegen error'' (s\<lparr>mb_vm := i\<rparr>))
    | (Some c, i) \<Rightarrow>
        (let s1 = (if verbose then emit [Dumped] s else s);
             (v, i1) = ir_run ir c (mb_stack_keep s1) (fit_stack ir c i);
             (t, i2) = show_result ir v i1
         in (Next_round, next_line (reset_buffers (emit [Io (Printed t)] (s1\<lparr>mb_stack_keep := ir_nlocals ir c, mb_vm := i2\<rparr>))))))"

definition mirb_context :: "bool \<Rightarrow> rb_context" where
  "mirb_context verbose = \<lparr>rc_filename = ''(mirb)'', rc_dump_result = verbose, rc_no_exec = False\<rparr>"

text \<open>What happens with the text in the code buffer.\<close>

definition run_code :: "('i, 'v, 't, 'c) irb_ops \<Rightarrow> bool \<Rightarrow> ('i mirb, step_end) prog" where
  "run_code ir verbose s = (case vm_utf8 ir (mb_ruby_code s) of
      None \<Rightarrow> (Ok Abort_now, s)
    | Some t \<Rightarrow> (case ir_parse ir (mirb_context verbose) t (mb_lineno s) (mb_vm s) of
          (None, i) \<Rightarrow> (Ok Leave, complain ''create parser state error'' (s\<lparr>mb_vm := i\<rparr>))
        | (Some (pa, tree), i) \<Rightarrow>
            (let (continues, pa) = is_code_block_open pa;
                 s1 = emit [Parse t (mb_lineno s) continues] (s\<lparr>mb_open := continues, mb_vm := i\<rparr>)
             in if continues then (Ok Next_round, next_line s1)
                else if 0 < pa_nerr pa
                then (Ok Next_round, next_line (reset_buffers
                       (print_line (''line '' @ show_int (pa_error_line pa) @ '': '' @ pa_error_message pa) s1)))
                else (case run_block ir verbose tree s1 of (r, s2) \<Rightarrow> (Ok r, s2)))))"

subsection \<open>One round of the loop\<close>

text \<open>From the label \<open>done\<close> on: the line joins the open block, leaves the shell, or starts a new block.\<close>

definition take_line :: "('i, 'v, 't, 'c) irb_ops \<Rightarrow> bool \<Rightarrow> ('i mirb, step_end) prog" where
  "take_line ir verbose s =
     (if mb_open s then
        (if length (mb_ruby_code s) + length (mb_last_line s) > code_size - 1
         then (Ok Next_round, complain ''concatenated input string too long'' s)
         else bnd (set_code (mb_ruby_code s @ mb_last_line s)) (\<lambda>_. run_code ir verbose) s)
      else if check_keyword (mb_last_line s) ''quit'' \<or> check_keyword (mb_last_line s) ''exit'' then (Ok Leave, s)
      else bnd (set_code (mb_last_line s)) (\<lambda>_. run_code ir verbose) s)"

text \<open>\<open>fgets\<close>: up to the end of the line, but at most one byte less than asked for.\<close>

fun fgets_take :: "nat \<Rightarrow> string \<Rightarrow> string \<times> string" where
  "fgets_take 0 t = ([], t)"
| "fgets_take (Suc n) [] = ([], [])"
| "fgets_take (Suc n) (c # t) = (if c = CHR 10 then ([c], t) else let (l, r) = fgets_take n t in (c # l, r))"

definition fgets :: "nat \<Rightarrow> string \<Rightarrow> (string \<times> string) option" where
  "fgets n t = (if t = [] then None else Some (fgets_take (n - 1) t))"

datatype console = Typed string | Ctrl_C

datatype input = From_file string | From_console "console list"

text \<open>An interrupt at the prompt drops the block and prompts again.\<close>

definition prompt_of :: "'i mirb \<Rightarrow> string" where
  "prompt_of s = (if mb_open s then ''* '' else ''> '')"

definition interrupted :: "'i mirb \<Rightarrow> 'i mirb" where
  "interrupted s = print_line ''^C'' ((reset_buffers s)\<lparr>mb_open := False\<rparr>)"

fun read_console :: "console list \<Rightarrow> 'i mirb \<Rightarrow> (string \<times> console list) option \<times> 'i mirb" where
  "read_console [] s = (None, emit [Prompt (prompt_of s)] s)"
| "read_console (Typed l # cs) s = (Some (c_str l, cs), emit [Prompt (prompt_of s)] s)"
| "read_console (Ctrl_C # cs) s = read_console cs (interrupted (emit [Prompt (prompt_of s)] s))"

text \<open>A round: the input that is left, and how it ended.\<close>

definition mirb_round :: "('i, 'v, 't, 'c) irb_ops \<Rightarrow> bool \<Rightarrow> input \<Rightarrow> ('i mirb, step_end \<times> input) prog" where
  "mirb_round ir verbose inp s = (case inp of
      From_file t \<Rightarrow> (case fgets (line_size - 1) t of
          None \<Rightarrow> (Ok (Leave, inp), s)
        | Some (l, rest) \<Rightarrow>
            bnd (set_line (c_str l)) (\<lambda>_. bnd (take_line ir verbose) (\<lambda>r. ret (r, From_file rest))) s)
    | From_console cs \<Rightarrow> (case read_console cs s of
          (None, s1) \<Rightarrow> (Ok (Leave, From_console []), print_line [] s1)
        | (Some (l, rest), s1) \<Rightarrow>
            if length l > line_size - 2 then (Ok (Next_round, From_console rest), complain ''input string too long'' s1)
            else bnd (set_line (l @ newline)) (\<lambda>_. bnd (modify (\<lambda>s. s\<lparr>mb_history := mb_history s @ [l]\<rparr>)) (\<lambda>_.
                 bnd (take_line ir verbose) (\<lambda>r. ret (r, From_console rest)))) s1))"

fun input_size :: "input \<Rightarrow> nat" where
  "input_size (From_file t) = length t"
| "input_size (From_console cs) = length cs"

subsection \<open>Every round uses up input\<close>

lemma fgets_take_split: "fgets_take n t = (l, r) \<Longrightarrow> t = l @ r \<and> length l \<le> n"
  by (induction n t arbitrary: l r rule: fgets_take.induct) (auto split: if_splits prod.splits)

lemma fgets_SomeD: "fgets n t = Some (l, r) \<Longrightarrow> t = l @ r \<and> length l \<le> n - 1 \<and> (2 \<le> n \<longrightarrow> l \<noteq> [])"
  by (cases "n - 1"; cases t) (auto simp: fgets_def split: if_splits prod.splits dest: fgets_take_split)

lemma read_console_shorter: "read_console cs s = (Some (l, rest), s') \<Longrightarrow> length rest < length cs"
  by (induction cs s rule: read_console.induct) auto

lemma bnd_result: "bnd m (\<lambda>r. ret (r, x)) s = (Ok (r, y), s') \<Longrightarrow> y = x"
  by (auto simp: bnd_def ret_def split: prod.splits outcome.splits)

lemma mirb_round_shorter:
  assumes "mirb_round ir verbose inp s = (Ok (Next_round, inp'), s')"
  shows "input_size inp' < input_size inp"
proof (cases inp)
  case (From_file t)
  with assms obtain l rest where "fgets (line_size - 1) t = Some (l, rest)" "inp' = From_file rest"
    by (auto simp: mirb_round_def bnd_def ret_def split: option.splits prod.splits outcome.splits)
  with From_file show ?thesis by (auto simp: line_size_def dest!: fgets_SomeD)
next
  case (From_console cs)
  with assms obtain l rest s1 where "read_console cs s = (Some (l, rest), s1)" "inp' = From_console rest"
    by (auto simp: mirb_round_def bnd_def ret_def split: option.splits prod.splits outcome.splits if_splits)
  with From_console show ?thesis by (auto dest: read_console_shorter)
qed

subsection \<open>The loop and the program\<close>

function mirb_loop :: "('i, 'v, 't, 'c) irb_ops \<Rightarrow> bool \<Rightarrow> input \<Rightarrow> ('i mirb, ending) prog" where
  "mirb_loop ir verbose inp s = (case mirb_round ir verbose inp s of
      (Ok (Next_round, inp'), s') \<Rightarrow> mirb_loop ir verbose inp' s'
    | (Ok (Leave, inp'), s') \<Rightarrow> (Ok (Exited 0), s')
    | (Ok (Abort_now, inp'), s') \<Rightarrow> (Ok Aborted, s')
    | (Err e, s') \<Rightarrow> (Err e, s')
    | (Exn x, s') \<Rightarrow> (Exn x, s'))"
  by pat_completeness auto
termination
  by (relation "measure (\<lambda>(ir, verbose, inp, s). input_size inp)") (auto dest: mirb_round_shorter [OF sym])

declare mirb_loop.simps [simp del]

definition mirb_hint :: string where
  "mirb_hint = ''mirb - Embeddable Interactive Ruby Shell'' @ newline @ newline"

definition mirb_start :: "string list \<Rightarrow> event list \<Rightarrow> 'i \<Rightarrow> 'i mirb" where
  "mirb_start history ev i = \<lparr>mb_ruby_code = [], mb_last_line = [], mb_open = False, mb_lineno = 1, mb_stack_keep = 0,
     mb_history = history, mb_events = map Io ev, mb_vm = i\<rparr>"

text \<open>The program: how it ends, the history it writes and to which file, and what it did. \<open>fopen\<close> gives the contents
  of a file.\<close>

definition prog_mirb :: "('i, 'v, 't, 'c) irb_ops \<Rightarrow> (string \<Rightarrow> string option) \<Rightarrow> string option \<Rightarrow> bool \<Rightarrow> (string \<Rightarrow> string list) \<Rightarrow>
    console list \<Rightarrow> string \<Rightarrow> string list \<Rightarrow> (ending \<times> (string \<times> string list) option \<times> mirb_event list) outcome" where
  "prog_mirb ir fopen home memory read_history cs prog xs = (case vm_open ir of
      None \<Rightarrow> Ok (Exited 1, None, [Io (Complained (''Invalid mrb interpreter, exiting mirb'' @ newline))])
    | Some i \<Rightarrow> (case mirb_parse_args fopen xs of
          (Returned n, a, ev) \<Rightarrow>
            if n = 1 then Ok (Exited n, None, map Io (ev @ mirb_cleanup a @ mirb_usage prog))
            else (let i1 = vm_define_argv ir (argv_strings (vm_utf8 ir) (case mi_argv a of Some ys \<Rightarrow> ys | None \<Rightarrow> [])) i
                  in case get_history_path home memory of
                    None \<Rightarrow> Ok (Exited 1, None, map Io (ev @ [Complained (''failed to get history path'' @ newline)]))
                  | Some path \<Rightarrow>
                      (let inp = (case mi_rfp a of Some f \<Rightarrow> From_file (case fopen f of Some t \<Rightarrow> t | None \<Rightarrow> []) | None \<Rightarrow> From_console cs)
                       in case mirb_loop ir (mi_verbose a) inp (mirb_start (read_history path) (ev @ [Printed mirb_hint]) i1) of
                         (Ok Aborted, s) \<Rightarrow> Ok (Aborted, None, mb_events s)
                       | (Ok e, s) \<Rightarrow> Ok (e, Some (path, mb_history s), mb_events s)
                       | (Err e, s) \<Rightarrow> Err e
                       | (Exn x, s) \<Rightarrow> Exn x))
        | (_, a, ev) \<Rightarrow> Ok (Exited 0, None, map Io ev)))"

subsection \<open>The number of rounds\<close>

text \<open>What is left after a number of rounds that did not leave the loop.\<close>

fun mirb_rounds :: "('i, 'v, 't, 'c) irb_ops \<Rightarrow> bool \<Rightarrow> nat \<Rightarrow> input \<times> 'i mirb \<Rightarrow> (input \<times> 'i mirb) option" where
  "mirb_rounds ir verbose 0 (inp, s) = Some (inp, s)"
| "mirb_rounds ir verbose (Suc n) (inp, s) = (case mirb_round ir verbose inp s of
      (Ok (Next_round, inp'), s') \<Rightarrow> mirb_rounds ir verbose n (inp', s')
    | _ \<Rightarrow> None)"

text \<open>C22: the loop of the shell ends, whatever the interpreter does with the code: every round that goes on uses up a byte of the
  program file or an action at the console, so there are no more rounds than input.\<close>

theorem mirb_rounds_bounded:
  assumes "mirb_rounds ir verbose n (inp, s) = Some (inp', s')"
  shows "n + input_size inp' \<le> input_size inp"
  using assms
proof (induction n arbitrary: inp s)
  case (Suc n)
  then obtain inp1 s1 where "mirb_round ir verbose inp s = (Ok (Next_round, inp1), s1)"
    and "mirb_rounds ir verbose n (inp1, s1) = Some (inp', s')"
    by (auto split: prod.splits outcome.splits step_end.splits)
  with Suc.IH mirb_round_shorter show ?case by fastforce
qed simp

subsection \<open>The buffers\<close>

definition buffers_ok :: "'i mirb \<Rightarrow> bool" where
  "buffers_ok s \<longleftrightarrow> length (mb_last_line s) < line_size \<and> length (mb_ruby_code s) < code_size"

named_theorems mirb_fields "how the small steps of the shell change its state"

lemma emit_fields [mirb_fields]:
  "mb_last_line (emit ev s) = mb_last_line s" "mb_ruby_code (emit ev s) = mb_ruby_code s" "mb_open (emit ev s) = mb_open s"
  "mb_events (emit ev s) = mb_events s @ ev"
  "mb_last_line (next_line s) = mb_last_line s" "mb_ruby_code (next_line s) = mb_ruby_code s" "mb_open (next_line s) = mb_open s"
  "mb_events (next_line s) = mb_events s"
  "mb_last_line (reset_buffers s) = []" "mb_ruby_code (reset_buffers s) = []" "mb_open (reset_buffers s) = mb_open s"
  "mb_events (reset_buffers s) = mb_events s"
  by (simp_all add: emit_def next_line_def reset_buffers_def)

lemmas mirb_small = complain_def print_line_def interrupted_def set_line_def set_code_def room_def bnd_modify

definition keeps_buffers :: "('i mirb, 'a) prog \<Rightarrow> bool" where
  "keeps_buffers m \<longleftrightarrow> (\<forall>s. buffers_ok s \<longrightarrow> (\<exists>r s'. m s = (Ok r, s') \<and> buffers_ok s'))"

lemma keeps_buffersD: "keeps_buffers m \<Longrightarrow> buffers_ok s \<Longrightarrow> \<exists>r s'. m s = (Ok r, s') \<and> buffers_ok s'"
  by (simp add: keeps_buffers_def)

lemma run_code_keeps: "keeps_buffers (run_code ir verbose)"
  by (auto simp: keeps_buffers_def run_code_def run_block_def buffers_ok_def mirb_fields mirb_small Let_def line_size_def code_size_def
      split: option.split prod.split)

lemma set_code_then:
  "length t < code_size \<Longrightarrow> bnd (set_code t) (\<lambda>_. m) s = m (s\<lparr>mb_ruby_code := t\<rparr>)"
  by (simp add: mirb_small bnd_assoc)

lemma set_line_then:
  "length t < line_size \<Longrightarrow> bnd (set_line t) (\<lambda>_. m) s = m (s\<lparr>mb_last_line := t\<rparr>)"
  by (simp add: mirb_small bnd_assoc)

lemma take_line_keeps: "keeps_buffers (take_line ir verbose)"
  unfolding keeps_buffers_def
proof (intro allI impI)
  fix s :: "'a mirb" assume ok: "buffers_ok s"
  have "\<exists>r s'. bnd (set_code t) (\<lambda>_. run_code ir verbose) s = (Ok r, s') \<and> buffers_ok s'" if "length t < code_size" for t
    using that ok by (simp add: set_code_then) (rule keeps_buffersD [OF run_code_keeps], simp add: buffers_ok_def)
  moreover have "length (mb_last_line s) < code_size" using ok by (simp add: buffers_ok_def line_size_def code_size_def)
  moreover have "buffers_ok (complain t s)" for t using ok by (simp add: buffers_ok_def mirb_fields mirb_small)
  ultimately show "\<exists>r s'. take_line ir verbose s = (Ok r, s') \<and> buffers_ok s'"
    using ok by (auto simp: take_line_def code_size_def)
qed

lemma read_console_keeps: "read_console cs s = (r, s') \<Longrightarrow> buffers_ok s \<Longrightarrow> buffers_ok s'"
  by (induction cs s rule: read_console.induct) (auto simp: buffers_ok_def mirb_fields mirb_small line_size_def code_size_def)

lemma mirb_round_keeps: "keeps_buffers (mirb_round ir verbose inp)"
  unfolding keeps_buffers_def
proof (intro allI impI)
  fix s :: "'a mirb" assume ok: "buffers_ok s"
  have taken: "\<exists>r s'. bnd (take_line ir verbose) (\<lambda>r. ret (r, rest)) s1 = (Ok r, s') \<and> buffers_ok s'" if "buffers_ok s1" for s1 rest
    using keeps_buffersD [OF take_line_keeps that, of ir verbose] by (auto simp: bnd_def ret_def)
  show "\<exists>r s'. mirb_round ir verbose inp s = (Ok r, s') \<and> buffers_ok s'"
  proof (cases inp)
    case (From_file t)
    show ?thesis
    proof (cases "fgets (line_size - 1) t")
      case None
      with From_file ok show ?thesis by (simp add: mirb_round_def)
    next
      case (Some lr)
      then obtain l rest where read: "fgets (line_size - 1) t = Some (l, rest)" by (cases lr) auto
      have "length (c_str l) < line_size"
        using fgets_SomeD [OF read] length_takeWhile_le [of "\<lambda>c. c \<noteq> nul" l] by (simp add: c_str_def line_size_def)
      with ok taken [of "s\<lparr>mb_last_line := c_str l\<rparr>" "From_file rest"] From_file read show ?thesis
        by (simp add: mirb_round_def set_line_then buffers_ok_def)
    qed
  next
    case (From_console cs)
    obtain r s1 where read: "read_console cs s = (r, s1)" by fastforce
    with ok have ok1: "buffers_ok s1" by (rule read_console_keeps [rotated])
    show ?thesis
    proof (cases r)
      case None
      with From_console read ok1 show ?thesis by (simp add: mirb_round_def buffers_ok_def mirb_fields mirb_small)
    next
      case (Some lr)
      then obtain l rest where r: "r = Some (l, rest)" by (cases lr) auto
      show ?thesis
      proof (cases "length l > line_size - 2")
        case True
        with From_console read ok1 r show ?thesis by (simp add: mirb_round_def buffers_ok_def mirb_fields mirb_small)
      next
        case False
        then have "length (l @ newline) < line_size" by (simp add: line_size_def newline_def)
        with False ok1 taken [of "s1\<lparr>mb_last_line := l @ newline, mb_history := mb_history s1 @ [l]\<rparr>" "From_console rest"]
          From_console read r show ?thesis
          by (simp add: mirb_round_def set_line_then buffers_ok_def bnd_modify)
      qed
    qed
  qed
qed

lemma mirb_loop_keeps: "buffers_ok s \<Longrightarrow> \<exists>e s'. mirb_loop ir verbose inp s = (Ok e, s') \<and> buffers_ok s'"
proof (induction ir verbose inp s rule: mirb_loop.induct)
  case (1 ir verbose inp s)
  from keeps_buffersD [OF mirb_round_keeps 1(2)] obtain r inp' s'
    where round: "mirb_round ir verbose inp s = (Ok (r, inp'), s')" and ok: "buffers_ok s'" by force
  with 1(1) [OF round [symmetric] refl refl] show ?case
    by (cases r) (simp_all add: mirb_loop.simps [of ir verbose inp s])
qed

lemma mirb_start_ok: "buffers_ok (mirb_start h ev i)"
  by (simp add: mirb_start_def buffers_ok_def line_size_def code_size_def)

text \<open>C21: no input makes the shell write past the end of its line buffer or its code buffer, and it always comes to an
  end: for every interpreter, every program file and everything typed, the program exits or aborts.\<close>

theorem mirb_buffers_safe: "\<exists>e h ev. prog_mirb ir fopen home memory read_history cs prog xs = Ok (e, h, ev)"
proof -
  have loop: "\<exists>e s'. mirb_loop ir v inp (mirb_start h0 ev0 i) = (Ok e, s')" for v inp h0 ev0 i
    using mirb_loop_keeps mirb_start_ok by metis
  have run: "\<exists>e h ev. (case mirb_loop ir v inp (mirb_start h0 ev0 i) of
       (Ok Aborted, s) \<Rightarrow> Ok (Aborted, None, mb_events s)
     | (Ok e, s) \<Rightarrow> Ok (e, Some (path, mb_history s), mb_events s)
     | (Err e, s) \<Rightarrow> Err e
     | (Exn x, s) \<Rightarrow> Exn x) = Ok (e, h, ev)" for v inp h0 ev0 i path
    using loop [of v inp h0 ev0 i] by (auto split: ending.split)
  show ?thesis
    by (simp add: prog_mirb_def Let_def run split: option.split prod.split switches_end.split)
qed

subsection \<open>Leaving the shell\<close>

text \<open>The shell takes a line for \<open>quit\<close> or \<open>exit\<close> exactly when it is the keyword with nothing but white space
  before and after it.\<close>

theorem check_keyword_exact:
  assumes "word \<noteq> []" and "\<not> is_space (hd word)"
  shows "check_keyword buf word \<longleftrightarrow> (\<exists>a b. buf = a @ word @ b \<and> list_all is_space a \<and> list_all is_space b)"
proof
  assume yes: "check_keyword buf word"
  let ?p = "dropWhile is_space buf"
  have starts: "take (length word) ?p = word" and ends: "dropWhile is_space (drop (length word) ?p) = []"
    using yes unfolding check_keyword_def Let_def by blast+
  have "buf = takeWhile is_space buf @ take (length word) ?p @ drop (length word) ?p" by simp
  then have "buf = takeWhile is_space buf @ word @ drop (length word) ?p" unfolding starts .
  moreover have "list_all is_space (takeWhile is_space buf)" by (auto simp: list_all_iff dest: set_takeWhileD)
  moreover have "list_all is_space (drop (length word) ?p)" using ends unfolding list_all_iff dropWhile_eq_Nil_conv .
  ultimately show "\<exists>a b. buf = a @ word @ b \<and> list_all is_space a \<and> list_all is_space b" by blast
next
  assume "\<exists>a b. buf = a @ word @ b \<and> list_all is_space a \<and> list_all is_space b"
  then obtain a b where buf: "buf = a @ word @ b" and "list_all is_space a" "list_all is_space b" by blast
  then have "dropWhile is_space buf = word @ b"
    using assms by (cases word) (auto simp: list_all_iff dropWhile_append)
  with \<open>list_all is_space b\<close> show "check_keyword buf word"
    by (simp add: check_keyword_def list_all_iff dropWhile_eq_Nil_conv)
qed

theorem check_keyword_exact_witness: "check_keyword ''  quit  '' ''quit'' \<and> \<not> is_space (hd ''quit'')"
  using check_keyword_exact [of "''quit''" "''  quit  ''"]
  by (simp add: is_space_def check_keyword_def)

text \<open>In an open block the keywords are ordinary lines, and a line that no longer fits is dropped: the block stays as it
  is, so an interrupt or a shorter line is the only way on.\<close>

lemma long_block_stuck:
  "mb_open s \<Longrightarrow> length (mb_ruby_code s) + length (mb_last_line s) > code_size - 1 \<Longrightarrow>
    take_line ir verbose s = (Ok Next_round, complain ''concatenated input string too long'' s)"
  by (simp add: take_line_def)

subsection \<open>What the parser gets of a program file\<close>

text \<open>The texts that were complete, one after the other.\<close>

fun settled :: "mirb_event list \<Rightarrow> string" where
  "settled [] = []"
| "settled (Parse t n continues # ev) = (if continues then [] else t) @ settled ev"
| "settled (e # ev) = settled ev"

fun complaint :: "mirb_event \<Rightarrow> bool" where
  "complaint (Io (Complained t)) = True"
| "complaint e = False"

definition pending :: "'i mirb \<Rightarrow> string" where
  "pending s = (if mb_open s then mb_ruby_code s else [])"

definition given :: "'i mirb \<Rightarrow> string" where
  "given s = settled (mb_events s) @ pending s"

definition quit_line :: "string \<Rightarrow> bool" where
  "quit_line t \<longleftrightarrow> (\<exists>l rest. fgets (line_size - 1) t = Some (l, rest) \<and> (check_keyword l ''quit'' \<or> check_keyword l ''exit''))"

definition quiet :: "'i mirb \<Rightarrow> bool" where
  "quiet s \<longleftrightarrow> (\<forall>e \<in> set (mb_events s). \<not> complaint e)"

lemma settled_append [simp]: "settled (ev @ ev') = settled ev @ settled ev'"
  by (induction ev rule: settled.induct) simp_all

lemma quiet_emit [simp]: "quiet (emit ev s) \<longleftrightarrow> quiet s \<and> (\<forall>e \<in> set ev. \<not> complaint e)"
  by (auto simp: quiet_def mirb_fields)

lemma quiet_complain [simp]: "\<not> quiet (complain t s)"
  by (simp add: complain_def)

lemma given_run_code:
  assumes "vm_utf8 ir = Some" and "run_code ir verbose s = (Ok r, s')" and "quiet s'"
  shows "r = Next_round \<and> given s' = settled (mb_events s) @ mb_ruby_code s \<and> quiet s"
  using assms
  by (auto simp: run_code_def run_block_def given_def pending_def quiet_def mirb_fields mirb_small Let_def
      split: option.splits prod.splits if_splits)

lemma set_code_thenD:
  "bnd (set_code t) (\<lambda>_. m) s = (Ok r, s') \<Longrightarrow> m (s\<lparr>mb_ruby_code := t\<rparr>) = (Ok r, s')"
  by (cases "length t < code_size") (simp_all add: set_code_then, simp add: mirb_small bnd_def throw_def)

lemma set_line_thenD:
  "bnd (set_line t) (\<lambda>_. m) s = (Ok r, s') \<Longrightarrow> m (s\<lparr>mb_last_line := t\<rparr>) = (Ok r, s')"
  by (cases "length t < line_size") (simp_all add: set_line_then, simp add: mirb_small bnd_def throw_def)

lemma given_take_line:
  assumes "vm_utf8 ir = Some" and "take_line ir verbose s = (Ok r, s')" and "quiet s'"
  shows "r = Next_round \<and> given s' = given s @ mb_last_line s \<and> quiet s \<or>
    r = Leave \<and> s' = s \<and> (check_keyword (mb_last_line s) ''quit'' \<or> check_keyword (mb_last_line s) ''exit'')"
proof -
  have "r = Next_round \<and> given s' = settled (mb_events s) @ t \<and> quiet s"
    if "bnd (set_code t) (\<lambda>_. run_code ir verbose) s = (Ok r, s')" for t
    using given_run_code [OF assms(1) set_code_thenD [OF that] assms(3)] by (simp add: quiet_def)
  with assms(2,3) show ?thesis
    by (auto simp: take_line_def given_def pending_def split: if_splits)
qed

lemma given_file_round:
  assumes utf8: "vm_utf8 ir = Some" and "nul \<notin> set t"
    and round: "mirb_round ir verbose (From_file t) s = (Ok (r, inp'), s')" and "quiet s'"
  shows "quiet s \<and> (r = Next_round \<and> (\<exists>rest. inp' = From_file rest \<and> nul \<notin> set rest \<and> given s' @ rest = given s @ t) \<or>
    r = Leave \<and> given s' = given s \<and> (t = [] \<or> quit_line t))"
proof (cases "fgets (line_size - 1) t")
  case None
  with round \<open>quiet s'\<close> show ?thesis by (auto simp: mirb_round_def fgets_def split: if_splits)
next
  case (Some lr)
  then obtain l rest where read: "fgets (line_size - 1) t = Some (l, rest)" by (cases lr) auto
  from fgets_SomeD [OF read] have t: "t = l @ rest" by simp
  with \<open>nul \<notin> set t\<close> have l: "c_str l = l" and nul: "nul \<notin> set rest" by (auto simp: c_str_id)
  let ?s = "s\<lparr>mb_last_line := l\<rparr>"
  from round read l have "bnd (set_line l) (\<lambda>_. bnd (take_line ir verbose) (\<lambda>r. ret (r, From_file rest))) s = (Ok (r, inp'), s')"
    by (simp add: mirb_round_def)
  from set_line_thenD [OF this] have taken: "take_line ir verbose ?s = (Ok r, s')" and inp: "inp' = From_file rest"
    by (auto simp: bnd_def ret_def split: prod.splits outcome.splits)
  have same: "given ?s = given s" "quiet ?s = quiet s" by (simp_all add: given_def pending_def quiet_def)
  from given_take_line [OF utf8 taken \<open>quiet s'\<close>] show ?thesis
    using read t nul inp \<open>quiet s'\<close> by (auto simp: same quit_line_def)
qed

lemma given_file_loop:
  "inp = From_file t \<Longrightarrow> mirb_loop ir verbose inp s = (Ok e, s') \<Longrightarrow> vm_utf8 ir = Some \<Longrightarrow> nul \<notin> set t \<Longrightarrow> quiet s' \<Longrightarrow>
    quiet s \<and> (\<exists>rest. given s @ t = given s' @ rest \<and> (rest = [] \<or> quit_line rest))"
proof (induction ir verbose inp s arbitrary: t rule: mirb_loop.induct)
  case (1 ir verbose inp s)
  obtain m s1 where m: "mirb_round ir verbose inp s = (m, s1)" by fastforce
  with "1.prems"(2) obtain r inp' where round: "mirb_round ir verbose inp s = (Ok (r, inp'), s1)"
    by (cases m) (auto simp: mirb_loop.simps [of ir verbose inp s])
  note step = given_file_round [OF "1.prems"(3,4) round [unfolded "1.prems"(1)]]
  show ?case
  proof (cases "r = Next_round")
    case True
    from round "1.prems"(1) obtain rest where inp: "inp' = From_file rest"
      by (auto simp: mirb_round_def bnd_def ret_def split: option.splits prod.splits outcome.splits)
    have goes: "mirb_loop ir verbose inp' s1 = (Ok e, s')"
      using "1.prems"(2) round True by (simp add: mirb_loop.simps [of ir verbose inp s])
    have nul: "nul \<notin> set rest"
      using round "1.prems"(1,4) inp
      by (auto simp: mirb_round_def bnd_def ret_def split: option.splits prod.splits outcome.splits dest!: fgets_SomeD)
    from "1.IH" [OF round [unfolded True, symmetric] refl refl refl inp goes "1.prems"(3) nul "1.prems"(5)] obtain tail
      where "quiet s1" "given s1 @ rest = given s' @ tail" "tail = [] \<or> quit_line tail" by blast
    with step True inp show ?thesis by (intro conjI exI [of _ tail]) auto
  next
    case False
    with round "1.prems"(2) have "s1 = s'" by (cases r) (auto simp: mirb_loop.simps [of ir verbose inp s])
    with step "1.prems"(5) False show ?thesis by auto
  qed
qed

text \<open>C20: the parser gets a program file exactly once and in order. When nothing was complained about, the complete
  texts it was given, followed by the block that is still open, make up the file, up to the first line on which the
  shell was left.\<close>

theorem mirb_file_parsed:
  assumes "vm_utf8 ir = Some" and "nul \<notin> set t"
    and "mirb_loop ir verbose (From_file t) (mirb_start history [] i) = (Ok e, s')" and "quiet s'"
  shows "\<exists>rest. t = settled (mb_events s') @ pending s' @ rest \<and> (rest = [] \<or> quit_line rest)"
  using given_file_loop [OF refl assms(3,1,2,4)] by (simp add: given_def pending_def mirb_start_def)

text \<open>A line of more than 1022 bytes reaches the parser in pieces, each taken for a line of its own.\<close>

lemma fgets_take_cut: "CHR 10 \<notin> set (take n t) \<Longrightarrow> fgets_take n t = (take n t, drop n t)"
  by (induction n t rule: fgets_take.induct) auto

lemma long_line_cut:
  "CHR 10 \<notin> set l \<Longrightarrow> 1022 \<le> length l \<Longrightarrow> fgets (line_size - 1) (l @ t) = Some (take 1022 l, drop 1022 l @ t)"
  using fgets_take_cut [of 1022 "l @ t"] by (cases l) (auto simp: fgets_def line_size_def dest: in_set_takeD)

text \<open>An interpreter for which a text is complete when it ends in a semicolon and a line feed, and whose values are texts.\<close>

definition demo_parser :: "string \<Rightarrow> parser_state" where
  "demo_parser t = \<lparr>pa_parsing_heredoc = False, pa_heredoc_end_now = False, pa_lex_strterm = False, pa_nerr = 0,
     pa_error_line = 0, pa_error_message = [],
     pa_lstate = (if take 2 (rev t) = [CHR 10, CHR '';''] then EXPR_BEG else EXPR_DOT)\<rparr>"

definition demo_irb :: "(string, string, string, string) irb_ops" where
  "demo_irb = vm_ops.extend demo_vm \<lparr>ir_parse = (\<lambda>c t n i. (Some (demo_parser t, t), i)), ir_generate = (\<lambda>t i. (Some t, i)),
     ir_nlocals = length, ir_env_len = (\<lambda>i. None), ir_set_env_len = (\<lambda>n i. i), ir_run = (\<lambda>c n i. (c, i)), ir_clear_exc = (\<lambda>i. []),
     ir_responds = (\<lambda>v i. True), ir_any_to_s = (\<lambda>v i. (v, i)), ir_inspect = (\<lambda>v i. (v, i)), ir_string = (\<lambda>v i. Some v),
     ir_as_string = (\<lambda>v i. (v, i))\<rparr>"

definition demo_script :: string where
  "demo_script = ''a'' @ newline @ ''b;'' @ newline @ '' quit'' @ newline @ ''c''"

lemma demo_mirb_run:
  "case mirb_loop demo_irb False (From_file demo_script) (mirb_start [] [] []) of
      (Ok e, s') \<Rightarrow> e = Exited 0 \<and> quiet s' \<and> settled (mb_events s') = ''a'' @ newline @ ''b;'' @ newline \<and> pending s' = []
    | _ \<Rightarrow> False"
  by code_simp

lemma demo_rounds:
  "case mirb_rounds demo_irb False 2 (From_file demo_script, mirb_start [] [] []) of
      Some (inp, s) \<Rightarrow> inp = From_file ('' quit'' @ newline @ ''c'') | None \<Rightarrow> False"
  by code_simp

theorem mirb_rounds_bounded_witness:
  "\<exists>inp s. mirb_rounds demo_irb False 2 (From_file demo_script, mirb_start [] [] []) = Some (inp, s) \<and>
    2 + input_size inp \<le> input_size (From_file demo_script)"
  using demo_rounds mirb_rounds_bounded [of demo_irb False 2 "From_file demo_script" "mirb_start [] [] []"]
  by (fastforce split: option.splits)

theorem mirb_file_parsed_witness:
  "vm_utf8 demo_irb = Some \<and> nul \<notin> set demo_script \<and>
    (\<exists>rest. demo_script = ''a'' @ newline @ ''b;'' @ newline @ rest \<and> (rest = [] \<or> quit_line rest))"
proof -
  have side: "vm_utf8 demo_irb = Some" "nul \<notin> set demo_script"
    by (simp_all add: demo_irb_def demo_vm_def vm_ops.extend_def demo_script_def newline_def nul_def)
  obtain s' where run: "mirb_loop demo_irb False (From_file demo_script) (mirb_start [] [] []) = (Ok (Exited 0), s')" "quiet s'"
    and given: "settled (mb_events s') = ''a'' @ newline @ ''b;'' @ newline" "pending s' = []"
    using demo_mirb_run by (auto split: prod.splits outcome.splits)
  from mirb_file_parsed [OF side run] show ?thesis unfolding given using side by simp
qed

end
