(* ===== verification/Spec2Isabelle.thy ===== *)
theory Spec2Isabelle
  imports JsonErrors Mrb FileRuns HostRuns MountReport Tests System Ruby Mirb
begin

text \<open>
  This development models libral, a library that reads and changes resources of a system (users,
  groups, files, mounts, host entries and whatever scripts add) through providers, with the
  command line program \<open>ralsh\<close>, a small C interface and a Ruby binding on top. All paths are relative to \<open>src/\<close>.

  \<^bold>\<open>How the program works.\<close> A \<open>ral\<close> object knows data directories and a target, the system that is
  managed: the local one or one behind ssh. It offers the built-in providers and one for
  every \<open>.prov\<close> file below the data directories, as far as they are suitable. A provider has
  metadata (its name, type and typed attributes) and two operations: \<open>get\<close> reports the
  current state of resources and \<open>set\<close> makes updates, pairs of current and desired state,
  recording what it changed. The base class turns the two into \<open>get\<close>, \<open>find\<close> and \<open>set\<close> for
  callers. \<open>ralsh\<close> chooses a provider, reads attributes from its arguments, calls one of
  the three and prints the result as text or JSON. A C interface and a Ruby binding offer the same to
  other programs.

  \<^bold>\<open>Conventions.\<close> A function that returns \<open>result<T>\<close> or may throw gives an \<open>outcome\<close>: \<open>Ok\<close>, \<open>Err\<close> with
  the message of the error object, or \<open>Exn\<close>; undefined behaviour that an input can trigger
  (a null pointer, an empty string's last character, signed overflow) is the exception
  \<open>Undefined\<close>, so that theorems about the normal outcomes exclude it. Code with effects passes its state
  (\<open>prog\<close>), and the state after an error is the one reached when the error
  occurred. Strings are lists of bytes. Ordered maps are association lists sorted by key.
  Messages are in the untranslated locale. Numbers keep their width where it matters: user and
  group ids are \<open>32 word\<close>, the column width of the output \<open>16 word\<close>, results of the C interface
  \<open>8 word\<close>; \<open>int\<close> conversions check their range.
  Loops are recursion on the list they run through; \<open>split_dirs\<close>, the numeral printers and
  the loop of the Ruby shell recurse on a smaller string, number or input and have termination proofs, so no fuel is used anywhere.

  \<^bold>\<open>Parameters.\<close> What is not in the repository is an argument: starting processes, finding
  commands and testing files for execution (\<open>exe_ops\<close>), reading and writing local files (\<open>file_io\<close>), file system calls (\<open>fs_ops\<close>), the account databases (\<open>account_db\<close>),
  the augeas library (\<open>aug_ops\<close>), the Ruby interpreter (\<open>mrb_ops\<close>, \<open>rt_ops\<close>, \<open>vm_ops\<close>, \<open>irb_ops\<close>), the JSON library
  (\<open>json_ops\<close>), Boost's path functions (\<open>path_ops\<close>) and Boost's command line parser, whose result
  the program's model starts from.

  \<^bold>\<open>The theories\<close>, in the order of their imports:
  \<^item> \<open>Prelude\<close>: outcomes, effectful code, string scanning. \<open>Omap\<close>: \<open>std::map\<close>. \<open>Zoom\<close>: programs that work on
    a part of a larger state, with the laws of such parts as locales, and what programs preserve.
  \<^item> \<open>Result\<close> (\<open>lib/inc/libral/result.hpp\<close>): the tagged union and its assignments; no sequence of them
    reads the wrong member. \<open>Value\<close> (\<open>lib/src/value.cc\<close>): values, their text and JSON form.
  \<^item> \<open>AttrSpec\<close> (\<open>lib/src/attr/spec.cc\<close>): attribute types; reading accepts exactly the values of a type,
    and types round-trip through their text.
  \<^item> \<open>Resource\<close>, \<open>Changes\<close> (\<open>lib/src/resource.cc\<close>, \<open>lib/src/context.cc\<close>): resources,
    updates, recorded changes and the log lines of providers.
  \<^item> \<open>ProvSpec\<close> (\<open>lib/src/prov/spec.cc\<close>): metadata; what is accepted is well formed. \<open>Mrb\<close>
    (\<open>lib/inc/libral/mruby.hpp\<close>): the calls into the interpreter, whose exceptions become errors.
  \<^item> \<open>Provider\<close> (\<open>lib/src/provider.cc\<close>): the base class; \<open>find\<close> is exact, updates pair each desired
    state with the current ones. \<open>Interfaces\<close>: the contracts of providers as locales, which
    each provider's theory interprets.
  \<^item> \<open>Target\<close> (\<open>lib/src/command.cc\<close>, \<open>lib/src/target/\<close>): commands, the local and the ssh target; the
    temporary directory is created at most once and removed.
  \<^item> \<open>Environment\<close> (\<open>lib/src/environment.cc\<close>, \<open>lib/src/target.cc\<close>): the whole interface of targets and
    what a provider's \<open>describe\<close> can ask for.
  \<^item> \<open>User\<close>, \<open>Group\<close>, \<open>File\<close>, \<open>Host\<close>, \<open>Mount\<close> (\<open>lib/src/user.cc\<close> and so on): the built-in providers.
    Users and groups refine a plan (changes and one command line); a file update reaches the
    state it asks for; \<open>FileRuns\<close>: a second run of the same update does nothing;
    \<open>AugTable\<close>: a file in the augeas tree as a table of entries, with what the library documents for reading and editing it;
    \<open>HostTable\<close>, \<open>MountTable\<close>: an update of a host or a mount refines one of such a table;
    \<open>HostRuns\<close>: hosts that were set and saved are reported as they were asked for, and setting them again changes nothing;
    \<open>MountReport\<close>: what is reported of mounts is the join of the table of file systems and the table of mounted ones;
    \<open>Augeas\<close> has the handles that hosts and mounts are edited through, and what saving does to a remote file.
  \<^item> \<open>SimpleProvider\<close>, \<open>JsonProvider\<close>, \<open>Json\<close>: providers that are executables, with the line protocol and the
    JSON protocol; a list of resources printed by a script is read back. \<open>JsonErrors\<close>: the errors of
    a JSON provider name the provider.
  \<^item> \<open>Ral\<close> (\<open>lib/src/ral.cc\<close>): data directories, loading, describing and choosing providers, with
    the log messages on the way; providers that are broken only drop out.
  \<^item> \<open>Emitter\<close> (\<open>lib/src/emitter/\<close>), \<open>Ralsh\<close> (\<open>exe/ralsh.cc\<close>, \<open>lib/src/cwrapper.cc\<close>): output, the program and the
    C interface, with their exit codes.
  \<^item> \<open>System\<close> (\<open>ral::make_env\<close>, \<open>ral::providers\<close> in \<open>lib/src/ral.cc\<close>): the program put together. All providers
    work on one world, each on its own part; what was proved of a provider alone holds of it there, none
    touches the tables of another, and on a remote system no provider acts on the local one.
  \<^item> \<open>Ruby\<close> (\<open>ruby/ext/libral/libral.cc\<close>): the Ruby binding; what \<open>get\<close> gives can be given back to \<open>set\<close>.
  \<^item> \<open>Mruby\<close> (\<open>exe/mruby.c\<close>), \<open>Mirb\<close> (\<open>exe/mirb.c\<close>): the two Ruby programs that \<open>main\<close> starts by the name it is
    called by. The interpreter is a parameter. mruby releases what it acquires; the interactive shell never writes past the
    end of its buffers, has no more rounds than input, and gives a program file to the parser once and in order.
  \<^item> \<open>Tests\<close>: unit tests of the repository (\<open>lib/tests/attr/spec.cc\<close>, \<open>lib/tests/file.cc\<close>), evaluated on the model.

  \<^bold>\<open>Not modelled\<close>: the old augeas wrapper
  \<open>lib/src/augeas.cc\<close> (not part of the build), the variants of \<open>exe/mirb.c\<close>
  without readline and for Windows, the registration of classes with the Ruby interpreter, the cast helper
  \<open>lib/inc/libral/cast.hpp\<close> (moves are copies here), and the harness of the tests. When a provider is loaded, its message is formatted a second
  time; it is taken as it is, so a brace in a path would show differently.
\<close>

end
